theory Spec2Isabelle
  imports Complex_Main
begin

section \<open>Double-precision values\<close>

text \<open>
  The arrays of \<^verbatim>\<open>wind_shear.py\<close> hold IEEE 754 binary64 values. A value is a finite
  real, one of the two infinities, or NaN. The sign of zero is not represented (none of the
  three functions can observe it), and all NaNs are one value.
\<close>

datatype double = Fin real | PInf | NInf | NaN

text \<open>Rounding of an exact real result: to the nearest integer multiple of the quantum of
  its binade, ties to the even multiple; a result that reaches \<open>2 ^ 1024\<close> overflows.\<close>

definition rne :: "real \<Rightarrow> int" where
  "rne x = (let f = \<lfloor>x\<rfloor> in
     if x - of_int f < 1 / 2 then f
     else if 1 / 2 < x - of_int f then f + 1
     else if even f then f else f + 1)"

definition quantum :: "real \<Rightarrow> real" where
  "quantum r = 2 powr (of_int (max \<lfloor>log 2 \<bar>r\<bar>\<rfloor> (- 1022)) - 52)"

definition round64 :: "real \<Rightarrow> double" where
  "round64 r =
     (if r = 0 then Fin 0
      else let v = quantum r * of_int (rne (r / quantum r)) in
        if 2 ^ 1024 \<le> \<bar>v\<bar> then (if 0 < r then PInf else NInf) else Fin v)"

definition is_nan :: "double \<Rightarrow> bool" where
  "is_nan x = (x = NaN)"

fun fneg :: "double \<Rightarrow> double" where
  "fneg (Fin a) = Fin (- a)"
| "fneg PInf = NInf"
| "fneg NInf = PInf"
| "fneg NaN = NaN"

fun fabs :: "double \<Rightarrow> double" where
  "fabs (Fin a) = Fin \<bar>a\<bar>"
| "fabs PInf = PInf"
| "fabs NInf = PInf"
| "fabs NaN = NaN"

fun fadd :: "double \<Rightarrow> double \<Rightarrow> double" where
  "fadd NaN y = NaN"
| "fadd x NaN = NaN"
| "fadd (Fin a) (Fin b) = round64 (a + b)"
| "fadd PInf NInf = NaN"
| "fadd NInf PInf = NaN"
| "fadd PInf y = PInf"
| "fadd NInf y = NInf"
| "fadd (Fin a) y = y"

definition fsub :: "double \<Rightarrow> double \<Rightarrow> double" where
  "fsub x y = fadd x (fneg y)"

fun fmul :: "double \<Rightarrow> double \<Rightarrow> double" where
  "fmul NaN y = NaN"
| "fmul x NaN = NaN"
| "fmul (Fin a) (Fin b) = round64 (a * b)"
| "fmul (Fin a) y = (if a = 0 then NaN else if 0 < a then y else fneg y)"
| "fmul x (Fin b) = (if b = 0 then NaN else if 0 < b then x else fneg x)"
| "fmul x y = (if x = y then PInf else NInf)"

fun fdiv :: "double \<Rightarrow> double \<Rightarrow> double" where
  "fdiv NaN y = NaN"
| "fdiv x NaN = NaN"
| "fdiv (Fin a) (Fin b) =
     (if b = 0 then (if a = 0 then NaN else if 0 < a then PInf else NInf)
      else round64 (a / b))"
| "fdiv (Fin a) y = Fin 0"
| "fdiv x (Fin b) = (if 0 \<le> b then x else fneg x)"
| "fdiv x y = NaN"

fun fsqrt :: "double \<Rightarrow> double" where
  "fsqrt (Fin a) = (if a < 0 then NaN else round64 (sqrt a))"
| "fsqrt PInf = PInf"
| "fsqrt NInf = NaN"
| "fsqrt NaN = NaN"

text \<open>The comparison \<^verbatim>\<open>x >= y\<close>: false as soon as one side is NaN.\<close>

fun fge :: "double \<Rightarrow> double \<Rightarrow> bool" where
  "fge NaN y = False"
| "fge x NaN = False"
| "fge (Fin a) (Fin b) = (b \<le> a)"
| "fge PInf y = True"
| "fge x NInf = True"
| "fge x y = False"


section \<open>Python floats, arrays and errors\<close>

text \<open>
  An \<^verbatim>\<open>ArrayScalarLike\<close> argument is a plain Python float or an n-dimensional array: a
  shape and the elements in row-major order. A NumPy scalar (\<^verbatim>\<open>np.float64\<close>) behaves as
  the array of shape \<open>()\<close> in every operation used here and is that array.
\<close>

datatype 'a ndarray = NdArray (shape: "nat list") (data: "'a list")

datatype pyval = PyFloat double | Arr "double ndarray"

datatype error =
    ValueError | ZeroDivisionError | OverflowError | AttributeError | IndexError
  | ComplexResult

definition bind_res :: "error + 'a \<Rightarrow> ('a \<Rightarrow> error + 'b) \<Rightarrow> error + 'b" where
  "bind_res r f = (case r of Inl e \<Rightarrow> Inl e | Inr v \<Rightarrow> f v)"

definition wf_array :: "'a ndarray \<Rightarrow> bool" where
  "wf_array a = (length (data a) = prod_list (shape a))"

subsection \<open>Broadcasting\<close>

text \<open>Shapes are aligned at their last axis; two axis lengths are compatible when they
  are equal or one of them is 1.\<close>

fun broadcast_rev :: "nat list \<Rightarrow> nat list \<Rightarrow> nat list option" where
  "broadcast_rev [] ys = Some ys"
| "broadcast_rev xs [] = Some xs"
| "broadcast_rev (x # xs) (y # ys) =
     (if x = y \<or> y = 1 then map_option ((#) x) (broadcast_rev xs ys)
      else if x = 1 then map_option ((#) y) (broadcast_rev xs ys)
      else None)"

definition broadcast_shapes :: "nat list \<Rightarrow> nat list \<Rightarrow> nat list option" where
  "broadcast_shapes s t = map_option rev (broadcast_rev (rev s) (rev t))"

definition chunks :: "nat \<Rightarrow> nat \<Rightarrow> 'a list \<Rightarrow> 'a list list" where
  "chunks k n xs = map (\<lambda>i. take n (drop (i * n) xs)) [0..<k]"

text \<open>\<open>expand t s xs\<close>: the elements of an array of shape \<open>s\<close> (as long as \<open>t\<close>) stretched
  to the shape \<open>t\<close>: an axis of length 1 is repeated.\<close>

fun expand :: "nat list \<Rightarrow> nat list \<Rightarrow> 'a list \<Rightarrow> 'a list" where
  "expand (t # ts) (s # ss) xs =
     (if s = t then concat (map (expand ts ss) (chunks s (prod_list ss) xs))
      else concat (replicate t (expand ts ss xs)))"
| "expand ts ss xs = xs"

definition broadcast_to :: "nat list \<Rightarrow> 'a ndarray \<Rightarrow> 'a list" where
  "broadcast_to t a =
     expand t (replicate (length t - length (shape a)) 1 @ shape a) (data a)"

definition np_binary ::
  "(double \<Rightarrow> double \<Rightarrow> double) \<Rightarrow> double ndarray \<Rightarrow> double ndarray \<Rightarrow> error + double ndarray"
where
  "np_binary f a b =
     (case broadcast_shapes (shape a) (shape b) of
        None \<Rightarrow> Inl ValueError
      | Some s \<Rightarrow> Inr (NdArray s (map2 f (broadcast_to s a) (broadcast_to s b))))"

definition np_unary :: "(double \<Rightarrow> double) \<Rightarrow> double ndarray \<Rightarrow> double ndarray" where
  "np_unary f a = NdArray (shape a) (map f (data a))"

fun as_array :: "pyval \<Rightarrow> double ndarray" where
  "as_array (PyFloat x) = NdArray [] [x]"
| "as_array (Arr a) = a"

section \<open>wind\_shear\_enhancement\_factor\<close>

text \<open>
  \<^verbatim>\<open>contrail_depth\<close> is annotated as an array, the other two as a float or an array, so
  every operation is the array library's. Its elementwise power is the parameter \<open>pw\<close>.
\<close>

definition wind_shear_enhancement_factor ::
  "(double \<Rightarrow> double \<Rightarrow> double) \<Rightarrow> double ndarray \<Rightarrow> pyval \<Rightarrow> pyval \<Rightarrow> error + double"
where
  "wind_shear_enhancement_factor pw contrail_depth effective_vertical_resolution
       wind_shear_enhancement_exponent =
     bind_res (np_binary fdiv (as_array effective_vertical_resolution) contrail_depth)
       (\<lambda>ratio.
     bind_res (np_binary pw ratio (as_array wind_shear_enhancement_exponent))
       (\<lambda>p.
     bind_res (np_binary fadd (NdArray [] [Fin 1]) p)
       (\<lambda>s.
     bind_res (np_binary fmul (NdArray [] [Fin (1 / 2)]) s)
       (\<lambda>enhancement_factor.
     let hijacked_factor = Fin 1 in Inr hijacked_factor))))"

section \<open>The operations of Python and of the array library\<close>

text \<open>
  An arithmetic operator applied to two Python floats is Python's own (division by zero and
  an overflowing power raise); as soon as one operand is an array it is the array
  library's elementwise operation, which never raises on values.
\<close>

definition py_apply ::
  "(double \<Rightarrow> double \<Rightarrow> error + double) \<Rightarrow> (double \<Rightarrow> double \<Rightarrow> double)
     \<Rightarrow> pyval \<Rightarrow> pyval \<Rightarrow> error + pyval"
where
  "py_apply pyf npf x y =
     (case (x, y) of
        (PyFloat a, PyFloat b) \<Rightarrow> map_sum id PyFloat (pyf a b)
      | _ \<Rightarrow> map_sum id Arr (np_binary npf (as_array x) (as_array y)))"

definition py_sub :: "pyval \<Rightarrow> pyval \<Rightarrow> error + pyval" where
  "py_sub = py_apply (\<lambda>a b. Inr (fsub a b)) fsub"

definition py_add :: "pyval \<Rightarrow> pyval \<Rightarrow> error + pyval" where
  "py_add = py_apply (\<lambda>a b. Inr (fadd a b)) fadd"

definition py_mul :: "pyval \<Rightarrow> pyval \<Rightarrow> error + pyval" where
  "py_mul = py_apply (\<lambda>a b. Inr (fmul a b)) fmul"

definition py_truediv :: "pyval \<Rightarrow> pyval \<Rightarrow> error + pyval" where
  "py_truediv =
     py_apply (\<lambda>a b. if b = Fin 0 then Inl ZeroDivisionError else Inr (fdiv a b)) fdiv"

text \<open>\<^verbatim>\<open>x ** 2\<close>: a finite Python float whose square overflows raises. On an array of one
  dimension or more the power is the square \<open>x * x\<close>, correctly rounded. On a Python float and
  on a NumPy scalar it is the C library's \<^verbatim>\<open>pow\<close>, whose last bit is not specified: it is
  taken here as correctly rounded too, and no statement below rests on that bit.\<close>

fun py_pow2 :: "pyval \<Rightarrow> error + pyval" where
  "py_pow2 (PyFloat (Fin a)) =
     (if fmul (Fin a) (Fin a) = PInf then Inl OverflowError
      else Inr (PyFloat (fmul (Fin a) (Fin a))))"
| "py_pow2 (PyFloat x) = Inr (PyFloat (fmul x x))"
| "py_pow2 (Arr a) = Inr (Arr (np_unary (\<lambda>x. fmul x x) a))"

text \<open>\<^verbatim>\<open>x ** 0.5\<close>: on a negative finite Python float the result is a complex number,
  a value outside this model; the power of minus infinity is plus infinity. On an array of one
  dimension or more the power is the square root, correctly rounded; on a Python float and on
  a NumPy scalar it is the C library's \<^verbatim>\<open>pow\<close>, taken here as correctly rounded too.\<close>

fun py_pow_half :: "pyval \<Rightarrow> error + pyval" where
  "py_pow_half (PyFloat (Fin a)) =
     (if a < 0 then Inl ComplexResult else Inr (PyFloat (fsqrt (Fin a))))"
| "py_pow_half (PyFloat NInf) = Inr (PyFloat PInf)"
| "py_pow_half (PyFloat x) = Inr (PyFloat x)"
| "py_pow_half (Arr a) = Inr (Arr (np_unary fsqrt a))"

text \<open>\<^verbatim>\<open>np.maximum\<close>, \<^verbatim>\<open>np.minimum\<close> and the reductions \<^verbatim>\<open>np.max\<close>, \<^verbatim>\<open>np.min\<close>: a NaN
  propagates; an empty array raises.\<close>

definition np_maximum :: "double \<Rightarrow> double \<Rightarrow> double" where
  "np_maximum a b = (if fge a b \<or> is_nan a then a else b)"

definition np_minimum :: "double \<Rightarrow> double \<Rightarrow> double" where
  "np_minimum a b = (if fge b a \<or> is_nan a then a else b)"

definition np_max :: "pyval \<Rightarrow> error + double" where
  "np_max v =
     (case data (as_array v) of
        [] \<Rightarrow> Inl ValueError
      | x # xs \<Rightarrow> Inr (foldl np_maximum x xs))"

definition np_min :: "double ndarray \<Rightarrow> error + double" where
  "np_min a =
     (case data a of
        [] \<Rightarrow> Inl ValueError
      | x # xs \<Rightarrow> Inr (foldl np_minimum x xs))"

definition np_isnan_any :: "pyval \<Rightarrow> bool" where
  "np_isnan_any v = list_ex is_nan (data (as_array v))"

text \<open>\<^verbatim>\<open>np.argmin\<close> of the flattened array: the first index of the minimum; the first NaN
  ends the search and is the minimum.\<close>

fun argmin_loop :: "double \<Rightarrow> nat \<Rightarrow> nat \<Rightarrow> double list \<Rightarrow> nat" where
  "argmin_loop mp min_ind i [] = min_ind"
| "argmin_loop mp min_ind i (x # xs) =
     (if \<not> fge x mp then (if is_nan x then i else argmin_loop x i (Suc i) xs)
      else argmin_loop mp min_ind (Suc i) xs)"

definition np_argmin :: "double list \<Rightarrow> error + nat" where
  "np_argmin xs =
     (case xs of
        [] \<Rightarrow> Inl ValueError
      | x # ys \<Rightarrow> Inr (if is_nan x then 0 else argmin_loop x 0 1 ys))"

definition getitem :: "'a list \<Rightarrow> nat \<Rightarrow> error + 'a" where
  "getitem xs i = (if i < length xs then Inr (xs ! i) else Inl IndexError)"

text \<open>\<^verbatim>\<open>x.shape\<close>: a Python float has no such attribute.\<close>

fun shape_of :: "pyval \<Rightarrow> error + nat list" where
  "shape_of (PyFloat x) = Inl AttributeError"
| "shape_of (Arr a) = Inr (shape a)"

definition np_full :: "nat list \<Rightarrow> 'a \<Rightarrow> 'a ndarray" where
  "np_full s v = NdArray s (replicate (prod_list s) v)"

definition np_where :: "bool ndarray \<Rightarrow> double \<Rightarrow> double ndarray \<Rightarrow> error + double ndarray" where
  "np_where cond x a =
     (case broadcast_shapes (shape cond) (shape a) of
        None \<Rightarrow> Inl ValueError
      | Some s \<Rightarrow>
          Inr (NdArray s (map2 (\<lambda>m y. if m then x else y)
                 (broadcast_to s cond) (broadcast_to s a))))"

section \<open>wind\_shear and wind\_shear\_normal\<close>

text \<open>The literals \<^verbatim>\<open>2e-3\<close>, \<^verbatim>\<open>4e-3\<close>, \<^verbatim>\<open>6e-3\<close> are the doubles nearest to them.\<close>

definition d_2e3 :: double where "d_2e3 = round64 (2 / 1000)"
definition d_4e3 :: double where "d_4e3 = round64 (4 / 1000)"
definition d_6e3 :: double where "d_6e3 = round64 (6 / 1000)"

definition shear_options :: "double list" where
  "shear_options = [d_2e3, d_4e3, d_6e3]"

text \<open>What the functions write to standard output.\<close>

datatype printed = Removed_NaN | Normal_shear_line double | Shear_line double

text \<open>The two gradients \<^verbatim>\<open>du_dz\<close>, \<^verbatim>\<open>dv_dz\<close> and the magnitude \<^verbatim>\<open>ds_dz\<close>.\<close>

definition gradients ::
  "pyval \<Rightarrow> pyval \<Rightarrow> pyval \<Rightarrow> pyval \<Rightarrow> double \<Rightarrow> error + pyval \<times> pyval"
where
  "gradients u_wind_top u_wind_btm v_wind_top v_wind_btm dz =
     bind_res (py_sub u_wind_top u_wind_btm) (\<lambda>du.
     bind_res (py_truediv du (PyFloat dz)) (\<lambda>du_dz.
     bind_res (py_sub v_wind_top v_wind_btm) (\<lambda>dv.
     bind_res (py_truediv dv (PyFloat dz)) (\<lambda>dv_dz.
     Inr (du_dz, dv_dz)))))"

definition magnitude :: "pyval \<Rightarrow> pyval \<Rightarrow> error + pyval" where
  "magnitude du_dz dv_dz =
     bind_res (py_pow2 du_dz) (\<lambda>a.
     bind_res (py_pow2 dv_dz) (\<lambda>b.
     bind_res (py_add a b) py_pow_half))"

definition normal_gradient :: "pyval \<Rightarrow> pyval \<Rightarrow> pyval \<Rightarrow> pyval \<Rightarrow> error + pyval" where
  "normal_gradient du_dz dv_dz cos_a sin_a =
     bind_res (py_mul dv_dz cos_a) (\<lambda>a.
     bind_res (py_mul du_dz sin_a) (\<lambda>b.
     py_sub a b))"

text \<open>The loop over the candidates appends, at every turn, the same row
  \<^verbatim>\<open>np.abs(shear_options - shear_max)\<close>; the minimum is then searched in the flattened
  3 by 3 matrix and its index is used on the list of three candidates.\<close>

definition distance_row :: "double \<Rightarrow> double list" where
  "distance_row shear_max = map (\<lambda>b. fabs (fsub b shear_max)) shear_options"

definition shear_distance :: "double \<Rightarrow> double list list" where
  "shear_distance shear_max =
     foldl (\<lambda>acc shear. acc @ [distance_row shear_max]) [] shear_options"

definition choose_shear :: "double \<Rightarrow> error + double" where
  "choose_shear shear_max =
     bind_res (np_argmin (concat (shear_distance shear_max))) (getitem shear_options)"

text \<open>The overwrite of every element and the minimum taken for the diagnostic line.\<close>

definition overwrite :: "double \<Rightarrow> pyval \<Rightarrow> error + double ndarray \<times> double" where
  "overwrite x g =
     bind_res (shape_of g) (\<lambda>s.
     let msk = np_full s True in
     bind_res (np_where msk x (as_array g)) (\<lambda>r.
     bind_res (np_min r) (\<lambda>min_shear.
     Inr (r, min_shear))))"

definition wind_shear ::
  "pyval \<Rightarrow> pyval \<Rightarrow> pyval \<Rightarrow> pyval \<Rightarrow> double \<Rightarrow> printed list \<times> (error + pyval)"
where
  "wind_shear u_wind_top u_wind_btm v_wind_top v_wind_btm dz =
     (case bind_res (gradients u_wind_top u_wind_btm v_wind_top v_wind_btm dz)
             (\<lambda>(du_dz, dv_dz).
           bind_res (magnitude du_dz dv_dz) (\<lambda>ds_dz.
           bind_res (np_max ds_dz) (\<lambda>shear_max.
           bind_res (choose_shear shear_max) (\<lambda>chosen. Inr (ds_dz, chosen))))) of
        Inl e \<Rightarrow> ([], Inl e)
      | Inr (ds_dz, chosen) \<Rightarrow>
          let nan_present = np_isnan_any ds_dz;
              chosen_shear = (if nan_present then d_2e3 else chosen)
          in (case overwrite chosen_shear ds_dz of
                Inl e \<Rightarrow> ([], Inl e)
              | Inr (r, min_shear) \<Rightarrow>
                  (if chosen_shear \<noteq> d_2e3 \<or> nan_present then [Shear_line min_shear] else [],
                   Inr (Arr r))))"

definition wind_shear_normal ::
  "pyval \<Rightarrow> pyval \<Rightarrow> pyval \<Rightarrow> pyval \<Rightarrow> pyval \<Rightarrow> pyval \<Rightarrow> double
     \<Rightarrow> printed list \<times> (error + pyval)"
where
  "wind_shear_normal u_wind_top u_wind_btm v_wind_top v_wind_btm cos_a sin_a dz =
     (case bind_res (gradients u_wind_top u_wind_btm v_wind_top v_wind_btm dz)
             (\<lambda>(du_dz, dv_dz).
           bind_res (normal_gradient du_dz dv_dz cos_a sin_a) (\<lambda>dsn_dz.
           bind_res (magnitude du_dz dv_dz) (\<lambda>ds_dz.
           bind_res (np_max ds_dz) (\<lambda>shear_max.
           bind_res (choose_shear shear_max) (\<lambda>chosen. Inr (dsn_dz, chosen)))))) of
        Inl e \<Rightarrow> ([], Inl e)
      | Inr (dsn_dz, chosen) \<Rightarrow>
          let nan_present = np_isnan_any dsn_dz;
              chosen_shear = (if nan_present then d_2e3 else chosen);
              out = (if nan_present then [Removed_NaN] else [])
          in (case overwrite (fneg chosen_shear) dsn_dz of
                Inl e \<Rightarrow> (out, Inl e)
              | Inr (r, min_shear) \<Rightarrow>
                  (out @ (if chosen_shear \<noteq> d_2e3 \<or> nan_present
                          then [Normal_shear_line min_shear] else []),
                   Inr (Arr r))))"

section \<open>Auxiliary definitions for the proofs\<close>

text \<open>The selection as the specification words it: one distance vector, one arg-min.\<close>

definition choose_shear_direct :: "double \<Rightarrow> error + double" where
  "choose_shear_direct shear_max =
     bind_res (np_argmin (distance_row shear_max)) (getitem shear_options)"

text \<open>The minimum that the search of \<^verbatim>\<open>np.argmin\<close> holds after a NaN-free run.\<close>

definition running_min :: "double \<Rightarrow> double list \<Rightarrow> double" where
  "running_min mp xs = foldl (\<lambda>m x. if \<not> fge x m then x else m) mp xs"

text \<open>An axis of the stretched shape against the axis it comes from.\<close>

definition compat :: "nat list \<Rightarrow> nat list \<Rightarrow> bool" where
  "compat t s = list_all2 (\<lambda>t s. s = t \<or> s = 1) t s"

definition elems :: "pyval \<Rightarrow> double set" where
  "elems v = set (data (as_array v))"

definition wf_val :: "pyval \<Rightarrow> bool" where
  "wf_val v = wf_array (as_array v)"

definition hypot2 :: "double \<Rightarrow> double \<Rightarrow> double" where
  "hypot2 a b = fsqrt (fadd (fmul a a) (fmul b b))"

definition nonneg :: "double \<Rightarrow> bool" where
  "nonneg d = (case d of Fin v \<Rightarrow> 0 \<le> v | PInf \<Rightarrow> True | NInf \<Rightarrow> False | NaN \<Rightarrow> False)"

definition bshape :: "pyval \<Rightarrow> nat list" where
  "bshape v = shape (as_array v)"

text \<open>The bucket as a function of the NaN flag and of the maximum of the magnitude.\<close>

definition chosen_bucket :: "bool \<Rightarrow> double \<Rightarrow> double" where
  "chosen_bucket nan_present shear_max =
     (if nan_present then d_2e3
      else case choose_shear_direct shear_max of Inr c \<Rightarrow> c | Inl e \<Rightarrow> d_2e3)"

text \<open>The shape that the inputs broadcast to, combined in the order of the source.\<close>

definition wind_shape :: "pyval \<Rightarrow> pyval \<Rightarrow> pyval \<Rightarrow> pyval \<Rightarrow> nat list option" where
  "wind_shape u_wind_top u_wind_btm v_wind_top v_wind_btm =
     Option.bind (broadcast_shapes (bshape u_wind_top) (bshape u_wind_btm)) (\<lambda>su.
     Option.bind (broadcast_shapes (bshape v_wind_top) (bshape v_wind_btm)) (\<lambda>sv.
     broadcast_shapes su sv))"

definition normal_shape ::
  "pyval \<Rightarrow> pyval \<Rightarrow> pyval \<Rightarrow> pyval \<Rightarrow> pyval \<Rightarrow> pyval \<Rightarrow> nat list option"
where
  "normal_shape u_wind_top u_wind_btm v_wind_top v_wind_btm cos_a sin_a =
     Option.bind (broadcast_shapes (bshape u_wind_top) (bshape u_wind_btm)) (\<lambda>su.
     Option.bind (broadcast_shapes (bshape v_wind_top) (bshape v_wind_btm)) (\<lambda>sv.
     Option.bind (broadcast_shapes sv (bshape cos_a)) (\<lambda>sc.
     Option.bind (broadcast_shapes su (bshape sin_a)) (\<lambda>ss.
     broadcast_shapes sc ss))))"

text \<open>Two levels with the same wind, given as arrays of two elements.\<close>

abbreviation zero2 :: pyval where
  "zero2 \<equiv> Arr (NdArray [2] [Fin 0, Fin 0])"

abbreviation nan2 :: pyval where
  "nan2 \<equiv> Arr (NdArray [2] [NaN, NaN])"

abbreviation zero1 :: pyval where
  "zero1 \<equiv> Arr (NdArray [1] [Fin 0])"

abbreviation one2 :: pyval where
  "one2 \<equiv> Arr (NdArray [2] [Fin 1, Fin 1])"

text \<open>Candidate \<open>i\<close> is the nearest to \<open>shear_max\<close>: no candidate \<open>b\<close> has a smaller distance
  \<^verbatim>\<open>np.abs(b - shear_max)\<close>, a double, and every candidate before it has a greater one.\<close>

definition nearest :: "double \<Rightarrow> nat \<Rightarrow> bool" where
  "nearest shear_max i =
     (i < length shear_options
      \<and> (\<forall>j < length shear_options.
            fge (fabs (fsub (shear_options ! j) shear_max))
                (fabs (fsub (shear_options ! i) shear_max)))
      \<and> (\<forall>j < i. \<not> fge (fabs (fsub (shear_options ! i) shear_max))
                           (fabs (fsub (shear_options ! j) shear_max))))"

abbreviation inf2 :: pyval where
  "inf2 \<equiv> Arr (NdArray [2] [PInf, PInf])"

text \<open>Python's unary minus, on a float and elementwise on an array. It states the relation
  between the results of the two functions.\<close>

definition py_neg :: "pyval \<Rightarrow> pyval" where
  "py_neg v = (case v of PyFloat x \<Rightarrow> PyFloat (fneg x) | Arr a \<Rightarrow> Arr (np_unary fneg a))"

abbreviation three2 :: pyval where
  "three2 \<equiv> Arr (NdArray [2] [Fin 3, Fin 3])"

abbreviation four2 :: pyval where
  "four2 \<equiv> Arr (NdArray [2] [Fin 4, Fin 4])"

abbreviation u510 :: pyval where
  "u510 \<equiv> Arr (NdArray [2] [Fin 5, Fin 10])"

text \<open>The bucket as the specification words it: the candidate nearest to \<open>M\<close> in real
  arithmetic, the smaller one when two are at the same distance.\<close>

definition spec_bucket :: "real \<Rightarrow> double" where
  "spec_bucket m =
     (if \<bar>2 / 1000 - m\<bar> \<le> \<bar>4 / 1000 - m\<bar> \<and> \<bar>2 / 1000 - m\<bar> \<le> \<bar>6 / 1000 - m\<bar> then d_2e3
      else if \<bar>4 / 1000 - m\<bar> \<le> \<bar>6 / 1000 - m\<bar> then d_4e3
      else d_6e3)"

abbreviation big2 :: pyval where
  "big2 \<equiv> Arr (NdArray [2] [Fin (2 ^ 60), Fin (2 ^ 60)])"

section \<open>Facts about broadcasting\<close>

lemma broadcast_rev_Nil2: "broadcast_rev xs [] = Some xs"
  by (cases xs) simp_all

lemma broadcast_shapes_Nil1: "broadcast_shapes [] s = Some s"
  by (simp add: broadcast_shapes_def)

lemma broadcast_shapes_Nil2: "broadcast_shapes s [] = Some s"
  by (simp add: broadcast_shapes_def broadcast_rev_Nil2)

lemma broadcast_rev_same: "broadcast_rev xs xs = Some xs"
  by (induction xs) simp_all

lemma broadcast_shapes_same: "broadcast_shapes s s = Some s"
  by (simp add: broadcast_shapes_def broadcast_rev_same)

lemma np_binary_shape:
  "np_binary f a b = Inr c \<Longrightarrow> broadcast_shapes (shape a) (shape b) = Some (shape c)"
  by (auto simp: np_binary_def split: option.splits)

section \<open>The enhancement factor is the constant 1.0\<close>

text \<open>
  C1. Whatever the values of depth, resolution and exponent (and whatever the elementwise
  power computes), \<^verbatim>\<open>wind_shear_enhancement_factor\<close> returns the scalar 1.0 on valid
  inputs, that is, on shapes that broadcast together: the enhancement factor of the
  formula is computed and dropped.
\<close>

theorem enhancement_factor_is_one:
  assumes "broadcast_shapes (shape (as_array resolution)) (shape depth) = Some s1"
    and "broadcast_shapes s1 (shape (as_array exponent)) = Some s2"
  shows "wind_shear_enhancement_factor pw depth resolution exponent = Inr (Fin 1)"
  using assms
  by (simp add: wind_shear_enhancement_factor_def bind_res_def np_binary_def
      broadcast_shapes_Nil1)

theorem enhancement_factor_is_one_witness:
  "broadcast_shapes (shape (as_array (PyFloat (Fin 200)))) (shape (NdArray [1] [Fin 0]))
      = Some [1]
   \<and> broadcast_shapes [1] (shape (as_array (PyFloat (Fin 2)))) = Some [1]
   \<and> wind_shear_enhancement_factor (\<lambda>x y. NaN) (NdArray [1] [Fin 0]) (PyFloat (Fin 200))
        (PyFloat (Fin 2)) = Inr (Fin 1)"
proof -
  have a: "broadcast_shapes (shape (as_array (PyFloat (Fin 200)))) (shape (NdArray [1] [Fin 0]))
      = Some [1]"
    by (simp add: broadcast_shapes_def)
  have b: "broadcast_shapes [1] (shape (as_array (PyFloat (Fin 2)))) = Some [1]"
    by (simp add: broadcast_shapes_def)
  from enhancement_factor_is_one [OF a b] a b show ?thesis by blast
qed

section \<open>Facts about comparison and the arg-min search\<close>

lemma fge_not_nan: "fge x y \<Longrightarrow> \<not> is_nan x \<and> \<not> is_nan y"
  by (cases x; cases y) (simp_all add: is_nan_def)

lemma fge_refl: "\<not> is_nan x \<Longrightarrow> fge x x"
  by (cases x) (simp_all add: is_nan_def)

lemma fge_total: "\<not> is_nan x \<Longrightarrow> \<not> is_nan y \<Longrightarrow> \<not> fge x y \<Longrightarrow> fge y x"
  by (cases x; cases y) (simp_all add: is_nan_def)

lemma fge_trans: "fge x y \<Longrightarrow> fge y z \<Longrightarrow> fge x z"
  by (cases x; cases y; cases z) simp_all

lemma argmin_loop_keep:
  "\<forall>x\<in>set xs. fge x mp \<Longrightarrow> argmin_loop mp ind i xs = ind"
  by (induction xs arbitrary: i) simp_all

lemma argmin_loop_bound:
  "ind < i \<Longrightarrow> argmin_loop mp ind i xs < i + length xs"
proof (induction xs arbitrary: mp ind i)
  case Nil
  then show ?case by simp
next
  case (Cons x xs)
  then show ?case
    using Cons.IH [of ind "Suc i" mp] Cons.IH [of i "Suc i" x] by auto
qed

lemma running_min_props:
  "\<not> is_nan mp \<Longrightarrow> \<not> list_ex is_nan xs \<Longrightarrow>
   \<not> is_nan (running_min mp xs) \<and> fge mp (running_min mp xs)
   \<and> (\<forall>x\<in>set xs. fge x (running_min mp xs))"
proof (induction xs arbitrary: mp)
  case Nil
  then show ?case by (simp add: running_min_def fge_refl)
next
  case (Cons x xs)
  let ?m = "if \<not> fge x mp then x else mp"
  have nx: "\<not> is_nan x" and nxs: "\<not> list_ex is_nan xs" using Cons.prems by simp_all
  have nm: "\<not> is_nan ?m" using nx Cons.prems(1) by simp
  have rm: "running_min mp (x # xs) = running_min ?m xs" by (simp add: running_min_def)
  from Cons.IH [OF nm nxs] have ih: "\<not> is_nan (running_min ?m xs)"
    "fge ?m (running_min ?m xs)" "\<forall>y\<in>set xs. fge y (running_min ?m xs)" by blast+
  have a: "fge mp ?m" using fge_total [OF Cons.prems(1) nx] fge_refl [OF Cons.prems(1)]
    by (cases "fge x mp") (auto dest: fge_total [OF nx Cons.prems(1)])
  have b: "fge x ?m" using fge_refl [OF nx] by simp
  show ?case unfolding rm using ih a b by (auto intro: fge_trans)
qed

lemma argmin_loop_append:
  "\<not> is_nan mp \<Longrightarrow> argmin_loop mp ind i (xs @ ys) =
     (if list_ex is_nan xs then argmin_loop mp ind i xs
      else argmin_loop (running_min mp xs) (argmin_loop mp ind i xs) (i + length xs) ys)"
proof (induction xs arbitrary: mp ind i)
  case Nil
  then show ?case by (simp add: running_min_def)
next
  case (Cons x xs)
  show ?case
  proof (cases "is_nan x")
    case True
    then have "\<not> fge x mp" using fge_not_nan by blast
    with True show ?thesis by simp
  next
    case False
    then show ?thesis using Cons.IH [of x] Cons.IH [of mp] Cons.prems
      by (simp add: running_min_def)
  qed
qed

text \<open>Searching three copies of a row finds what searching the row finds.\<close>

lemma np_argmin_rows: "np_argmin (xs @ xs @ xs) = np_argmin xs"
proof (cases xs)
  case Nil
  then show ?thesis by simp
next
  case (Cons x ys)
  show ?thesis
  proof (cases "is_nan x \<or> list_ex is_nan ys")
    case True
    then show ?thesis using Cons by (auto simp: np_argmin_def argmin_loop_append)
  next
    case False
    then have nx: "\<not> is_nan x" and nys: "\<not> list_ex is_nan ys" by simp_all
    from running_min_props [OF nx nys]
    have "\<forall>y\<in>set (xs @ xs). fge y (running_min x ys)" using Cons by auto
    then have "argmin_loop (running_min x ys) (argmin_loop x 0 1 ys) (1 + length ys) (xs @ xs)
      = argmin_loop x 0 1 ys" by (rule argmin_loop_keep)
    then show ?thesis using Cons nx nys by (simp add: np_argmin_def argmin_loop_append)
  qed
qed

lemma np_argmin_bound: "xs \<noteq> [] \<Longrightarrow> \<exists>i < length xs. np_argmin xs = Inr i"
proof (cases xs)
  case Nil
  assume "xs \<noteq> []" with Nil show ?thesis by simp
next
  case (Cons x ys)
  have "argmin_loop x 0 1 ys < 1 + length ys" by (rule argmin_loop_bound) simp
  then show ?thesis using Cons by (simp add: np_argmin_def)
qed

lemma shear_distance_rows:
  "concat (shear_distance m) = distance_row m @ distance_row m @ distance_row m"
  by (simp add: shear_distance_def shear_options_def)

lemma choose_shear_eq: "choose_shear m = choose_shear_direct m"
  by (simp add: choose_shear_def choose_shear_direct_def shear_distance_rows np_argmin_rows)

lemma choose_shear_direct_returns:
  "\<exists>i < 3. np_argmin (distance_row m) = Inr i \<and> choose_shear_direct m = Inr (shear_options ! i)"
proof -
  have "distance_row m \<noteq> []" and len: "length (distance_row m) = 3"
    by (simp_all add: distance_row_def shear_options_def)
  from np_argmin_bound [OF this(1)] obtain i where
    i: "i < 3" "np_argmin (distance_row m) = Inr i" using len by auto
  then have "choose_shear_direct m = Inr (shear_options ! i)"
    by (simp add: choose_shear_direct_def bind_res_def getitem_def shear_options_def)
  with i show ?thesis by blast
qed

section \<open>The loop over the candidates is one arg-min\<close>

text \<open>
  C7. For every value of \<^verbatim>\<open>shear_max\<close>, the selection of the source (a 3 by 3 matrix of
  three equal rows \<^verbatim>\<open>|candidates - shear_max|\<close>, the flattened index of its minimum used
  on the list of candidates) yields the candidate that a single arg-min over the one
  distance vector yields; the flattened index never leaves the list.
\<close>

theorem loop_selection_is_single_argmin:
  "choose_shear shear_max = choose_shear_direct shear_max
   \<and> (\<exists>b. choose_shear shear_max = Inr b \<and> b \<in> set shear_options)"
proof -
  have eq: "choose_shear shear_max = choose_shear_direct shear_max"
    by (simp add: choose_shear_def choose_shear_direct_def shear_distance_rows np_argmin_rows)
  from choose_shear_direct_returns [of shear_max] obtain i where
    i: "i < 3" "choose_shear_direct shear_max = Inr (shear_options ! i)" by blast
  have "shear_options ! i \<in> set shear_options"
    using i(1) by (auto simp: shear_options_def less_Suc_eq numeral_3_eq_3)
  with eq i(2) show ?thesis by auto
qed

section \<open>Facts about rounding\<close>


lemma rne_err: "\<bar>of_int (rne x) - x\<bar> \<le> 1 / 2"
proof -
  have "of_int \<lfloor>x\<rfloor> \<le> x" "x < of_int \<lfloor>x\<rfloor> + 1" by linarith+
  then show ?thesis by (auto simp: rne_def Let_def)
qed

lemma rne_ge: "of_int k \<le> x \<Longrightarrow> k \<le> rne x"
proof -
  assume "of_int k \<le> x"
  then have "k \<le> \<lfloor>x\<rfloor>" by (simp add: le_floor_iff)
  then show ?thesis by (auto simp: rne_def Let_def)
qed

lemma rne_le: "x \<le> of_int k \<Longrightarrow> rne x \<le> k"
proof -
  assume a: "x \<le> of_int k"
  have f: "of_int \<lfloor>x\<rfloor> \<le> x" by linarith
  show ?thesis
  proof (cases "x = of_int k")
    case True
    then show ?thesis by (simp add: rne_def Let_def)
  next
    case False
    with a have "x < of_int k" by simp
    then have "\<lfloor>x\<rfloor> < k" by (simp add: floor_less_iff)
    then show ?thesis by (auto simp: rne_def Let_def)
  qed
qed

lemma quantum_pos: "0 < quantum r"
  by (simp add: quantum_def)

lemma round64_not_nan: "round64 r \<noteq> NaN"
  by (simp add: round64_def Let_def)

lemma round64_nonneg:
  assumes "0 \<le> r"
  shows "round64 r = PInf \<or> (\<exists>v\<ge>0. round64 r = Fin v)"
proof (cases "r = 0")
  case True
  then show ?thesis by (simp add: round64_def)
next
  case False
  with assms have "0 < r" by simp
  then have "of_int 0 \<le> r / quantum r" using quantum_pos [of r] by simp
  then have "0 \<le> rne (r / quantum r)" by (rule rne_ge)
  then have "0 \<le> quantum r * of_int (rne (r / quantum r))"
    using quantum_pos [of r] by simp
  with \<open>0 < r\<close> show ?thesis by (auto simp: round64_def Let_def)
qed

lemma round64_nonpos:
  assumes "r \<le> 0"
  shows "round64 r = NInf \<or> (\<exists>v\<le>0. round64 r = Fin v)"
proof (cases "r = 0")
  case True
  then show ?thesis by (simp add: round64_def)
next
  case False
  with assms have "r < 0" by simp
  then have "r / quantum r \<le> of_int 0" using quantum_pos [of r] by (simp add: divide_nonpos_pos)
  then have "rne (r / quantum r) \<le> 0" by (rule rne_le)
  then have "quantum r * of_int (rne (r / quantum r)) \<le> 0"
    using quantum_pos [of r] by (simp add: mult_nonneg_nonpos)
  with \<open>r < 0\<close> show ?thesis by (auto simp: round64_def Let_def)
qed

lemma quantum_normal:
  assumes "2 powr (- 1022) \<le> \<bar>r\<bar>"
  shows "quantum r * 2 ^ 52 \<le> \<bar>r\<bar>"
proof -
  have pos: "0 < \<bar>r\<bar>" using assms by (smt (verit) powr_gt_zero)
  have "- 1022 \<le> log 2 \<bar>r\<bar>" using assms pos by (simp add: le_log_iff)
  then have "(- 1022 :: int) \<le> \<lfloor>log 2 \<bar>r\<bar>\<rfloor>" by (simp add: le_floor_iff)
  then have "max \<lfloor>log 2 \<bar>r\<bar>\<rfloor> (- 1022) = \<lfloor>log 2 \<bar>r\<bar>\<rfloor>" by linarith
  then have q: "quantum r = 2 powr (of_int \<lfloor>log 2 \<bar>r\<bar>\<rfloor> - 52)"
    by (simp only: quantum_def)
  have "2 powr (of_int \<lfloor>log 2 \<bar>r\<bar>\<rfloor>) \<le> 2 powr (log 2 \<bar>r\<bar>)"
    by (simp del: powr_log_cancel)
  also have "\<dots> = \<bar>r\<bar>" using pos by simp
  finally have "2 powr (of_int \<lfloor>log 2 \<bar>r\<bar>\<rfloor>) \<le> \<bar>r\<bar>" .
  moreover have "quantum r * 2 ^ 52 = 2 powr (of_int \<lfloor>log 2 \<bar>r\<bar>\<rfloor>)"
    unfolding q by (simp add: powr_diff)
  ultimately show ?thesis by simp
qed

lemma round64_error:
  assumes lo: "2 powr (- 1022) \<le> \<bar>r\<bar>" and hi: "\<bar>r\<bar> < 2 ^ 1023"
  shows "\<exists>v. round64 r = Fin v \<and> \<bar>v - r\<bar> \<le> \<bar>r\<bar> / 2 ^ 53"
proof -
  define q where "q = quantum r"
  define v where "v = q * of_int (rne (r / q))"
  have qpos: "0 < q" by (simp add: q_def quantum_pos)
  have r0: "r \<noteq> 0" using lo by (smt (verit) powr_gt_zero)
  have "v - r = q * (of_int (rne (r / q)) - r / q)" using qpos by (simp add: v_def algebra_simps)
  then have "\<bar>v - r\<bar> = q * \<bar>of_int (rne (r / q)) - r / q\<bar>" using qpos by (simp add: abs_mult)
  also have "\<dots> \<le> q * (1 / 2)" using rne_err [of "r / q"] qpos by (intro mult_left_mono) simp_all
  finally have e: "\<bar>v - r\<bar> \<le> q / 2" by simp
  have qn: "q * 2 ^ 52 \<le> \<bar>r\<bar>" unfolding q_def using lo by (rule quantum_normal)
  then have "q / 2 \<le> \<bar>r\<bar> / 2 ^ 53" by simp
  with e have err: "\<bar>v - r\<bar> \<le> \<bar>r\<bar> / 2 ^ 53" by simp
  have "\<bar>v\<bar> \<le> \<bar>r\<bar> + \<bar>r\<bar> / 2 ^ 53" using err by linarith
  also have "\<dots> \<le> 2 * \<bar>r\<bar>" by simp
  also have "\<dots> < 2 ^ 1024" using hi by simp
  finally have "\<not> 2 ^ 1024 \<le> \<bar>v\<bar>" by simp
  then have "round64 r = Fin v" using r0 by (simp add: round64_def Let_def v_def q_def)
  with err show ?thesis by blast
qed

lemma round64_overflow:
  assumes "2 ^ 1024 \<le> r"
  shows "round64 r = PInf"
proof -
  have pos: "0 < r" using assms by (smt (verit) zero_less_power)
  have "(2::real) powr 1024 \<le> r" using assms by (simp add: powr_numeral flip: powr_realpow)
  then have "1024 \<le> log 2 r" using pos by (simp add: le_log_iff)
  then have E: "(1024 :: int) \<le> \<lfloor>log 2 \<bar>r\<bar>\<rfloor>" using pos by (simp add: le_floor_iff)
  have "2 powr (- 1022) \<le> (2::real) powr 1024" by (intro powr_mono) auto
  then have lo: "2 powr (- 1022) \<le> \<bar>r\<bar>" using \<open>2 powr 1024 \<le> r\<close> by linarith
  define q where "q = quantum r"
  have qpos: "0 < q" by (simp add: q_def quantum_pos)
  have "max \<lfloor>log 2 \<bar>r\<bar>\<rfloor> (- 1022) = \<lfloor>log 2 \<bar>r\<bar>\<rfloor>" using E by linarith
  then have qe: "q = 2 powr (of_int \<lfloor>log 2 \<bar>r\<bar>\<rfloor> - 52)" by (simp only: q_def quantum_def)
  have "q * 2 ^ 52 \<le> r" using quantum_normal [OF lo] pos by (simp add: q_def)
  then have "of_int (2 ^ 52) \<le> r / q" using qpos by (simp add: pos_le_divide_eq mult.commute)
  then have "2 ^ 52 \<le> rne (r / q)" by (rule rne_ge)
  then have "(2::real) ^ 52 \<le> of_int (rne (r / q))" by (metis of_int_le_iff of_int_numeral of_int_power)
  then have "q * 2 ^ 52 \<le> q * of_int (rne (r / q))" using qpos by simp
  moreover have "q * 2 ^ 52 = 2 powr (of_int \<lfloor>log 2 \<bar>r\<bar>\<rfloor>)" unfolding qe by (simp add: powr_diff)
  moreover have "(1024::real) \<le> of_int \<lfloor>log 2 \<bar>r\<bar>\<rfloor>" using E by linarith
  then have "(2::real) powr 1024 \<le> 2 powr (of_int \<lfloor>log 2 \<bar>r\<bar>\<rfloor>)"
    by (intro powr_mono) auto
  ultimately have "2 powr 1024 \<le> q * of_int (rne (r / q))" by linarith
  then have "2 ^ 1024 \<le> \<bar>q * of_int (rne (r / q))\<bar>" by (simp add: powr_numeral flip: powr_realpow)
  then show ?thesis using pos by (simp add: round64_def Let_def q_def)
qed

section \<open>Facts about stretching and overwriting\<close>


lemma set_chunk_subset: "ys \<in> set (chunks k n xs) \<Longrightarrow> set ys \<subseteq> set xs"
  by (auto simp: chunks_def dest!: in_set_takeD in_set_dropD)

lemma expand_set_subset: "set (expand t s xs) \<subseteq> set xs"
proof (induction t s xs rule: expand.induct)
  case (1 t ts s ss xs)
  show ?case
  proof (cases "s = t")
    case True
    have "set (expand ts ss ys) \<subseteq> set xs" if "ys \<in> set (chunks s (prod_list ss) xs)" for ys
      using "1.IH"(1) [OF True that] set_chunk_subset [OF that] by blast
    then show ?thesis using True by auto
  next
    case False
    then show ?thesis using "1.IH"(2) by (auto simp: set_replicate_conv_if)
  qed
qed simp_all

lemma concat_chunks: "length xs = k * n \<Longrightarrow> concat (chunks k n xs) = xs"
proof (induction k arbitrary: xs)
  case 0
  then show ?case by (simp add: chunks_def)
next
  case (Suc k)
  have "chunks (Suc k) n xs = chunks k n xs @ [take n (drop (k * n) xs)]"
    by (simp add: chunks_def)
  moreover have "take n (drop (i * n) (take (k * n) xs)) = take n (drop (i * n) xs)"
    if "i < k" for i
  proof -
    have "i * n + n \<le> k * n" using that by (metis Suc_leI mult_Suc mult_le_mono1 add.commute)
    then have "n \<le> k * n - i * n" by simp
    then show ?thesis by (simp add: drop_take min_def)
  qed
  then have "chunks k n xs = chunks k n (take (k * n) xs)"
    by (simp add: chunks_def)
  ultimately have "concat (chunks (Suc k) n xs)
      = concat (chunks k n (take (k * n) xs)) @ take n (drop (k * n) xs)" by simp
  also have "concat (chunks k n (take (k * n) xs)) = take (k * n) xs"
    using Suc.prems by (intro Suc.IH) simp
  also have "take n (drop (k * n) xs) = drop (k * n) xs" using Suc.prems by simp
  finally show ?case by simp
qed

lemma length_chunk:
  "length xs = k * n \<Longrightarrow> ys \<in> set (chunks k n xs) \<Longrightarrow> length ys = n"
proof -
  assume l: "length xs = k * n" and "ys \<in> set (chunks k n xs)"
  then obtain i where i: "i < k" "ys = take n (drop (i * n) xs)" by (auto simp: chunks_def)
  have "i * n + n \<le> k * n" using i(1) by (metis Suc_leI mult_Suc mult_le_mono1 add.commute)
  then show ?thesis using i l by simp
qed

lemma expand_same: "length xs = prod_list s \<Longrightarrow> expand s s xs = xs"
proof (induction s arbitrary: xs)
  case Nil
  then show ?case by simp
next
  case (Cons t ts)
  have "expand ts ts ys = ys" if "ys \<in> set (chunks t (prod_list ts) xs)" for ys
    using Cons.IH length_chunk [OF _ that] Cons.prems by simp
  then have "map (expand ts ts) (chunks t (prod_list ts) xs) = chunks t (prod_list ts) xs"
    by (simp add: map_idI)
  then show ?case using Cons.prems by (simp add: concat_chunks)
qed

lemma broadcast_to_same: "wf_array a \<Longrightarrow> broadcast_to (shape a) a = data a"
  by (simp add: broadcast_to_def wf_array_def expand_same)

lemma foldl_np_minimum_const: "\<forall>y\<in>set ys. y = x \<Longrightarrow> foldl np_minimum x ys = x"
  by (induction ys) (simp_all add: np_minimum_def)

lemma np_where_full:
  "np_where (np_full (shape a) True) x a = Inr r \<Longrightarrow>
     shape r = shape a \<and> (\<forall>y\<in>set (data r). y = x)"
proof -
  assume h: "np_where (np_full (shape a) True) x a = Inr r"
  have "set (broadcast_to (shape a) (np_full (shape a) True))
      \<subseteq> set (replicate (prod_list (shape a)) True)"
    by (simp add: broadcast_to_def np_full_def expand_set_subset)
  then have s: "set (broadcast_to (shape a) (np_full (shape a) True)) \<subseteq> {True}"
    by auto
  from h have r: "r = NdArray (shape a) (map2 (\<lambda>m y. if m then x else y)
       (broadcast_to (shape a) (np_full (shape a) True)) (broadcast_to (shape a) a))"
    by (auto simp: np_where_def np_full_def broadcast_shapes_same)
  show ?thesis unfolding r using s by (auto dest!: set_zip_leftD)
qed

lemma np_where_full_wf:
  "wf_array a \<Longrightarrow> np_where (np_full (shape a) True) x a
     = Inr (NdArray (shape a) (replicate (length (data a)) x))"
proof -
  assume w: "wf_array a"
  have m: "broadcast_to (shape a) (np_full (shape a) True) = replicate (prod_list (shape a)) True"
    using broadcast_to_same [of "np_full (shape a) True"] by (simp add: np_full_def wf_array_def)
  have "map2 (\<lambda>m y. if m then x else y) (replicate (length (data a)) True) (data a)
      = replicate (length (data a)) x"
    by (induction "data a" arbitrary: a) (auto simp: map_replicate_trivial intro: nth_equalityI)
  then show ?thesis using w m
    by (simp add: np_where_def np_full_def broadcast_shapes_same broadcast_to_same wf_array_def)
qed

lemma overwrite_float: "overwrite x (PyFloat y) = Inl AttributeError"
  by (simp add: overwrite_def bind_res_def)

lemma overwrite_returns:
  assumes "overwrite x g = Inr (r, ms)"
  shows "\<exists>a. g = Arr a \<and> shape r = shape a \<and> (\<forall>y\<in>set (data r). y = x)
           \<and> data r \<noteq> [] \<and> ms = x"
proof (cases g)
  case (PyFloat y)
  with assms show ?thesis by (simp add: overwrite_float)
next
  case (Arr a)
  from assms Arr obtain r' where w: "np_where (np_full (shape a) True) x a = Inr r'"
    and m: "np_min r' = Inr ms" and rr: "r = r'"
    by (auto simp: overwrite_def bind_res_def Let_def split: sum.splits)
  from np_where_full [OF w] have p: "shape r' = shape a" "\<forall>y\<in>set (data r'). y = x" by simp_all
  from m obtain z zs where d: "data r' = z # zs" and ms: "ms = foldl np_minimum z zs"
    by (auto simp: np_min_def split: list.splits)
  have "z = x" "\<forall>y\<in>set zs. y = x" using p(2) d by simp_all
  then have "ms = x" using ms foldl_np_minimum_const by simp
  with Arr p d rr show ?thesis by simp
qed

lemma overwrite_array:
  assumes "wf_array a" and "data a \<noteq> []"
  shows "overwrite x (Arr a) = Inr (NdArray (shape a) (replicate (length (data a)) x), x)"
proof -
  obtain n where n: "length (data a) = Suc n" using assms(2) by (cases "data a") simp_all
  have "np_min (NdArray (shape a) (replicate (length (data a)) x)) = Inr x"
    by (simp add: np_min_def n foldl_np_minimum_const)
  then show ?thesis using np_where_full_wf [OF assms(1), of x]
    by (simp add: overwrite_def bind_res_def)
qed

section \<open>Facts about elementwise operations\<close>



lemma length_concat_map_const:
  "\<forall>ys\<in>set yss. length (g ys) = m \<Longrightarrow> length (concat (map g yss)) = length yss * m"
  by (induction yss) simp_all

lemma length_concat_replicate: "length (concat (replicate n xs)) = n * length xs"
  by (induction n) simp_all

lemma set_concat_replicate: "0 < n \<Longrightarrow> set (concat (replicate n xs)) = set xs"
  by (cases n) auto

lemma length_chunks: "length (chunks k n xs) = k"
  by (simp add: chunks_def)

lemma expand_length:
  "compat t s \<Longrightarrow> length xs = prod_list s \<Longrightarrow> length (expand t s xs) = prod_list t"
  unfolding compat_def
proof (induction t s arbitrary: xs rule: list_all2_induct)
  case Nil
  then show ?case by simp
next
  case (Cons t ts s ss)
  show ?case
  proof (cases "s = t")
    case True
    have "length (expand ts ss ys) = prod_list ts" if "ys \<in> set (chunks s (prod_list ss) xs)" for ys
      using Cons.IH length_chunk [OF _ that] Cons.prems by simp
    then have "length (concat (map (expand ts ss) (chunks s (prod_list ss) xs)))
        = length (chunks s (prod_list ss) xs) * prod_list ts"
      by (intro length_concat_map_const) simp
    then show ?thesis using True by (simp add: length_chunks)
  next
    case False
    with Cons.hyps have "s = 1" by simp
    then have "length (expand ts ss xs) = prod_list ts" using Cons.IH Cons.prems by simp
    then show ?thesis using False by (simp add: length_concat_replicate)
  qed
qed

lemma expand_surj:
  "compat t s \<Longrightarrow> length xs = prod_list s \<Longrightarrow> 0 < prod_list t \<Longrightarrow>
     set xs \<subseteq> set (expand t s xs)"
  unfolding compat_def
proof (induction t s arbitrary: xs rule: list_all2_induct)
  case Nil
  then show ?case by simp
next
  case (Cons t ts s ss)
  from Cons.prems have pos: "0 < t" "0 < prod_list ts" by simp_all
  show ?case
  proof (cases "s = t")
    case True
    have "set ys \<subseteq> set (expand ts ss ys)" if "ys \<in> set (chunks s (prod_list ss) xs)" for ys
      using Cons.IH length_chunk [OF _ that] Cons.prems pos by simp
    then have "set (concat (chunks s (prod_list ss) xs))
        \<subseteq> set (concat (map (expand ts ss) (chunks s (prod_list ss) xs)))"
      by auto
    then show ?thesis using True Cons.prems by (simp add: concat_chunks)
  next
    case False
    with Cons.hyps have "s = 1" by simp
    then have "set xs \<subseteq> set (expand ts ss xs)" using Cons.IH Cons.prems pos by simp
    then show ?thesis using False pos by (simp add: set_concat_replicate)
  qed
qed

lemma compat_ones: "compat ys (replicate (length ys) (Suc 0))"
  by (simp add: compat_def list_all2_conv_all_nth)

lemma compat_refl: "compat ys ys"
  by (simp add: compat_def list_all2_conv_all_nth)

lemma broadcast_rev_compat:
  "broadcast_rev xs ys = Some zs \<Longrightarrow>
     list_all2 (\<lambda>t s. s = t \<or> s = 1) zs (xs @ replicate (length zs - length xs) 1)
   \<and> list_all2 (\<lambda>t s. s = t \<or> s = 1) zs (ys @ replicate (length zs - length ys) 1)"
proof (induction xs ys arbitrary: zs rule: broadcast_rev.induct)
  case (1 ys)
  then show ?case using compat_ones [of ys] compat_refl [of ys] by (simp add: compat_def)
next
  case (2 x xs)
  then show ?case using compat_ones [of "x # xs"] compat_refl [of "x # xs"]
    by (simp add: compat_def)
next
  case (3 x xs y ys)
  then show ?case by (auto split: if_splits)
qed

lemma broadcast_shapes_compat:
  assumes "broadcast_shapes s t = Some u"
  shows "compat u (replicate (length u - length s) 1 @ s)"
    and "compat u (replicate (length u - length t) 1 @ t)"
proof -
  from assms obtain zs where z: "broadcast_rev (rev s) (rev t) = Some zs" and u: "u = rev zs"
    by (auto simp: broadcast_shapes_def)
  from broadcast_rev_compat [OF z]
  have a: "list_all2 (\<lambda>t s. s = t \<or> s = 1) zs (rev s @ replicate (length zs - length s) 1)"
    and b: "list_all2 (\<lambda>t s. s = t \<or> s = 1) zs (rev t @ replicate (length zs - length t) 1)"
    by simp_all
  have "list_all2 (\<lambda>t s. s = t \<or> s = 1) (rev zs) (rev (rev s @ replicate (length zs - length s) 1))"
    using a by (simp only: list_all2_rev)
  then show "compat u (replicate (length u - length s) 1 @ s)" by (simp add: compat_def u)
  have "list_all2 (\<lambda>t s. s = t \<or> s = 1) (rev zs) (rev (rev t @ replicate (length zs - length t) 1))"
    using b by (simp only: list_all2_rev)
  then show "compat u (replicate (length u - length t) 1 @ t)" by (simp add: compat_def u)
qed

lemma broadcast_to_length:
  "compat u (replicate (length u - length (shape a)) 1 @ shape a) \<Longrightarrow> wf_array a \<Longrightarrow>
     length (broadcast_to u a) = prod_list u"
  by (simp add: broadcast_to_def wf_array_def expand_length)

lemma broadcast_to_surj:
  "compat u (replicate (length u - length (shape a)) 1 @ shape a) \<Longrightarrow> wf_array a \<Longrightarrow>
     0 < prod_list u \<Longrightarrow> set (data a) \<subseteq> set (broadcast_to u a)"
  by (simp add: broadcast_to_def wf_array_def expand_surj)

lemma broadcast_to_subset: "set (broadcast_to u a) \<subseteq> set (data a)"
  by (simp add: broadcast_to_def expand_set_subset)

text \<open>The three facts about an elementwise operation that the proofs use.\<close>

lemma np_binary_wf:
  assumes "np_binary f a b = Inr c" "wf_array a" "wf_array b"
  shows "wf_array c"
proof -
  from assms(1) obtain s where s: "broadcast_shapes (shape a) (shape b) = Some s"
    and c: "c = NdArray s (map2 f (broadcast_to s a) (broadcast_to s b))"
    by (auto simp: np_binary_def split: option.splits)
  show ?thesis unfolding c wf_array_def
    using broadcast_to_length [OF broadcast_shapes_compat(1) [OF s] assms(2)]
      broadcast_to_length [OF broadcast_shapes_compat(2) [OF s] assms(3)] by simp
qed

lemma np_binary_elem:
  assumes "np_binary f a b = Inr c" "z \<in> set (data c)"
  shows "\<exists>x\<in>set (data a). \<exists>y\<in>set (data b). z = f x y"
proof -
  from assms(1) obtain s where
    c: "c = NdArray s (map2 f (broadcast_to s a) (broadcast_to s b))"
    by (auto simp: np_binary_def split: option.splits)
  from assms(2) obtain x y where "(x, y) \<in> set (zip (broadcast_to s a) (broadcast_to s b))"
    "z = f x y" unfolding c by auto
  then have "x \<in> set (data a)" "y \<in> set (data b)" "z = f x y"
    using broadcast_to_subset [of s a] broadcast_to_subset [of s b]
    by (auto dest: set_zip_leftD set_zip_rightD)
  then show ?thesis by blast
qed

lemma np_binary_left:
  assumes "np_binary f a b = Inr c" "wf_array a" "wf_array b" "data c \<noteq> []"
    and "x \<in> set (data a)"
  shows "\<exists>y\<in>set (data b). f x y \<in> set (data c)"
proof -
  from assms(1) obtain s where s: "broadcast_shapes (shape a) (shape b) = Some s"
    and c: "c = NdArray s (map2 f (broadcast_to s a) (broadcast_to s b))"
    by (auto simp: np_binary_def split: option.splits)
  let ?A = "broadcast_to s a" and ?B = "broadcast_to s b"
  have la: "length ?A = prod_list s"
    by (rule broadcast_to_length [OF broadcast_shapes_compat(1) [OF s] assms(2)])
  have lb: "length ?B = prod_list s"
    by (rule broadcast_to_length [OF broadcast_shapes_compat(2) [OF s] assms(3)])
  have pos: "0 < prod_list s" using assms(4) la lb unfolding c by (cases "prod_list s") auto
  have "x \<in> set ?A"
    using broadcast_to_surj [OF broadcast_shapes_compat(1) [OF s] assms(2) pos] assms(5) by blast
  then obtain i where i: "i < length ?A" "?A ! i = x" by (auto simp: in_set_conv_nth)
  then have "(x, ?B ! i) \<in> set (zip ?A ?B)" using la lb by (auto simp: in_set_zip)
  then have "f x (?B ! i) \<in> set (data c)" unfolding c by force
  moreover have "?B ! i \<in> set (data b)"
    using broadcast_to_subset [of s b] i la lb by (metis nth_mem subsetD)
  ultimately show ?thesis by blast
qed

lemma np_binary_right:
  assumes "np_binary f a b = Inr c" "wf_array a" "wf_array b" "data c \<noteq> []"
    and "y \<in> set (data b)"
  shows "\<exists>x\<in>set (data a). f x y \<in> set (data c)"
proof -
  from assms(1) obtain s where s: "broadcast_shapes (shape a) (shape b) = Some s"
    and c: "c = NdArray s (map2 f (broadcast_to s a) (broadcast_to s b))"
    by (auto simp: np_binary_def split: option.splits)
  let ?A = "broadcast_to s a" and ?B = "broadcast_to s b"
  have la: "length ?A = prod_list s"
    by (rule broadcast_to_length [OF broadcast_shapes_compat(1) [OF s] assms(2)])
  have lb: "length ?B = prod_list s"
    by (rule broadcast_to_length [OF broadcast_shapes_compat(2) [OF s] assms(3)])
  have pos: "0 < prod_list s" using assms(4) la lb unfolding c by (cases "prod_list s") auto
  have "y \<in> set ?B"
    using broadcast_to_surj [OF broadcast_shapes_compat(2) [OF s] assms(3) pos] assms(5) by blast
  then obtain i where i: "i < length ?B" "?B ! i = y" by (auto simp: in_set_conv_nth)
  then have "(?A ! i, y) \<in> set (zip ?A ?B)" using la lb by (auto simp: in_set_zip)
  then have "f (?A ! i) y \<in> set (data c)" unfolding c by force
  moreover have "?A ! i \<in> set (data a)"
    using broadcast_to_subset [of s a] i la lb by (metis nth_mem subsetD)
  ultimately show ?thesis by blast
qed

lemma np_binary_nonempty:
  assumes "np_binary f a b = Inr c" "wf_array a" "wf_array b" "data c \<noteq> []"
  shows "data a \<noteq> [] \<and> data b \<noteq> []"
proof -
  from assms(4) obtain z where "z \<in> set (data c)" by (cases "data c") auto
  from np_binary_elem [OF assms(1) this] show ?thesis by auto
qed

section \<open>Facts about the operators and the magnitude\<close>

lemma np_binary_scalars:
  "np_binary f (NdArray [] [a]) (NdArray [] [b]) = Inr (NdArray [] [f a b])"
  by (simp add: np_binary_def broadcast_shapes_def broadcast_to_def)

lemma py_apply_as_array:
  assumes "py_apply pf nf x y = Inr z" and "\<And>a b r. pf a b = Inr r \<Longrightarrow> r = nf a b"
  shows "np_binary nf (as_array x) (as_array y) = Inr (as_array z)"
proof (cases x)
  case (PyFloat a)
  note x = this
  show ?thesis
  proof (cases y)
    case (PyFloat b)
    with x assms(1) obtain r where "pf a b = Inr r" "z = PyFloat r"
      by (cases "pf a b") (auto simp: py_apply_def)
    with assms(2) x PyFloat show ?thesis by (simp add: np_binary_scalars)
  next
    case (Arr b)
    with x assms(1) show ?thesis
      by (cases "np_binary nf (NdArray [] [a]) b") (auto simp: py_apply_def)
  qed
next
  case (Arr a)
  with assms(1) show ?thesis
    by (cases "np_binary nf a (as_array y)") (auto simp: py_apply_def)
qed

lemma py_sub_as_array:
  "py_sub x y = Inr z \<Longrightarrow> np_binary fsub (as_array x) (as_array y) = Inr (as_array z)"
  unfolding py_sub_def by (erule py_apply_as_array) simp

lemma py_add_as_array:
  "py_add x y = Inr z \<Longrightarrow> np_binary fadd (as_array x) (as_array y) = Inr (as_array z)"
  unfolding py_add_def by (erule py_apply_as_array) simp

lemma py_mul_as_array:
  "py_mul x y = Inr z \<Longrightarrow> np_binary fmul (as_array x) (as_array y) = Inr (as_array z)"
  unfolding py_mul_def by (erule py_apply_as_array) simp

lemma py_truediv_as_array:
  "py_truediv x y = Inr z \<Longrightarrow> np_binary fdiv (as_array x) (as_array y) = Inr (as_array z)"
  unfolding py_truediv_def by (erule py_apply_as_array) (simp split: if_splits)

lemma py_pow2_as_array:
  "py_pow2 x = Inr z \<Longrightarrow> as_array z = np_unary (\<lambda>v. fmul v v) (as_array x)"
  by (cases x rule: py_pow2.cases) (auto simp: np_unary_def split: if_splits)

lemma py_pow_half_as_array:
  "py_pow_half x = Inr z \<Longrightarrow> NInf \<notin> elems x \<Longrightarrow> as_array z = np_unary fsqrt (as_array x)"
  by (cases x rule: py_pow_half.cases) (auto simp: np_unary_def elems_def split: if_splits)

lemma np_unary_wf: "wf_array a \<Longrightarrow> wf_array (np_unary f a)"
  by (simp add: wf_array_def np_unary_def)

lemma np_unary_data: "set (data (np_unary f a)) = f ` set (data a)"
  by (simp add: np_unary_def)

lemma nonneg_simps:
  "nonneg (Fin v) = (0 \<le> v)" "nonneg PInf" "\<not> nonneg NInf" "\<not> nonneg NaN"
  by (simp_all add: nonneg_def)

lemma round64_nonneg': "0 \<le> r \<Longrightarrow> nonneg (round64 r)"
  using round64_nonneg [of r] by (auto simp: nonneg_def)

lemma fmul_self_nan: "fmul a a = NaN \<longleftrightarrow> a = NaN"
  by (cases a) (simp_all add: round64_not_nan)

lemma fmul_self_nonneg: "a \<noteq> NaN \<Longrightarrow> nonneg (fmul a a)"
  by (cases a) (simp_all add: round64_nonneg' nonneg_simps)

lemma fadd_nonneg:
  "nonneg a \<Longrightarrow> nonneg b \<Longrightarrow> nonneg (fadd a b)"
  by (cases a; cases b) (simp_all add: nonneg_simps round64_nonneg')

lemma fsqrt_nonneg: "nonneg a \<Longrightarrow> nonneg (fsqrt a)"
  by (cases a) (simp_all add: nonneg_simps round64_nonneg')

lemma nonneg_not_nan: "nonneg a \<Longrightarrow> a \<noteq> NaN \<and> a \<noteq> NInf"
  by (cases a) (simp_all add: nonneg_simps)

lemma hypot2_nan: "hypot2 a b = NaN \<longleftrightarrow> a = NaN \<or> b = NaN"
proof
  assume "a = NaN \<or> b = NaN"
  then show "hypot2 a b = NaN"
    by (cases "fmul a a") (auto simp: hypot2_def)
next
  assume h: "hypot2 a b = NaN"
  show "a = NaN \<or> b = NaN"
  proof (rule ccontr)
    assume "\<not> (a = NaN \<or> b = NaN)"
    then have "nonneg (fmul a a)" "nonneg (fmul b b)" by (simp_all add: fmul_self_nonneg)
    then have "nonneg (hypot2 a b)" unfolding hypot2_def by (intro fsqrt_nonneg fadd_nonneg)
    with h show False by (simp add: nonneg_simps)
  qed
qed

lemma hypot2_nonneg: "a \<noteq> NaN \<Longrightarrow> b \<noteq> NaN \<Longrightarrow> nonneg (hypot2 a b)"
  unfolding hypot2_def by (intro fsqrt_nonneg fadd_nonneg) (simp_all add: fmul_self_nonneg)

lemma fmul_inf_self: "a = PInf \<or> a = NInf \<Longrightarrow> fmul a a = PInf"
  by auto

lemma fadd_PInf_nonneg: "nonneg b \<Longrightarrow> fadd PInf b = PInf \<and> fadd b PInf = PInf"
  by (cases b) (simp_all add: nonneg_simps)

lemma hypot2_inf:
  "a \<noteq> NaN \<Longrightarrow> b \<noteq> NaN \<Longrightarrow> a = PInf \<or> a = NInf \<or> b = PInf \<or> b = NInf \<Longrightarrow>
     hypot2 a b = PInf"
  using fmul_self_nonneg [of a] fmul_self_nonneg [of b]
  by (auto simp: hypot2_def fadd_PInf_nonneg)

section \<open>Facts about the gradients\<close>

lemma wf_val_float: "wf_val (PyFloat x)"
  by (simp add: wf_val_def wf_array_def)

lemma elems_float: "elems (PyFloat x) = {x}"
  by (simp add: elems_def)

lemma bshape_float: "bshape (PyFloat x) = []"
  by (simp add: bshape_def)

text \<open>An elementwise operator of Python, in terms of the elements of its operands.\<close>

lemma binary_val_facts:
  assumes "np_binary f (as_array x) (as_array y) = Inr (as_array z)" "wf_val x" "wf_val y"
  shows "wf_val z"
    and "broadcast_shapes (bshape x) (bshape y) = Some (bshape z)"
    and "\<forall>c\<in>elems z. \<exists>a\<in>elems x. \<exists>b\<in>elems y. c = f a b"
    and "elems z \<noteq> {} \<Longrightarrow> \<forall>a\<in>elems x. \<exists>b\<in>elems y. f a b \<in> elems z"
    and "elems z \<noteq> {} \<Longrightarrow> \<forall>b\<in>elems y. \<exists>a\<in>elems x. f a b \<in> elems z"
proof -
  show "wf_val z" using np_binary_wf [OF assms(1)] assms(2,3) by (simp add: wf_val_def)
  show "broadcast_shapes (bshape x) (bshape y) = Some (bshape z)"
    using np_binary_shape [OF assms(1)] by (simp add: bshape_def)
  show "\<forall>c\<in>elems z. \<exists>a\<in>elems x. \<exists>b\<in>elems y. c = f a b"
    using np_binary_elem [OF assms(1)] by (simp add: elems_def)
  show "\<forall>a\<in>elems x. \<exists>b\<in>elems y. f a b \<in> elems z" if "elems z \<noteq> {}"
    using np_binary_left [OF assms(1)] assms(2,3) that by (simp add: elems_def wf_val_def)
  show "\<forall>b\<in>elems y. \<exists>a\<in>elems x. f a b \<in> elems z" if "elems z \<noteq> {}"
    using np_binary_right [OF assms(1)] assms(2,3) that by (simp add: elems_def wf_val_def)
qed

lemma unary_val_facts:
  assumes "as_array z = np_unary f (as_array x)" "wf_val x"
  shows "wf_val z" and "bshape z = bshape x" and "elems z = f ` elems x"
  using assms by (simp_all add: wf_val_def bshape_def elems_def np_unary_def wf_array_def)

lemma gradients_wf:
  assumes "gradients u1 u2 v1 v2 dz = Inr (du, dv)"
    and "wf_val u1" "wf_val u2" "wf_val v1" "wf_val v2"
  shows "wf_val du \<and> wf_val dv"
proof -
  from assms(1) obtain a b where a: "py_sub u1 u2 = Inr a" and du: "py_truediv a (PyFloat dz) = Inr du"
    and b: "py_sub v1 v2 = Inr b" and dv: "py_truediv b (PyFloat dz) = Inr dv"
    by (auto simp: gradients_def bind_res_def split: sum.splits)
  have "wf_val a" using binary_val_facts(1) [OF py_sub_as_array [OF a]] assms by simp
  then have 1: "wf_val du"
    using binary_val_facts(1) [OF py_truediv_as_array [OF du]] by (simp add: wf_val_float)
  have "wf_val b" using binary_val_facts(1) [OF py_sub_as_array [OF b]] assms by simp
  then have "wf_val dv"
    using binary_val_facts(1) [OF py_truediv_as_array [OF dv]] by (simp add: wf_val_float)
  with 1 show ?thesis by simp
qed

lemma gradients_shape:
  assumes "gradients u1 u2 v1 v2 dz = Inr (du, dv)"
  shows "broadcast_shapes (bshape u1) (bshape u2) = Some (bshape du)
       \<and> broadcast_shapes (bshape v1) (bshape v2) = Some (bshape dv)"
proof -
  from assms(1) obtain a b where a: "py_sub u1 u2 = Inr a" and du: "py_truediv a (PyFloat dz) = Inr du"
    and b: "py_sub v1 v2 = Inr b" and dv: "py_truediv b (PyFloat dz) = Inr dv"
    by (auto simp: gradients_def bind_res_def split: sum.splits)
  have "broadcast_shapes (bshape a) [] = Some (bshape du)"
    using np_binary_shape [OF py_truediv_as_array [OF du]] by (simp add: bshape_def)
  then have 1: "bshape du = bshape a" by (simp add: broadcast_shapes_Nil2)
  have "broadcast_shapes (bshape b) [] = Some (bshape dv)"
    using np_binary_shape [OF py_truediv_as_array [OF dv]] by (simp add: bshape_def)
  then have 2: "bshape dv = bshape b" by (simp add: broadcast_shapes_Nil2)
  show ?thesis
    using np_binary_shape [OF py_sub_as_array [OF a]] np_binary_shape [OF py_sub_as_array [OF b]]
    by (simp add: bshape_def 1 [unfolded bshape_def] 2 [unfolded bshape_def])
qed

lemma magnitude_stages:
  assumes "magnitude du dv = Inr ds"
  shows "\<exists>a b s. as_array a = np_unary (\<lambda>v. fmul v v) (as_array du)
           \<and> as_array b = np_unary (\<lambda>v. fmul v v) (as_array dv)
           \<and> np_binary fadd (as_array a) (as_array b) = Inr (as_array s)
           \<and> as_array ds = np_unary fsqrt (as_array s)"
proof -
  from assms obtain a b s where a: "py_pow2 du = Inr a" and b: "py_pow2 dv = Inr b"
    and s: "py_add a b = Inr s" and d: "py_pow_half s = Inr ds"
    by (auto simp: magnitude_def bind_res_def split: sum.splits)
  note A = py_pow2_as_array [OF a] and B = py_pow2_as_array [OF b] and S = py_add_as_array [OF s]
  have "c \<noteq> NInf" if "c \<in> elems s" for c
  proof -
    from that have "c \<in> set (data (as_array s))" by (simp add: elems_def)
    from np_binary_elem [OF S this] obtain x y where
      x: "x \<in> set (data (as_array a))" and y: "y \<in> set (data (as_array b))" and c: "c = fadd x y"
      by blast
    from x obtain x' where x': "x = fmul x' x'" unfolding A by (auto simp: np_unary_def)
    from y obtain y' where y': "y = fmul y' y'" unfolding B by (auto simp: np_unary_def)
    show ?thesis
    proof (cases "x' = NaN \<or> y' = NaN")
      case True
      then have "c = NaN" unfolding c x' y' by (cases "fmul x' x'") auto
      then show ?thesis by simp
    next
      case False
      then have "nonneg c" unfolding c x' y' by (intro fadd_nonneg fmul_self_nonneg) simp_all
      then show ?thesis using nonneg_not_nan by blast
    qed
  qed
  then have "NInf \<notin> elems s" by blast
  from py_pow_half_as_array [OF d this] A B S show ?thesis by blast
qed

lemma magnitude_facts:
  assumes "magnitude du dv = Inr ds" "wf_val du" "wf_val dv"
  shows "wf_val ds"
    and "broadcast_shapes (bshape du) (bshape dv) = Some (bshape ds)"
    and "\<forall>z\<in>elems ds. \<exists>x\<in>elems du. \<exists>y\<in>elems dv. z = hypot2 x y"
    and "elems ds \<noteq> {} \<Longrightarrow> \<forall>x\<in>elems du. \<exists>y\<in>elems dv. hypot2 x y \<in> elems ds"
    and "elems ds \<noteq> {} \<Longrightarrow> \<forall>y\<in>elems dv. \<exists>x\<in>elems du. hypot2 x y \<in> elems ds"
proof -
  from magnitude_stages [OF assms(1)] obtain a b s where
    A: "as_array a = np_unary (\<lambda>v. fmul v v) (as_array du)"
    and B: "as_array b = np_unary (\<lambda>v. fmul v v) (as_array dv)"
    and S: "np_binary fadd (as_array a) (as_array b) = Inr (as_array s)"
    and D: "as_array ds = np_unary fsqrt (as_array s)" by blast
  note fa = unary_val_facts [OF A assms(2)] and fb = unary_val_facts [OF B assms(3)]
  note fs = binary_val_facts [OF S fa(1) fb(1)]
  note fd = unary_val_facts [OF D fs(1)]
  show "wf_val ds" by (rule fd(1))
  show "broadcast_shapes (bshape du) (bshape dv) = Some (bshape ds)"
    using fs(2) by (simp add: fa(2) fb(2) fd(2))
  show "\<forall>z\<in>elems ds. \<exists>x\<in>elems du. \<exists>y\<in>elems dv. z = hypot2 x y"
    using fs(3) unfolding fd(3) fa(3) fb(3) hypot2_def by fastforce
  have ne: "elems s \<noteq> {}" if "elems ds \<noteq> {}" using that unfolding fd(3) by simp
  show "\<forall>x\<in>elems du. \<exists>y\<in>elems dv. hypot2 x y \<in> elems ds" if "elems ds \<noteq> {}"
    using fs(4) [OF ne [OF that]] unfolding fd(3) fa(3) fb(3) hypot2_def by fastforce
  show "\<forall>y\<in>elems dv. \<exists>x\<in>elems du. hypot2 x y \<in> elems ds" if "elems ds \<noteq> {}"
    using fs(5) [OF ne [OF that]] unfolding fd(3) fa(3) fb(3) hypot2_def by fastforce
qed

lemma normal_gradient_facts:
  assumes "normal_gradient du dv ca sa = Inr dsn" "wf_val du" "wf_val dv" "wf_val ca" "wf_val sa"
  shows "wf_val dsn"
    and "\<forall>z\<in>elems dsn. \<exists>x\<in>elems du. \<exists>y\<in>elems dv. \<exists>c\<in>elems ca. \<exists>s\<in>elems sa.
           z = fsub (fmul y c) (fmul x s)"
    and "elems dsn \<noteq> {} \<Longrightarrow> \<forall>x\<in>elems du. \<exists>p. \<exists>s\<in>elems sa. fsub p (fmul x s) \<in> elems dsn"
    and "elems dsn \<noteq> {} \<Longrightarrow> \<forall>y\<in>elems dv. \<exists>q. \<exists>c\<in>elems ca. fsub (fmul y c) q \<in> elems dsn"
proof -
  from assms(1) obtain a b where a: "py_mul dv ca = Inr a" and b: "py_mul du sa = Inr b"
    and d: "py_sub a b = Inr dsn"
    by (auto simp: normal_gradient_def bind_res_def split: sum.splits)
  note fa = binary_val_facts [OF py_mul_as_array [OF a] assms(3,4)]
  note fb = binary_val_facts [OF py_mul_as_array [OF b] assms(2,5)]
  note fd = binary_val_facts [OF py_sub_as_array [OF d] fa(1) fb(1)]
  show "wf_val dsn" by (rule fd(1))
  show "\<forall>z\<in>elems dsn. \<exists>x\<in>elems du. \<exists>y\<in>elems dv. \<exists>c\<in>elems ca. \<exists>s\<in>elems sa.
           z = fsub (fmul y c) (fmul x s)"
    using fd(3) fa(3) fb(3) by metis
  show "\<forall>x\<in>elems du. \<exists>p. \<exists>s\<in>elems sa. fsub p (fmul x s) \<in> elems dsn" if ne: "elems dsn \<noteq> {}"
  proof
    fix x assume x: "x \<in> elems du"
    from fd(3) ne have "elems b \<noteq> {}" by fastforce
    from fb(4) [OF this] x obtain s where s: "s \<in> elems sa" "fmul x s \<in> elems b" by blast
    from fd(5) [OF ne] s(2) obtain p where "fsub p (fmul x s) \<in> elems dsn" by blast
    with s(1) show "\<exists>p. \<exists>s\<in>elems sa. fsub p (fmul x s) \<in> elems dsn" by blast
  qed
  show "\<forall>y\<in>elems dv. \<exists>q. \<exists>c\<in>elems ca. fsub (fmul y c) q \<in> elems dsn" if ne: "elems dsn \<noteq> {}"
  proof
    fix y assume y: "y \<in> elems dv"
    from fd(3) ne have "elems a \<noteq> {}" by fastforce
    from fa(4) [OF this] y obtain c where c: "c \<in> elems ca" "fmul y c \<in> elems a" by blast
    from fd(4) [OF ne] c(2) obtain q where "q \<in> elems b" "fsub (fmul y c) q \<in> elems dsn" by blast
    with c(1) show "\<exists>q. \<exists>c\<in>elems ca. fsub (fmul y c) q \<in> elems dsn" by blast
  qed
qed

lemma normal_gradient_shape:
  assumes "normal_gradient du dv ca sa = Inr dsn"
  shows "\<exists>sc ss. broadcast_shapes (bshape dv) (bshape ca) = Some sc
           \<and> broadcast_shapes (bshape du) (bshape sa) = Some ss
           \<and> broadcast_shapes sc ss = Some (bshape dsn)"
proof -
  from assms(1) obtain a b where a: "py_mul dv ca = Inr a" and b: "py_mul du sa = Inr b"
    and d: "py_sub a b = Inr dsn"
    by (auto simp: normal_gradient_def bind_res_def split: sum.splits)
  show ?thesis
    using np_binary_shape [OF py_mul_as_array [OF a]] np_binary_shape [OF py_mul_as_array [OF b]]
      np_binary_shape [OF py_sub_as_array [OF d]] by (simp add: bshape_def)
qed

lemma fsub_nan: "fsub x NaN = NaN" "fsub NaN y = NaN"
  by (cases x) (simp_all add: fsub_def)

lemma fmul_nan: "fmul x NaN = NaN" "fmul NaN y = NaN"
  by (cases x) simp_all

text \<open>A NaN of the magnitude is a NaN of a gradient, hence of the normal gradient.\<close>

lemma nan_magnitude_nan_normal:
  assumes "magnitude du dv = Inr ds" "normal_gradient du dv ca sa = Inr dsn"
    and "wf_val du" "wf_val dv" "wf_val ca" "wf_val sa"
    and "NaN \<in> elems ds" "elems dsn \<noteq> {}"
  shows "NaN \<in> elems dsn"
proof -
  from magnitude_facts(3) [OF assms(1,3,4)] assms(7) obtain x y where
    xy: "x \<in> elems du" "y \<in> elems dv" "hypot2 x y = NaN" by metis
  then consider "x = NaN" | "y = NaN" using hypot2_nan by blast
  then show ?thesis
  proof cases
    case 1
    from normal_gradient_facts(3) [OF assms(2-6) assms(8)] xy(1) 1
    obtain p s where "fsub p (fmul NaN s) \<in> elems dsn" by blast
    then show ?thesis by (simp add: fsub_nan)
  next
    case 2
    from normal_gradient_facts(4) [OF assms(2-6) assms(8)] xy(2) 2
    obtain q c where "fsub (fmul NaN c) q \<in> elems dsn" by blast
    then show ?thesis by (simp add: fsub_nan)
  qed
qed

section \<open>Facts about the candidates and their distances\<close>

lemma tiny_quantum: "(2::real) powr (- 1075) \<le> 1 / 10 ^ 30"
proof -
  have "(2::real) powr (- 1075) \<le> 2 powr (- 100)" by (intro powr_mono) auto
  also have "\<dots> = 1 / 2 ^ 100" by (simp add: powr_minus_divide powr_numeral)
  also have "\<dots> \<le> 1 / 10 ^ 30" by simp
  finally show ?thesis .
qed

lemma quantum_subnormal:
  assumes "r \<noteq> 0" "\<bar>r\<bar> < 2 powr (- 1022)"
  shows "quantum r = 2 powr (- 1074)"
proof -
  have "log 2 \<bar>r\<bar> < - 1022" using assms by (simp add: log_less_iff)
  then have "\<lfloor>log 2 \<bar>r\<bar>\<rfloor> < - 1022" by (simp add: floor_less_iff)
  then have "max \<lfloor>log 2 \<bar>r\<bar>\<rfloor> (- 1022) = - 1022" by linarith
  then show ?thesis by (simp add: quantum_def)
qed

text \<open>Rounding moves a result by a relative \<open>10\<^sup>-\<^sup>1\<^sup>5\<close> at most, or by next to nothing.\<close>

lemma round64_close:
  assumes "\<bar>r\<bar> < 2 ^ 1023"
  shows "\<exists>v. round64 r = Fin v
    \<and> \<bar>v - r\<bar> \<le> \<bar>r\<bar> / 10 ^ 15 + 1 / 10 ^ 30"
proof (cases "2 powr (- 1022) \<le> \<bar>r\<bar>")
  case True
  from round64_error [OF True assms] obtain v where
    v: "round64 r = Fin v" "\<bar>v - r\<bar> \<le> \<bar>r\<bar> / 2 ^ 53" by blast
  have "\<bar>r\<bar> / 2 ^ 53 \<le> \<bar>r\<bar> / 10 ^ 15" by (intro divide_left_mono) simp_all
  with v(2) have "\<bar>v - r\<bar> \<le> \<bar>r\<bar> / 10 ^ 15" by (rule order_trans)
  moreover have "(0::real) \<le> 1 / 10 ^ 30" by simp
  ultimately have "\<bar>v - r\<bar> \<le> \<bar>r\<bar> / 10 ^ 15 + 1 / 10 ^ 30" by (rule add_increasing2 [rotated])
  with v(1) show ?thesis by blast
next
  case False
  show ?thesis
  proof (cases "r = 0")
    case True
    then show ?thesis by (simp add: round64_def)
  next
    case r0: False
    define q where "q = quantum r"
    define v where "v = q * of_int (rne (r / q))"
    have q: "q = 2 powr (- 1074)" unfolding q_def using r0 False by (intro quantum_subnormal) simp_all
    have qpos: "0 < q" by (simp add: q)
    have "v - r = q * (of_int (rne (r / q)) - r / q)" using qpos by (simp add: v_def algebra_simps)
    then have "\<bar>v - r\<bar> = q * \<bar>of_int (rne (r / q)) - r / q\<bar>" using qpos by (simp add: abs_mult)
    also have "\<dots> \<le> q * (1 / 2)" using rne_err [of "r / q"] qpos by (intro mult_left_mono) simp_all
    also have "\<dots> = 2 powr (- 1075)" unfolding q by (simp add: powr_diff [of 2 "- 1074" 1, simplified])
    finally have e: "\<bar>v - r\<bar> \<le> 2 powr (- 1075)" .
    then have err: "\<bar>v - r\<bar> \<le> 1 / 10 ^ 30" using tiny_quantum by linarith
    have "\<bar>v\<bar> \<le> \<bar>r\<bar> + 1 / 10 ^ 30" using err by linarith
    also have "\<dots> < 2 ^ 1023 + 1" using assms by simp
    also have "\<dots> \<le> (2::real) ^ 1024" by simp
    finally have "\<not> 2 ^ 1024 \<le> \<bar>v\<bar>" by simp
    then have "round64 r = Fin v" using r0 by (simp add: round64_def Let_def v_def q_def)
    moreover have "(0::real) \<le> \<bar>r\<bar> / 10 ^ 15" by simp
    then have "\<bar>v - r\<bar> \<le> \<bar>r\<bar> / 10 ^ 15 + 1 / 10 ^ 30" using err
      by (rule add_increasing)
    ultimately show ?thesis by blast
  qed
qed

lemma round64_close_small:
  assumes "\<bar>r\<bar> \<le> 1000000"
  shows "\<exists>v. round64 r = Fin v \<and> \<bar>v - r\<bar> \<le> 1 / 100000000"
proof -
  have "(1000000::real) < 2 ^ 1023" by simp
  with assms have "\<bar>r\<bar> < 2 ^ 1023" by linarith
  from round64_close [OF this] obtain v where
    v: "round64 r = Fin v"
    "\<bar>v - r\<bar> \<le> \<bar>r\<bar> / 10 ^ 15 + 1 / 10 ^ 30" by blast
  have "\<bar>r\<bar> / 10 ^ 15 \<le> 1000000 / 10 ^ 15" using assms by (intro divide_right_mono) simp_all
  then have "\<bar>v - r\<bar> \<le> 1 / 100000000" using v(2) by simp
  with v(1) show ?thesis by blast
qed

text \<open>The three candidates are finite and lie where their literals say.\<close>

lemma shear_option_values:
  "\<exists>v2 v4 v6. d_2e3 = Fin v2 \<and> d_4e3 = Fin v4 \<and> d_6e3 = Fin v6
     \<and> \<bar>v2 - 2 / 1000\<bar> \<le> 1 / 100000000
       \<and> \<bar>v4 - 4 / 1000\<bar> \<le> 1 / 100000000
     \<and> \<bar>v6 - 6 / 1000\<bar> \<le> 1 / 100000000"
proof -
  obtain v2 where "round64 (2 / 1000) = Fin v2" "\<bar>v2 - 2 / 1000\<bar> \<le> 1 / 100000000"
    using round64_close_small [of "2 / 1000"] by auto
  moreover obtain v4 where "round64 (4 / 1000) = Fin v4"
  "\<bar>v4 - 4 / 1000\<bar> \<le> 1 / 100000000"
    using round64_close_small [of "4 / 1000"] by auto
  moreover obtain v6 where "round64 (6 / 1000) = Fin v6"
  "\<bar>v6 - 6 / 1000\<bar> \<le> 1 / 100000000"
    using round64_close_small [of "6 / 1000"] by auto
  ultimately show ?thesis unfolding d_2e3_def d_4e3_def d_6e3_def by blast
qed

lemma distance_entry:
  assumes "\<bar>v\<bar> \<le> 1" "\<bar>x\<bar> \<le> 100000"
  shows "\<exists>w. fabs (fsub (Fin v) (Fin x)) = Fin w
           \<and> \<bar>v - x\<bar> - 1 / 100000000 \<le> w
             \<and> w \<le> \<bar>v - x\<bar> + 1 / 100000000"
proof -
  have "\<bar>v + - x\<bar> \<le> 1000000" using assms by linarith
  from round64_close_small [OF this] obtain u where
    u: "round64 (v + - x) = Fin u" "\<bar>u - (v + - x)\<bar> \<le> 1 / 100000000" by blast
  have "fabs (fsub (Fin v) (Fin x)) = Fin \<bar>u\<bar>" using u(1) by (simp add: fsub_def)
  moreover have "\<bar>v - x\<bar> - 1 / 100000000 \<le> \<bar>u\<bar>"
  "\<bar>u\<bar> \<le> \<bar>v - x\<bar> + 1 / 100000000"
    using u(2) by linarith+
  ultimately show ?thesis by blast
qed

lemma np_argmin_three:
  "np_argmin [Fin a, Fin b, Fin c]
     = Inr (if b < a then (if c < b then 2 else 1) else if c < a then 2 else 0)"
  by (simp add: np_argmin_def is_nan_def not_le)

lemma distance_row_finite:
  assumes "\<bar>x\<bar> \<le> 100000"
  shows "\<exists>v2 v4 v6 a b c. d_2e3 = Fin v2 \<and> d_4e3 = Fin v4 \<and> d_6e3 = Fin v6
     \<and> \<bar>v2 - 2 / 1000\<bar> \<le> 1 / 100000000
       \<and> \<bar>v4 - 4 / 1000\<bar> \<le> 1 / 100000000
     \<and> \<bar>v6 - 6 / 1000\<bar> \<le> 1 / 100000000
     \<and> distance_row (Fin x) = [Fin a, Fin b, Fin c]
     \<and> \<bar>v2 - x\<bar> - 1 / 100000000 \<le> a
       \<and> a \<le> \<bar>v2 - x\<bar> + 1 / 100000000
         \<and> \<bar>v4 - x\<bar> - 1 / 100000000 \<le> b
           \<and> b \<le> \<bar>v4 - x\<bar> + 1 / 100000000
     \<and> \<bar>v6 - x\<bar> - 1 / 100000000 \<le> c
       \<and> c \<le> \<bar>v6 - x\<bar> + 1 / 100000000"
proof -
  from shear_option_values obtain v2 v4 v6 where
    d: "d_2e3 = Fin v2" "d_4e3 = Fin v4" "d_6e3 = Fin v6"
    and v: "\<bar>v2 - 2 / 1000\<bar> \<le> 1 / 100000000"
    "\<bar>v4 - 4 / 1000\<bar> \<le> 1 / 100000000"
      "\<bar>v6 - 6 / 1000\<bar> \<le> 1 / 100000000" by blast
  have s: "\<bar>v2\<bar> \<le> 1" "\<bar>v4\<bar> \<le> 1"
  "\<bar>v6\<bar> \<le> 1" using v by linarith+
  from distance_entry [OF s(1) assms] obtain a where
    a: "fabs (fsub (Fin v2) (Fin x)) = Fin a" "\<bar>v2 - x\<bar> - 1 / 100000000 \<le> a
      \<and> a \<le> \<bar>v2 - x\<bar> + 1 / 100000000" by blast
  from distance_entry [OF s(2) assms] obtain b where
    b: "fabs (fsub (Fin v4) (Fin x)) = Fin b" "\<bar>v4 - x\<bar> - 1 / 100000000 \<le> b
      \<and> b \<le> \<bar>v4 - x\<bar> + 1 / 100000000" by blast
  from distance_entry [OF s(3) assms] obtain c where
    c: "fabs (fsub (Fin v6) (Fin x)) = Fin c" "\<bar>v6 - x\<bar> - 1 / 100000000 \<le> c
      \<and> c \<le> \<bar>v6 - x\<bar> + 1 / 100000000" by blast
  have "distance_row (Fin x) = [Fin a, Fin b, Fin c]"
    by (simp add: distance_row_def shear_options_def d a(1) b(1) c(1))
  with d v a(2) b(2) c(2) show ?thesis by blast
qed

lemma choose_shear_low:
  assumes "0 \<le> x" "x \<le> 29 / 10000"
  shows "choose_shear (Fin x) = Inr d_2e3"
proof -
  have "\<bar>x\<bar> \<le> 100000" using assms by linarith
  from distance_row_finite [OF this] obtain v2 v4 v6 a b c where
    v: "\<bar>v2 - 2 / 1000\<bar> \<le> 1 / 100000000"
    "\<bar>v4 - 4 / 1000\<bar> \<le> 1 / 100000000"
      "\<bar>v6 - 6 / 1000\<bar> \<le> 1 / 100000000"
    and r: "distance_row (Fin x) = [Fin a, Fin b, Fin c]"
    and e: "\<bar>v2 - x\<bar> - 1 / 100000000 \<le> a
      \<and> a \<le> \<bar>v2 - x\<bar> + 1 / 100000000"
      "\<bar>v4 - x\<bar> - 1 / 100000000 \<le> b \<and> b \<le> \<bar>v4 - x\<bar> + 1 / 100000000"
      "\<bar>v6 - x\<bar> - 1 / 100000000 \<le> c
        \<and> c \<le> \<bar>v6 - x\<bar> + 1 / 100000000" by blast
  have "a \<le> b" using v(1,2) e(1,2) assms by linarith
  moreover have "a \<le> c" using v(1,3) e(1,3) assms by linarith
  ultimately have "np_argmin (distance_row (Fin x)) = Inr 0"
    unfolding r np_argmin_three by simp
  then show ?thesis
    by (simp add: choose_shear_eq choose_shear_direct_def bind_res_def getitem_def
        shear_options_def)
qed

lemma choose_shear_high:
  assumes "51 / 10000 \<le> x" "x \<le> 100000"
  shows "choose_shear (Fin x) = Inr d_6e3"
proof -
  have "\<bar>x\<bar> \<le> 100000" using assms by linarith
  from distance_row_finite [OF this] obtain v2 v4 v6 a b c where
    v: "\<bar>v2 - 2 / 1000\<bar> \<le> 1 / 100000000"
    "\<bar>v4 - 4 / 1000\<bar> \<le> 1 / 100000000"
      "\<bar>v6 - 6 / 1000\<bar> \<le> 1 / 100000000"
    and r: "distance_row (Fin x) = [Fin a, Fin b, Fin c]"
    and e: "\<bar>v2 - x\<bar> - 1 / 100000000 \<le> a
      \<and> a \<le> \<bar>v2 - x\<bar> + 1 / 100000000"
      "\<bar>v4 - x\<bar> - 1 / 100000000 \<le> b \<and> b \<le> \<bar>v4 - x\<bar> + 1 / 100000000"
      "\<bar>v6 - x\<bar> - 1 / 100000000 \<le> c
        \<and> c \<le> \<bar>v6 - x\<bar> + 1 / 100000000" by blast
  have "b < a" using v(1,2) e(1,2) assms by linarith
  moreover have "c < b" using v(2,3) e(2,3) assms by linarith
  ultimately have "np_argmin (distance_row (Fin x)) = Inr 2"
    unfolding r np_argmin_three by simp
  then show ?thesis
    by (simp add: choose_shear_eq choose_shear_direct_def bind_res_def getitem_def
        shear_options_def)
qed

lemma choose_shear_nan: "choose_shear NaN = Inr d_2e3"
  by (simp add: choose_shear_eq choose_shear_direct_def distance_row_def shear_options_def
      fsub_nan np_argmin_def is_nan_def bind_res_def getitem_def)

lemma choose_shear_inf: "choose_shear PInf = Inr d_2e3"
proof -
  from shear_option_values obtain v2 v4 v6 where
    d: "d_2e3 = Fin v2" "d_4e3 = Fin v4" "d_6e3 = Fin v6" by blast
  have "distance_row PInf = [PInf, PInf, PInf]"
    by (simp add: distance_row_def shear_options_def d fsub_def)
  then have "np_argmin (distance_row PInf) = Inr 0" by (simp add: np_argmin_def is_nan_def)
  then show ?thesis
    by (simp add: choose_shear_eq choose_shear_direct_def bind_res_def getitem_def
        shear_options_def)
qed

section \<open>Facts about the maximum and the two functions\<close>

lemma foldl_np_maximum_nan: "foldl np_maximum NaN xs = NaN"
  by (induction xs) (simp_all add: np_maximum_def is_nan_def)

lemma foldl_np_maximum_has_nan:
  "NaN \<in> set (x # xs) \<Longrightarrow> foldl np_maximum x xs = NaN"
proof (induction xs arbitrary: x)
  case Nil
  then show ?case by simp
next
  case (Cons y ys)
  show ?case
  proof (cases "x = NaN")
    case True
    have "np_maximum NaN y = NaN" by (simp add: np_maximum_def is_nan_def)
    with True show ?thesis by (simp add: foldl_np_maximum_nan)
  next
    case False
    show ?thesis
    proof (cases "y = NaN")
      case True
      then have "np_maximum x y = NaN" using False by (cases x) (simp_all add: np_maximum_def is_nan_def)
      then show ?thesis by (simp add: foldl_np_maximum_nan)
    next
      case ny: False
      then have "NaN \<in> set (np_maximum x y # ys)" using Cons.prems False by simp
      then show ?thesis using Cons.IH by simp
    qed
  qed
qed

lemma foldl_np_maximum_max:
  "NaN \<notin> set (x # xs) \<Longrightarrow>
     foldl np_maximum x xs \<in> set (x # xs) \<and> (\<forall>y\<in>set (x # xs). fge (foldl np_maximum x xs) y)"
proof (induction xs arbitrary: x)
  case Nil
  then show ?case using fge_refl [of x] by (simp add: is_nan_def)
next
  case (Cons y ys)
  let ?m = "np_maximum x y"
  have nx: "\<not> is_nan x" and ny: "\<not> is_nan y" using Cons.prems by (auto simp: is_nan_def)
  have m: "?m = x \<or> ?m = y" by (simp add: np_maximum_def)
  have gx: "fge ?m x" and gy: "fge ?m y"
    using fge_refl [OF nx] fge_refl [OF ny] fge_total [OF nx ny]
    by (auto simp: np_maximum_def nx)
  have "NaN \<notin> set (?m # ys)" using Cons.prems m by auto
  from Cons.IH [OF this] have ih: "foldl np_maximum ?m ys \<in> set (?m # ys)"
    "\<forall>z\<in>set (?m # ys). fge (foldl np_maximum ?m ys) z" by simp_all
  have "fge (foldl np_maximum ?m ys) ?m" using ih(2) by simp
  then have "fge (foldl np_maximum ?m ys) x" "fge (foldl np_maximum ?m ys) y"
    using gx gy fge_trans by blast+
  then show ?case using ih m by auto
qed

lemma np_max_nan: "NaN \<in> elems v \<Longrightarrow> np_max v = Inr NaN"
  by (cases "data (as_array v)") (simp_all add: elems_def np_max_def foldl_np_maximum_has_nan)

lemma np_max_empty: "np_max v = Inl e \<longleftrightarrow> elems v = {} \<and> e = ValueError"
  by (cases "data (as_array v)") (auto simp: elems_def np_max_def)

lemma np_max_max:
  assumes "np_max v = Inr m" "NaN \<notin> elems v"
  shows "m \<in> elems v \<and> (\<forall>x\<in>elems v. fge m x)"
proof (cases "data (as_array v)")
  case Nil
  with assms(1) show ?thesis by (simp add: np_max_def)
next
  case (Cons x xs)
  with assms(1) have m: "m = foldl np_maximum x xs" by (simp add: np_max_def)
  have "NaN \<notin> set (x # xs)" using assms(2) Cons by (simp add: elems_def)
  from foldl_np_maximum_max [OF this] show ?thesis unfolding m elems_def Cons by simp
qed

lemma np_max_inf:
  assumes "PInf \<in> elems v" "NaN \<notin> elems v"
  shows "np_max v = Inr PInf"
proof -
  from assms(1) obtain m where m: "np_max v = Inr m"
    by (cases "np_max v") (auto simp: np_max_empty)
  from np_max_max [OF m assms(2)] assms(1) have "fge m PInf" by blast
  then have "m = PInf" by (cases m) simp_all
  with m show ?thesis by simp
qed

lemma np_max_float: "np_max (PyFloat x) = Inr x"
  by (simp add: np_max_def)

lemma np_isnan_any_elems: "np_isnan_any v \<longleftrightarrow> NaN \<in> elems v"
  by (auto simp: np_isnan_any_def elems_def list_ex_iff is_nan_def)

lemma choose_shear_total:
  "\<exists>c. choose_shear m = Inr c \<and> choose_shear_direct m = Inr c \<and> c \<in> set shear_options"
proof -
  from choose_shear_direct_returns [of m] obtain i where
    i: "i < 3" "choose_shear_direct m = Inr (shear_options ! i)" by blast
  have "shear_options ! i \<in> set shear_options"
    using i(1) by (auto simp: shear_options_def less_Suc_eq numeral_3_eq_3)
  with i(2) show ?thesis by (simp add: choose_shear_eq)
qed

lemma choose_shear_bucket: "choose_shear m = Inr (chosen_bucket False m)"
  using choose_shear_total [of m] by (auto simp: chosen_bucket_def)

lemma chosen_bucket_options: "chosen_bucket n m \<in> set shear_options"
  using choose_shear_total [of m] by (auto simp: chosen_bucket_def shear_options_def)

lemma chosen_bucket_positive: "\<exists>v > 0. chosen_bucket n m = Fin v"
proof -
  from shear_option_values obtain v2 v4 v6 where
    d: "d_2e3 = Fin v2" "d_4e3 = Fin v4" "d_6e3 = Fin v6"
    and v: "\<bar>v2 - 2 / 1000\<bar> \<le> 1 / 100000000" "\<bar>v4 - 4 / 1000\<bar> \<le> 1 / 100000000"
      "\<bar>v6 - 6 / 1000\<bar> \<le> 1 / 100000000" by blast
  have "0 < v2" "0 < v4" "0 < v6" using v by linarith+
  then show ?thesis using chosen_bucket_options [of n m] d by (auto simp: shear_options_def)
qed

text \<open>The two functions, once the gradients, the magnitude and its maximum are there.\<close>

lemma wind_shear_run:
  assumes "gradients u1 u2 v1 v2 dz = Inr (du, dv)" "magnitude du dv = Inr ds"
    and "np_max ds = Inr m"
  shows "wind_shear u1 u2 v1 v2 dz =
     (case overwrite (chosen_bucket (np_isnan_any ds) m) ds of
        Inl e \<Rightarrow> ([], Inl e)
      | Inr (r, min_shear) \<Rightarrow>
          (if chosen_bucket (np_isnan_any ds) m \<noteq> d_2e3 \<or> np_isnan_any ds
           then [Shear_line min_shear] else [], Inr (Arr r)))"
proof (cases "np_isnan_any ds")
  case True
  then have cb: "chosen_bucket (np_isnan_any ds) m = d_2e3" by (simp add: chosen_bucket_def)
  show ?thesis unfolding cb using True assms choose_shear_bucket [of m]
    by (simp add: wind_shear_def bind_res_def Let_def)
next
  case False
  then have cb: "chosen_bucket (np_isnan_any ds) m = chosen_bucket False m" by simp
  show ?thesis unfolding cb using False assms choose_shear_bucket [of m]
    by (simp add: wind_shear_def bind_res_def Let_def)
qed

lemma wind_shear_normal_run:
  assumes "gradients u1 u2 v1 v2 dz = Inr (du, dv)"
    and "normal_gradient du dv ca sa = Inr dsn" "magnitude du dv = Inr ds"
    and "np_max ds = Inr m"
  shows "wind_shear_normal u1 u2 v1 v2 ca sa dz =
     (case overwrite (fneg (chosen_bucket (np_isnan_any dsn) m)) dsn of
        Inl e \<Rightarrow> (if np_isnan_any dsn then [Removed_NaN] else [], Inl e)
      | Inr (r, min_shear) \<Rightarrow>
          ((if np_isnan_any dsn then [Removed_NaN] else []) @
           (if chosen_bucket (np_isnan_any dsn) m \<noteq> d_2e3 \<or> np_isnan_any dsn
            then [Normal_shear_line min_shear] else []), Inr (Arr r)))"
proof (cases "np_isnan_any dsn")
  case True
  then have cb: "chosen_bucket (np_isnan_any dsn) m = d_2e3" by (simp add: chosen_bucket_def)
  show ?thesis unfolding cb using True assms choose_shear_bucket [of m]
    by (simp add: wind_shear_normal_def bind_res_def Let_def)
next
  case False
  then have cb: "chosen_bucket (np_isnan_any dsn) m = chosen_bucket False m" by simp
  show ?thesis unfolding cb using False assms choose_shear_bucket [of m]
    by (simp add: wind_shear_normal_def bind_res_def Let_def)
qed

lemma wind_shear_returns:
  assumes "snd (wind_shear u1 u2 v1 v2 dz) = Inr r"
  shows "\<exists>du dv ds m a ms. gradients u1 u2 v1 v2 dz = Inr (du, dv)
           \<and> magnitude du dv = Inr ds \<and> np_max ds = Inr m
           \<and> overwrite (chosen_bucket (np_isnan_any ds) m) ds = Inr (a, ms) \<and> r = Arr a"
proof -
  from assms obtain du dv where g: "gradients u1 u2 v1 v2 dz = Inr (du, dv)"
    by (cases "gradients u1 u2 v1 v2 dz") (auto simp: wind_shear_def bind_res_def)
  from assms g obtain ds where mg: "magnitude du dv = Inr ds"
    by (cases "magnitude du dv") (auto simp: wind_shear_def bind_res_def)
  from assms g mg obtain m where mx: "np_max ds = Inr m"
    by (cases "np_max ds") (auto simp: wind_shear_def bind_res_def)
  from assms obtain a ms where
    "overwrite (chosen_bucket (np_isnan_any ds) m) ds = Inr (a, ms)" "r = Arr a"
    unfolding wind_shear_run [OF g mg mx]
    by (cases "overwrite (chosen_bucket (np_isnan_any ds) m) ds") auto
  with g mg mx show ?thesis by blast
qed

lemma wind_shear_normal_returns:
  assumes "snd (wind_shear_normal u1 u2 v1 v2 ca sa dz) = Inr r"
  shows "\<exists>du dv dsn ds m a ms. gradients u1 u2 v1 v2 dz = Inr (du, dv)
           \<and> normal_gradient du dv ca sa = Inr dsn
           \<and> magnitude du dv = Inr ds \<and> np_max ds = Inr m
           \<and> overwrite (fneg (chosen_bucket (np_isnan_any dsn) m)) dsn = Inr (a, ms)
           \<and> r = Arr a"
proof -
  from assms obtain du dv where g: "gradients u1 u2 v1 v2 dz = Inr (du, dv)"
    by (cases "gradients u1 u2 v1 v2 dz") (auto simp: wind_shear_normal_def bind_res_def)
  from assms g obtain dsn where n: "normal_gradient du dv ca sa = Inr dsn"
    by (cases "normal_gradient du dv ca sa") (auto simp: wind_shear_normal_def bind_res_def)
  from assms g n obtain ds where mg: "magnitude du dv = Inr ds"
    by (cases "magnitude du dv") (auto simp: wind_shear_normal_def bind_res_def)
  from assms g n mg obtain m where mx: "np_max ds = Inr m"
    by (cases "np_max ds") (auto simp: wind_shear_normal_def bind_res_def)
  from assms obtain a ms where
    "overwrite (fneg (chosen_bucket (np_isnan_any dsn) m)) dsn = Inr (a, ms)" "r = Arr a"
    unfolding wind_shear_normal_run [OF g n mg mx]
    by (cases "overwrite (fneg (chosen_bucket (np_isnan_any dsn) m)) dsn") auto
  with g n mg mx show ?thesis by blast
qed

section \<open>Facts about shapes and about plain Python floats\<close>

lemmas array_eval =
  np_binary_def broadcast_shapes_def broadcast_to_def chunks_def np_unary_def
  py_apply_def py_sub_def py_add_def py_mul_def py_truediv_def
  gradients_def magnitude_def normal_gradient_def bind_res_def
  numeral_2_eq_2 fsub_def round64_def

lemma broadcast_rev_commute: "broadcast_rev xs ys = broadcast_rev ys xs"
proof (induction xs ys rule: broadcast_rev.induct)
  case (1 ys)
  then show ?case by (simp add: broadcast_rev_Nil2)
next
  case (2 x xs)
  then show ?case by simp
next
  case (3 x xs y ys)
  then show ?case by auto
qed

lemma broadcast_shapes_commute: "broadcast_shapes s t = broadcast_shapes t s"
  by (simp add: broadcast_shapes_def broadcast_rev_commute)

lemma broadcast_rev_pos:
  "broadcast_rev xs ys = Some zs \<Longrightarrow> 0 < prod_list xs \<Longrightarrow> 0 < prod_list ys \<Longrightarrow>
     0 < prod_list zs"
proof (induction xs ys arbitrary: zs rule: broadcast_rev.induct)
  case (1 ys)
  then show ?case by simp
next
  case (2 x xs)
  then show ?case by simp
next
  case (3 x xs y ys)
  then show ?case by (auto split: if_splits)
qed

lemma broadcast_shapes_pos:
  assumes "broadcast_shapes s t = Some u" "0 < prod_list s" "0 < prod_list t"
  shows "0 < prod_list u"
proof -
  from assms(1) obtain zs where z: "broadcast_rev (rev s) (rev t) = Some zs" and u: "u = rev zs"
    by (auto simp: broadcast_shapes_def)
  have "0 < prod_list (rev s)" "0 < prod_list (rev t)" using assms(2,3) by (simp_all add: prod_list.rev)
  from broadcast_rev_pos [OF z this] show ?thesis by (simp add: u prod_list.rev)
qed

lemma nonempty_iff_pos: "wf_val v \<Longrightarrow> elems v \<noteq> {} \<longleftrightarrow> 0 < prod_list (bshape v)"
proof -
  assume "wf_val v"
  then have "length (data (as_array v)) = prod_list (bshape v)"
    by (simp add: wf_val_def wf_array_def bshape_def)
  moreover have "elems v \<noteq> {} \<longleftrightarrow> 0 < length (data (as_array v))"
    by (simp add: elems_def)
  ultimately show ?thesis by simp
qed

lemma magnitude_nonempty:
  assumes "magnitude du dv = Inr ds" "wf_val du" "wf_val dv" "elems du \<noteq> {}" "elems dv \<noteq> {}"
  shows "elems ds \<noteq> {}"
proof -
  note f = magnitude_facts [OF assms(1-3)]
  have "0 < prod_list (bshape ds)"
    using broadcast_shapes_pos [OF f(2)] assms(4,5) nonempty_iff_pos [OF assms(2)]
      nonempty_iff_pos [OF assms(3)] by simp
  then show ?thesis using nonempty_iff_pos [OF f(1)] by simp
qed

text \<open>On plain Python floats every stage yields a plain Python float.\<close>

lemma py_apply_floats:
  "py_apply pf nf (PyFloat a) (PyFloat b) = Inr z \<Longrightarrow> \<exists>r. z = PyFloat r"
  by (cases "pf a b") (auto simp: py_apply_def)

lemma gradients_floats:
  assumes "gradients (PyFloat a) (PyFloat b) (PyFloat c) (PyFloat d) dz = Inr (du, dv)"
  shows "\<exists>x y. du = PyFloat x \<and> dv = PyFloat y"
proof -
  from assms obtain p q where p: "py_sub (PyFloat a) (PyFloat b) = Inr p"
    and du: "py_truediv p (PyFloat dz) = Inr du"
    and q: "py_sub (PyFloat c) (PyFloat d) = Inr q" and dv: "py_truediv q (PyFloat dz) = Inr dv"
    by (auto simp: gradients_def bind_res_def split: sum.splits)
  from p obtain p' where "p = PyFloat p'" unfolding py_sub_def by (auto dest: py_apply_floats)
  with du obtain x where x: "du = PyFloat x" unfolding py_truediv_def by (auto dest: py_apply_floats)
  from q obtain q' where "q = PyFloat q'" unfolding py_sub_def by (auto dest: py_apply_floats)
  with dv obtain y where "dv = PyFloat y" unfolding py_truediv_def by (auto dest: py_apply_floats)
  with x show ?thesis by blast
qed

lemma py_pow2_float: "py_pow2 (PyFloat x) = Inr z \<Longrightarrow> \<exists>r. z = PyFloat r"
  by (cases x) (auto split: if_splits)

lemma py_pow_half_float: "py_pow_half (PyFloat x) = Inr z \<Longrightarrow> \<exists>r. z = PyFloat r"
  by (cases x) (auto split: if_splits)

lemma magnitude_floats:
  assumes "magnitude (PyFloat x) (PyFloat y) = Inr ds"
  shows "\<exists>z. ds = PyFloat z"
proof -
  from assms obtain a b s where a: "py_pow2 (PyFloat x) = Inr a" and b: "py_pow2 (PyFloat y) = Inr b"
    and s: "py_add a b = Inr s" and d: "py_pow_half s = Inr ds"
    by (auto simp: magnitude_def bind_res_def split: sum.splits)
  from a obtain a' where "a = PyFloat a'" by (auto dest: py_pow2_float)
  moreover from b obtain b' where "b = PyFloat b'" by (auto dest: py_pow2_float)
  ultimately have "\<exists>a' b'. a = PyFloat a' \<and> b = PyFloat b'" by blast
  then obtain a' b' where "a = PyFloat a'" "b = PyFloat b'" by blast
  with s obtain s' where "s = PyFloat s'" unfolding py_add_def by (auto dest: py_apply_floats)
  with d show ?thesis by (auto dest: py_pow_half_float)
qed

lemma normal_gradient_floats:
  assumes "normal_gradient (PyFloat x) (PyFloat y) (PyFloat c) (PyFloat s) = Inr dsn"
  shows "\<exists>z. dsn = PyFloat z"
proof -
  from assms obtain a b where a: "py_mul (PyFloat y) (PyFloat c) = Inr a"
    and b: "py_mul (PyFloat x) (PyFloat s) = Inr b" and d: "py_sub a b = Inr dsn"
    by (auto simp: normal_gradient_def bind_res_def split: sum.splits)
  from a obtain a' where "a = PyFloat a'" unfolding py_mul_def by (auto dest: py_apply_floats)
  moreover from b obtain b' where "b = PyFloat b'" unfolding py_mul_def
    by (auto dest: py_apply_floats)
  ultimately have "\<exists>a' b'. a = PyFloat a' \<and> b = PyFloat b'" by blast
  then obtain a' b' where "a = PyFloat a'" "b = PyFloat b'" by blast
  with d show ?thesis unfolding py_sub_def by (auto dest: py_apply_floats)
qed

text \<open>The errors that the stages can raise on plain Python floats.\<close>

lemma gradients_floats_error:
  "gradients (PyFloat a) (PyFloat b) (PyFloat c) (PyFloat d) dz = Inl e \<Longrightarrow>
     e = ZeroDivisionError \<and> dz = Fin 0"
  by (auto simp: gradients_def bind_res_def py_sub_def py_truediv_def py_apply_def
      split: sum.splits if_splits)

lemma magnitude_floats_error:
  "magnitude (PyFloat x) (PyFloat y) = Inl e \<Longrightarrow> e = OverflowError"
proof -
  assume h: "magnitude (PyFloat x) (PyFloat y) = Inl e"
  show ?thesis
  proof (cases "py_pow2 (PyFloat x)")
    case (Inl e1)
    then have "e1 = OverflowError" by (cases x) (auto split: if_splits)
    with h Inl show ?thesis by (simp add: magnitude_def bind_res_def)
  next
    case (Inr a)
    then obtain a' where a: "a = PyFloat a'" "a' = fmul x x"
      by (cases x) (auto split: if_splits)
    show ?thesis
    proof (cases "py_pow2 (PyFloat y)")
      case (Inl e2)
      then have "e2 = OverflowError" by (cases y) (auto split: if_splits)
      with h Inr Inl show ?thesis by (simp add: magnitude_def bind_res_def)
    next
      case b: (Inr b)
      then obtain b' where b': "b = PyFloat b'" "b' = fmul y y"
        by (cases y) (auto split: if_splits)
      have s: "py_add a b = Inr (PyFloat (fadd a' b'))"
        by (simp add: a b' py_add_def py_apply_def)
      have "fadd a' b' = NaN \<or> nonneg (fadd a' b')"
      proof (cases "x = NaN \<or> y = NaN")
        case True
        then show ?thesis unfolding a b' by (cases "fmul x x") auto
      next
        case False
        then show ?thesis unfolding a b' by (intro disjI2 fadd_nonneg fmul_self_nonneg) simp_all
      qed
      then have "\<exists>z. py_pow_half (PyFloat (fadd a' b')) = Inr z"
        by (cases "fadd a' b'") (auto simp: nonneg_simps)
      with h Inr b s show ?thesis by (auto simp: magnitude_def bind_res_def)
    qed
  qed
qed

lemma normal_gradient_floats_total:
  "\<exists>z. normal_gradient (PyFloat x) (PyFloat y) (PyFloat c) (PyFloat s) = Inr (PyFloat z)"
  by (simp add: normal_gradient_def bind_res_def py_mul_def py_sub_def py_apply_def)

section \<open>Evaluation at a still wind\<close>

lemma gradients_zero2: "gradients zero2 zero2 zero2 zero2 (Fin 1) = Inr (zero2, zero2)"
  by (simp add: array_eval)

lemma gradients_zero2_dz0: "gradients zero2 zero2 zero2 zero2 (Fin 0) = Inr (nan2, nan2)"
  by (simp add: array_eval)

lemma magnitude_zero2: "magnitude zero2 zero2 = Inr zero2"
  by (simp add: array_eval)

lemma magnitude_nan2: "magnitude nan2 nan2 = Inr nan2"
  by (simp add: array_eval)

lemma normal_gradient_zero2:
  "normal_gradient zero2 zero2 (PyFloat (Fin 1)) (PyFloat (Fin 0)) = Inr zero2"
  by (simp add: array_eval)

lemma normal_gradient_nan2:
  "normal_gradient nan2 nan2 (PyFloat (Fin 1)) (PyFloat (Fin 0)) = Inr nan2"
  by (simp add: array_eval)

lemma np_max_zero2: "np_max zero2 = Inr (Fin 0)"
  by (simp add: np_max_def np_maximum_def)

lemma np_max_nan2: "np_max nan2 = Inr NaN"
  by (simp add: np_max_def np_maximum_def is_nan_def)

lemma chosen_bucket_zero: "chosen_bucket False (Fin 0) = d_2e3"
  using choose_shear_low [of 0] choose_shear_bucket [of "Fin 0"] by simp

lemma overwrite_two:
  "overwrite x (Arr (NdArray [2] [a, b])) = Inr (NdArray [2] [x, x], x)"
  using overwrite_array [of "NdArray [2] [a, b]" x]
  by (simp add: wf_array_def numeral_2_eq_2)

lemma wind_shear_zero2:
  "wind_shear zero2 zero2 zero2 zero2 (Fin 1) = ([], Inr (Arr (NdArray [2] [d_2e3, d_2e3])))"
  unfolding wind_shear_run [OF gradients_zero2 magnitude_zero2 np_max_zero2]
  by (simp add: np_isnan_any_def is_nan_def chosen_bucket_zero overwrite_two)

lemma wind_shear_normal_zero2:
  "wind_shear_normal zero2 zero2 zero2 zero2 (PyFloat (Fin 1)) (PyFloat (Fin 0)) (Fin 1)
     = ([], Inr (Arr (NdArray [2] [fneg d_2e3, fneg d_2e3])))"
  unfolding wind_shear_normal_run
    [OF gradients_zero2 normal_gradient_zero2 magnitude_zero2 np_max_zero2]
  by (simp add: np_isnan_any_def is_nan_def chosen_bucket_zero overwrite_two)

section \<open>Every element is the one chosen bucket\<close>

text \<open>
  C2. Whenever \<^verbatim>\<open>wind_shear\<close> returns, every element of its result is the chosen bucket,
  and whenever \<^verbatim>\<open>wind_shear_normal\<close> returns, every element of its result is the
  negative of the chosen bucket. The bucket is a function of two things only: the NaN flag of
  the governing array and the maximum \<open>m\<close> of the magnitude array. It is one of the three
  candidates, a positive number.
\<close>

theorem output_is_constant_bucket:
  "(snd (wind_shear u1 u2 v1 v2 dz) = Inr r \<longrightarrow>
      (\<exists>du dv ds m a. gradients u1 u2 v1 v2 dz = Inr (du, dv) \<and> magnitude du dv = Inr ds
         \<and> np_max ds = Inr m \<and> r = Arr a \<and> data a \<noteq> []
         \<and> (\<forall>x\<in>set (data a). x = chosen_bucket (np_isnan_any ds) m)))
   \<and> (snd (wind_shear_normal u1 u2 v1 v2 ca sa dz) = Inr r' \<longrightarrow>
      (\<exists>du dv dsn ds m a. gradients u1 u2 v1 v2 dz = Inr (du, dv)
         \<and> normal_gradient du dv ca sa = Inr dsn \<and> magnitude du dv = Inr ds
         \<and> np_max ds = Inr m \<and> r' = Arr a \<and> data a \<noteq> []
         \<and> (\<forall>x\<in>set (data a). x = fneg (chosen_bucket (np_isnan_any dsn) m))))
   \<and> chosen_bucket n m' \<in> set shear_options \<and> (\<exists>v>0. chosen_bucket n m' = Fin v)"
proof (intro conjI impI)
  assume "snd (wind_shear u1 u2 v1 v2 dz) = Inr r"
  from wind_shear_returns [OF this] obtain du dv ds m a ms where
    s: "gradients u1 u2 v1 v2 dz = Inr (du, dv)" "magnitude du dv = Inr ds" "np_max ds = Inr m"
    and o: "overwrite (chosen_bucket (np_isnan_any ds) m) ds = Inr (a, ms)" and r: "r = Arr a"
    by blast
  from overwrite_returns [OF o] have "data a \<noteq> []"
    "\<forall>x\<in>set (data a). x = chosen_bucket (np_isnan_any ds) m" by auto
  with s r show "\<exists>du dv ds m a. gradients u1 u2 v1 v2 dz = Inr (du, dv)
      \<and> magnitude du dv = Inr ds \<and> np_max ds = Inr m \<and> r = Arr a \<and> data a \<noteq> []
      \<and> (\<forall>x\<in>set (data a). x = chosen_bucket (np_isnan_any ds) m)" by blast
next
  assume "snd (wind_shear_normal u1 u2 v1 v2 ca sa dz) = Inr r'"
  from wind_shear_normal_returns [OF this] obtain du dv dsn ds m a ms where
    s: "gradients u1 u2 v1 v2 dz = Inr (du, dv)" "normal_gradient du dv ca sa = Inr dsn"
      "magnitude du dv = Inr ds" "np_max ds = Inr m"
    and o: "overwrite (fneg (chosen_bucket (np_isnan_any dsn) m)) dsn = Inr (a, ms)"
    and r: "r' = Arr a" by blast
  from overwrite_returns [OF o] have "data a \<noteq> []"
    "\<forall>x\<in>set (data a). x = fneg (chosen_bucket (np_isnan_any dsn) m)" by auto
  with s r show "\<exists>du dv dsn ds m a. gradients u1 u2 v1 v2 dz = Inr (du, dv)
      \<and> normal_gradient du dv ca sa = Inr dsn \<and> magnitude du dv = Inr ds
      \<and> np_max ds = Inr m \<and> r' = Arr a \<and> data a \<noteq> []
      \<and> (\<forall>x\<in>set (data a). x = fneg (chosen_bucket (np_isnan_any dsn) m))" by blast
next
  show "chosen_bucket n m' \<in> set shear_options" by (rule chosen_bucket_options)
  show "\<exists>v>0. chosen_bucket n m' = Fin v" by (rule chosen_bucket_positive)
qed

theorem output_is_constant_bucket_witness:
  "snd (wind_shear zero2 zero2 zero2 zero2 (Fin 1)) = Inr (Arr (NdArray [2] [d_2e3, d_2e3]))
   \<and> snd (wind_shear_normal zero2 zero2 zero2 zero2 (PyFloat (Fin 1)) (PyFloat (Fin 0)) (Fin 1))
       = Inr (Arr (NdArray [2] [fneg d_2e3, fneg d_2e3]))
   \<and> (\<exists>du dv ds m a. gradients zero2 zero2 zero2 zero2 (Fin 1) = Inr (du, dv)
         \<and> magnitude du dv = Inr ds \<and> np_max ds = Inr m
         \<and> Arr (NdArray [2] [d_2e3, d_2e3]) = Arr a \<and> data a \<noteq> []
         \<and> (\<forall>x\<in>set (data a). x = chosen_bucket (np_isnan_any ds) m))
   \<and> (\<exists>du dv dsn ds m a. gradients zero2 zero2 zero2 zero2 (Fin 1) = Inr (du, dv)
         \<and> normal_gradient du dv (PyFloat (Fin 1)) (PyFloat (Fin 0)) = Inr dsn
         \<and> magnitude du dv = Inr ds \<and> np_max ds = Inr m
         \<and> Arr (NdArray [2] [fneg d_2e3, fneg d_2e3]) = Arr a \<and> data a \<noteq> []
         \<and> (\<forall>x\<in>set (data a). x = fneg (chosen_bucket (np_isnan_any dsn) m)))"
proof -
  have a: "snd (wind_shear zero2 zero2 zero2 zero2 (Fin 1))
      = Inr (Arr (NdArray [2] [d_2e3, d_2e3]))"
    by (simp add: wind_shear_zero2)
  have b: "snd (wind_shear_normal zero2 zero2 zero2 zero2 (PyFloat (Fin 1)) (PyFloat (Fin 0))
      (Fin 1)) = Inr (Arr (NdArray [2] [fneg d_2e3, fneg d_2e3]))"
    by (simp add: wind_shear_normal_zero2)
  note t = output_is_constant_bucket [of zero2 zero2 zero2 zero2 "Fin 1"
      "Arr (NdArray [2] [d_2e3, d_2e3])" "PyFloat (Fin 1)" "PyFloat (Fin 0)"
      "Arr (NdArray [2] [fneg d_2e3, fneg d_2e3])"]
  from t a b show ?thesis by blast
qed

lemma magnitude_shape:
  assumes "magnitude du dv = Inr ds"
  shows "broadcast_shapes (bshape du) (bshape dv) = Some (bshape ds)"
proof -
  from magnitude_stages [OF assms] obtain a b s where
    A: "as_array a = np_unary (\<lambda>v. fmul v v) (as_array du)"
    and B: "as_array b = np_unary (\<lambda>v. fmul v v) (as_array dv)"
    and S: "np_binary fadd (as_array a) (as_array b) = Inr (as_array s)"
    and D: "as_array ds = np_unary fsqrt (as_array s)" by blast
  from np_binary_shape [OF S] show ?thesis by (simp add: bshape_def A B D np_unary_def)
qed

lemma overwrite_shape: "overwrite x g = Inr (a, ms) \<Longrightarrow> shape a = bshape g"
  by (auto simp: bshape_def dest: overwrite_returns)

lemma magnitude_floats_overflow:
  assumes "magnitude (PyFloat x) (PyFloat y) = Inl e"
  shows "(\<exists>a. x = Fin a \<and> fmul x x = PInf) \<or> (\<exists>b. y = Fin b \<and> fmul y y = PInf)"
proof (rule ccontr)
  assume n: "\<not> ?thesis"
  have px: "py_pow2 (PyFloat x) = Inr (PyFloat (fmul x x))" using n by (cases x) auto
  have py: "py_pow2 (PyFloat y) = Inr (PyFloat (fmul y y))" using n by (cases y) auto
  have s: "py_add (PyFloat (fmul x x)) (PyFloat (fmul y y))
      = Inr (PyFloat (fadd (fmul x x) (fmul y y)))"
    by (simp add: py_add_def py_apply_def)
  have "fadd (fmul x x) (fmul y y) = NaN \<or> nonneg (fadd (fmul x x) (fmul y y))"
  proof (cases "x = NaN \<or> y = NaN")
    case True
    then show ?thesis by (cases "fmul x x") auto
  next
    case False
    then show ?thesis by (intro disjI2 fadd_nonneg fmul_self_nonneg) simp_all
  qed
  then have "\<exists>z. py_pow_half (PyFloat (fadd (fmul x x) (fmul y y))) = Inr z"
    by (cases "fadd (fmul x x) (fmul y y)") (auto simp: nonneg_simps)
  with assms px py s show False by (auto simp: magnitude_def bind_res_def)
qed

section \<open>A NaN forces the lowest bucket\<close>

text \<open>
  C4. Once the gradients and the magnitude are computed: if the magnitude array of
  \<^verbatim>\<open>wind_shear\<close> holds a NaN, the function returns the array of that shape filled with
  0.002, and if the normal gradient array of \<^verbatim>\<open>wind_shear_normal\<close> holds a NaN, the
  function returns the array of that shape filled with -0.002; no exception is raised, and
  the value is finite. The diagnostic lines are written.
\<close>

theorem nan_forces_lowest_bucket:
  assumes "wf_val u1" "wf_val u2" "wf_val v1" "wf_val v2" "wf_val ca" "wf_val sa"
    and "gradients u1 u2 v1 v2 dz = Inr (du, dv)" and "magnitude du dv = Inr ds"
  shows "(ds = Arr a \<and> NaN \<in> set (data a) \<longrightarrow>
            wind_shear u1 u2 v1 v2 dz =
              ([Shear_line d_2e3],
               Inr (Arr (NdArray (shape a) (replicate (length (data a)) d_2e3)))))
       \<and> (normal_gradient du dv ca sa = Inr (Arr b) \<and> NaN \<in> set (data b) \<longrightarrow>
            wind_shear_normal u1 u2 v1 v2 ca sa dz =
              ([Removed_NaN, Normal_shear_line (fneg d_2e3)],
               Inr (Arr (NdArray (shape b) (replicate (length (data b)) (fneg d_2e3))))))
       \<and> (\<exists>v>0. d_2e3 = Fin v \<and> fneg d_2e3 = Fin (- v))"
proof (intro conjI impI)
  from gradients_wf [OF assms(7) assms(1-4)] have w: "wf_val du" "wf_val dv" by simp_all
  note mf = magnitude_facts [OF assms(8) w]
  {
    assume h: "ds = Arr a \<and> NaN \<in> set (data a)"
    then have nan: "NaN \<in> elems ds" by (simp add: elems_def)
    have wa: "wf_array a" "data a \<noteq> []" using mf(1) h by (auto simp: wf_val_def)
    have cb: "chosen_bucket (np_isnan_any ds) NaN = d_2e3" "np_isnan_any ds"
      using nan by (simp_all add: np_isnan_any_elems chosen_bucket_def)
    show "wind_shear u1 u2 v1 v2 dz =
        ([Shear_line d_2e3], Inr (Arr (NdArray (shape a) (replicate (length (data a)) d_2e3))))"
      unfolding wind_shear_run [OF assms(7,8) np_max_nan [OF nan]] cb(1)
      using h cb(2) overwrite_array [OF wa, of d_2e3] by simp
  }
  {
    assume h: "normal_gradient du dv ca sa = Inr (Arr b) \<and> NaN \<in> set (data b)"
    then have n: "normal_gradient du dv ca sa = Inr (Arr b)" and nan: "NaN \<in> elems (Arr b)"
      by (simp_all add: elems_def)
    note nf = normal_gradient_facts [OF n w assms(5,6)]
    have wb: "wf_array b" "data b \<noteq> []" using nf(1) h by (auto simp: wf_val_def)
    from nf(2) nan have "elems du \<noteq> {}" "elems dv \<noteq> {}" by blast+
    from magnitude_nonempty [OF assms(8) w this] obtain m where m: "np_max ds = Inr m"
      by (cases "np_max ds") (auto simp: np_max_empty)
    have cb: "chosen_bucket (np_isnan_any (Arr b)) m = d_2e3" "np_isnan_any (Arr b)"
      using nan by (simp_all add: np_isnan_any_elems chosen_bucket_def)
    show "wind_shear_normal u1 u2 v1 v2 ca sa dz =
        ([Removed_NaN, Normal_shear_line (fneg d_2e3)],
         Inr (Arr (NdArray (shape b) (replicate (length (data b)) (fneg d_2e3)))))"
      unfolding wind_shear_normal_run [OF assms(7) n assms(8) m] cb(1)
      using cb(2) overwrite_array [OF wb, of "fneg d_2e3"] by simp
  }
  from chosen_bucket_positive [of True NaN] obtain v where v: "0 < v" "d_2e3 = Fin v"
    by (auto simp: chosen_bucket_def)
  have "fneg d_2e3 = Fin (- v)" unfolding v(2) by simp
  with v show "\<exists>v>0. d_2e3 = Fin v \<and> fneg d_2e3 = Fin (- v)" by blast
qed

theorem nan_forces_lowest_bucket_witness:
  "wf_val zero2 \<and> wf_val (PyFloat (Fin 1)) \<and> wf_val (PyFloat (Fin 0))
   \<and> gradients zero2 zero2 zero2 zero2 (Fin 0) = Inr (nan2, nan2)
   \<and> magnitude nan2 nan2 = Inr nan2
   \<and> normal_gradient nan2 nan2 (PyFloat (Fin 1)) (PyFloat (Fin 0)) = Inr nan2
   \<and> NaN \<in> set (data (NdArray [2] [NaN, NaN]))
   \<and> wind_shear zero2 zero2 zero2 zero2 (Fin 0)
       = ([Shear_line d_2e3], Inr (Arr (NdArray [2] [d_2e3, d_2e3])))
   \<and> wind_shear_normal zero2 zero2 zero2 zero2 (PyFloat (Fin 1)) (PyFloat (Fin 0)) (Fin 0)
       = ([Removed_NaN, Normal_shear_line (fneg d_2e3)],
          Inr (Arr (NdArray [2] [fneg d_2e3, fneg d_2e3])))"
proof -
  have w: "wf_val zero2" "wf_val (PyFloat (Fin 1))" "wf_val (PyFloat (Fin 0))"
    by (simp_all add: wf_val_def wf_array_def)
  have n: "NaN \<in> set (data (NdArray [2] [NaN, NaN]))" by simp
  note t = nan_forces_lowest_bucket [OF w(1) w(1) w(1) w(1) w(2) w(3) gradients_zero2_dz0
      magnitude_nan2, of "NdArray [2] [NaN, NaN]" "NdArray [2] [NaN, NaN]"]
  from t n normal_gradient_nan2 have
    "wind_shear zero2 zero2 zero2 zero2 (Fin 0)
       = ([Shear_line d_2e3], Inr (Arr (NdArray [2] [d_2e3, d_2e3])))"
    "wind_shear_normal zero2 zero2 zero2 zero2 (PyFloat (Fin 1)) (PyFloat (Fin 0)) (Fin 0)
       = ([Removed_NaN, Normal_shear_line (fneg d_2e3)],
          Inr (Arr (NdArray [2] [fneg d_2e3, fneg d_2e3])))"
    by (simp_all add: numeral_2_eq_2)
  with w n gradients_zero2_dz0 magnitude_nan2 normal_gradient_nan2 show ?thesis by simp
qed

section \<open>The shape of the result\<close>

text \<open>
  C5, as the code has it. The result of \<^verbatim>\<open>wind_shear\<close> has the shape that its four wind
  arguments broadcast to. The result of \<^verbatim>\<open>wind_shear_normal\<close> has the shape of
  \<^verbatim>\<open>dsn_dz\<close>, the one that the four wind arguments broadcast to together with
  \<^verbatim>\<open>cos_a\<close> and \<^verbatim>\<open>sin_a\<close>; when both of these are scalars it is the shape of the winds.
\<close>

theorem result_shape_is_broadcast_shape:
  "(snd (wind_shear u1 u2 v1 v2 dz) = Inr r \<longrightarrow> wind_shape u1 u2 v1 v2 = Some (bshape r))
   \<and> (snd (wind_shear_normal u1 u2 v1 v2 ca sa dz) = Inr r' \<longrightarrow>
        normal_shape u1 u2 v1 v2 ca sa = Some (bshape r'))
   \<and> (bshape ca = [] \<and> bshape sa = [] \<longrightarrow>
        normal_shape u1 u2 v1 v2 ca sa = wind_shape u1 u2 v1 v2)"
proof (intro conjI impI)
  assume "snd (wind_shear u1 u2 v1 v2 dz) = Inr r"
  from wind_shear_returns [OF this] obtain du dv ds m a ms where
    g: "gradients u1 u2 v1 v2 dz = Inr (du, dv)" and mg: "magnitude du dv = Inr ds"
    and o: "overwrite (chosen_bucket (np_isnan_any ds) m) ds = Inr (a, ms)" and r: "r = Arr a"
    by blast
  have "bshape r = bshape ds" using overwrite_shape [OF o] r by (simp add: bshape_def)
  then show "wind_shape u1 u2 v1 v2 = Some (bshape r)"
    using gradients_shape [OF g] magnitude_shape [OF mg] by (simp add: wind_shape_def)
next
  assume "snd (wind_shear_normal u1 u2 v1 v2 ca sa dz) = Inr r'"
  from wind_shear_normal_returns [OF this] obtain du dv dsn ds m a ms where
    g: "gradients u1 u2 v1 v2 dz = Inr (du, dv)" and n: "normal_gradient du dv ca sa = Inr dsn"
    and o: "overwrite (fneg (chosen_bucket (np_isnan_any dsn) m)) dsn = Inr (a, ms)"
    and r: "r' = Arr a" by blast
  have "bshape r' = bshape dsn" using overwrite_shape [OF o] r by (simp add: bshape_def)
  then show "normal_shape u1 u2 v1 v2 ca sa = Some (bshape r')"
    using gradients_shape [OF g] normal_gradient_shape [OF n] by (auto simp: normal_shape_def)
next
  assume "bshape ca = [] \<and> bshape sa = []"
  then show "normal_shape u1 u2 v1 v2 ca sa = wind_shape u1 u2 v1 v2"
    by (cases "broadcast_shapes (bshape u1) (bshape u2)";
        cases "broadcast_shapes (bshape v1) (bshape v2)")
      (simp_all add: normal_shape_def wind_shape_def broadcast_shapes_Nil2
        broadcast_shapes_commute)
qed

lemma gradients_zero1: "gradients zero1 zero1 zero1 zero1 (Fin 1) = Inr (zero1, zero1)"
  by (simp add: array_eval)

lemma magnitude_zero1: "magnitude zero1 zero1 = Inr zero1"
  by (simp add: array_eval)

lemma normal_gradient_zero1_one2: "normal_gradient zero1 zero1 one2 zero2 = Inr zero2"
  by (simp add: array_eval)

lemma np_max_zero1: "np_max zero1 = Inr (Fin 0)"
  by (simp add: np_max_def)

lemma overwrite_one:
  "overwrite x (Arr (NdArray [Suc 0] [a])) = Inr (NdArray [Suc 0] [x], x)"
  using overwrite_array [of "NdArray [Suc 0] [a]" x] by (simp add: wf_array_def)

lemma wind_shear_zero1:
  "wind_shear zero1 zero1 zero1 zero1 (Fin 1) = ([], Inr (Arr (NdArray [1] [d_2e3])))"
  unfolding wind_shear_run [OF gradients_zero1 magnitude_zero1 np_max_zero1]
  by (simp add: np_isnan_any_def is_nan_def chosen_bucket_zero overwrite_one)

lemma wind_shear_normal_zero1_one2:
  "wind_shear_normal zero1 zero1 zero1 zero1 one2 zero2 (Fin 1)
     = ([], Inr (Arr (NdArray [2] [fneg d_2e3, fneg d_2e3])))"
  unfolding wind_shear_normal_run
    [OF gradients_zero1 normal_gradient_zero1_one2 magnitude_zero1 np_max_zero1]
  by (simp add: np_isnan_any_def is_nan_def chosen_bucket_zero overwrite_two)

text \<open>The claim as stated fails: four winds of shape \<open>(1,)\<close> and a \<^verbatim>\<open>cos_a\<close> of shape
  \<open>(2,)\<close> give a result of shape \<open>(2,)\<close>.\<close>

theorem normal_shape_counterexample:
  "snd (wind_shear_normal zero1 zero1 zero1 zero1 one2 zero2 (Fin 1))
     = Inr (Arr (NdArray [2] [fneg d_2e3, fneg d_2e3]))
   \<and> wind_shape zero1 zero1 zero1 zero1 = Some [1]
   \<and> bshape (Arr (NdArray [2] [fneg d_2e3, fneg d_2e3])) = [2]"
  using wind_shear_normal_zero1_one2
  by (simp add: wind_shape_def bshape_def broadcast_shapes_def)

theorem result_shape_is_broadcast_shape_witness:
  "snd (wind_shear zero1 zero1 zero1 zero1 (Fin 1)) = Inr (Arr (NdArray [1] [d_2e3]))
   \<and> snd (wind_shear_normal zero1 zero1 zero1 zero1 one2 zero2 (Fin 1))
       = Inr (Arr (NdArray [2] [fneg d_2e3, fneg d_2e3]))
   \<and> bshape (PyFloat (Fin 1)) = [] \<and> bshape (PyFloat (Fin 0)) = []
   \<and> wind_shape zero1 zero1 zero1 zero1 = Some [1]
   \<and> normal_shape zero1 zero1 zero1 zero1 one2 zero2 = Some [2]
   \<and> normal_shape zero1 zero1 zero1 zero1 (PyFloat (Fin 1)) (PyFloat (Fin 0)) = Some [1]"
proof -
  have a: "snd (wind_shear zero1 zero1 zero1 zero1 (Fin 1)) = Inr (Arr (NdArray [1] [d_2e3]))"
    using wind_shear_zero1 by simp
  have b: "snd (wind_shear_normal zero1 zero1 zero1 zero1 one2 zero2 (Fin 1))
       = Inr (Arr (NdArray [2] [fneg d_2e3, fneg d_2e3]))"
    using wind_shear_normal_zero1_one2 by simp
  have c: "bshape (PyFloat (Fin 1)) = []" "bshape (PyFloat (Fin 0)) = []"
    by (simp_all add: bshape_def)
  note t1 = result_shape_is_broadcast_shape [of zero1 zero1 zero1 zero1 "Fin 1"
      "Arr (NdArray [1] [d_2e3])" one2 zero2 "Arr (NdArray [2] [fneg d_2e3, fneg d_2e3])"]
  note t2 = result_shape_is_broadcast_shape [of zero1 zero1 zero1 zero1 "Fin 1"
      "Arr (NdArray [1] [d_2e3])" "PyFloat (Fin 1)" "PyFloat (Fin 0)"
      "Arr (NdArray [2] [fneg d_2e3, fneg d_2e3])"]
  from t1 a b have "wind_shape zero1 zero1 zero1 zero1 = Some [1]"
    "normal_shape zero1 zero1 zero1 zero1 one2 zero2 = Some [2]"
    by (simp_all add: bshape_def)
  moreover from t2 c this(1)
  have "normal_shape zero1 zero1 zero1 zero1 (PyFloat (Fin 1)) (PyFloat (Fin 0)) = Some [1]"
    by simp
  ultimately show ?thesis using a b c by simp
qed

section \<open>Facts about calls on plain Python floats\<close>

lemma gradients_floats_pair:
  assumes "gradients (PyFloat a) (PyFloat b) (PyFloat c) (PyFloat d) dz = Inr p"
  shows "\<exists>x y. gradients (PyFloat a) (PyFloat b) (PyFloat c) (PyFloat d) dz
           = Inr (PyFloat x, PyFloat y)"
proof (cases p)
  case (Pair du dv)
  with assms gradients_floats [of a b c d dz du dv] show ?thesis by auto
qed

lemma wind_shear_floats:
  "snd (wind_shear (PyFloat a) (PyFloat b) (PyFloat c) (PyFloat d) dz) =
     (case gradients (PyFloat a) (PyFloat b) (PyFloat c) (PyFloat d) dz of
        Inl e \<Rightarrow> Inl e
      | Inr (du, dv) \<Rightarrow>
          (case magnitude du dv of Inl e \<Rightarrow> Inl e | Inr ds \<Rightarrow> Inl AttributeError))"
proof (cases "gradients (PyFloat a) (PyFloat b) (PyFloat c) (PyFloat d) dz")
  case (Inl e)
  then show ?thesis by (simp add: wind_shear_def bind_res_def)
next
  case (Inr p)
  then obtain x y where g: "gradients (PyFloat a) (PyFloat b) (PyFloat c) (PyFloat d) dz
      = Inr (PyFloat x, PyFloat y)"
    using gradients_floats_pair by blast
  show ?thesis
  proof (cases "magnitude (PyFloat x) (PyFloat y)")
    case (Inl e)
    then show ?thesis using g by (simp add: wind_shear_def bind_res_def)
  next
    case (Inr ds)
    then obtain z where z: "ds = PyFloat z" by (auto dest: magnitude_floats)
    show ?thesis
      unfolding wind_shear_run [OF g Inr [unfolded z] np_max_float]
      using g Inr by (simp add: overwrite_float)
  qed
qed

lemma wind_shear_normal_floats:
  "snd (wind_shear_normal (PyFloat a) (PyFloat b) (PyFloat c) (PyFloat d)
         (PyFloat ca) (PyFloat sa) dz) =
     (case gradients (PyFloat a) (PyFloat b) (PyFloat c) (PyFloat d) dz of
        Inl e \<Rightarrow> Inl e
      | Inr (du, dv) \<Rightarrow>
          (case magnitude du dv of Inl e \<Rightarrow> Inl e | Inr ds \<Rightarrow> Inl AttributeError))"
proof (cases "gradients (PyFloat a) (PyFloat b) (PyFloat c) (PyFloat d) dz")
  case (Inl e)
  then show ?thesis by (simp add: wind_shear_normal_def bind_res_def)
next
  case (Inr p)
  then obtain x y where g: "gradients (PyFloat a) (PyFloat b) (PyFloat c) (PyFloat d) dz
      = Inr (PyFloat x, PyFloat y)"
    using gradients_floats_pair by blast
  from normal_gradient_floats_total [of x y ca sa] obtain n where
    n: "normal_gradient (PyFloat x) (PyFloat y) (PyFloat ca) (PyFloat sa) = Inr (PyFloat n)"
    by blast
  show ?thesis
  proof (cases "magnitude (PyFloat x) (PyFloat y)")
    case (Inl e)
    then show ?thesis using g n by (simp add: wind_shear_normal_def bind_res_def)
  next
    case (Inr ds)
    then obtain z where z: "ds = PyFloat z" by (auto dest: magnitude_floats)
    show ?thesis
      unfolding wind_shear_normal_run [OF g n Inr [unfolded z] np_max_float]
      using g Inr by (simp add: overwrite_float)
  qed
qed

lemma floats_outcome_errors:
  "\<exists>e. (case gradients (PyFloat a) (PyFloat b) (PyFloat c) (PyFloat d) dz of
          Inl e \<Rightarrow> Inl e
        | Inr (du, dv) \<Rightarrow>
            (case magnitude du dv of Inl e \<Rightarrow> Inl e | Inr ds \<Rightarrow> Inl AttributeError))
        = (Inl e :: error + pyval)
      \<and> (e = AttributeError \<or> e = ZeroDivisionError \<or> e = OverflowError)"
proof (cases "gradients (PyFloat a) (PyFloat b) (PyFloat c) (PyFloat d) dz")
  case (Inl e)
  then show ?thesis using gradients_floats_error [OF Inl] by simp
next
  case (Inr p)
  then obtain x y where g: "gradients (PyFloat a) (PyFloat b) (PyFloat c) (PyFloat d) dz
      = Inr (PyFloat x, PyFloat y)"
    using gradients_floats_pair by blast
  show ?thesis
  proof (cases "magnitude (PyFloat x) (PyFloat y)")
    case (Inl e)
    then show ?thesis using g magnitude_floats_error [OF Inl] by simp
  next
    case (Inr ds)
    then show ?thesis using g by simp
  qed
qed

text \<open>The call \<^verbatim>\<open>wind_shear(5.0, 0.0, 0.0, 0.0, 1000.0)\<close>: the gradients and the magnitude
  are there, as plain floats.\<close>

lemma gradients_five:
  "\<exists>w. \<bar>w\<bar> \<le> 1 \<and> gradients (PyFloat (Fin 5)) (PyFloat (Fin 0)) (PyFloat (Fin 0))
      (PyFloat (Fin 0)) (Fin 1000) = Inr (PyFloat (Fin w), PyFloat (Fin 0))"
proof -
  obtain u where u: "round64 5 = Fin u" "\<bar>u - 5\<bar> \<le> 1 / 100000000"
    using round64_close_small [of 5] by auto
  have "\<bar>u / 1000\<bar> \<le> 1000000" using u(2) by linarith
  from round64_close_small [OF this] obtain w where
    w: "round64 (u / 1000) = Fin w" "\<bar>w - u / 1000\<bar> \<le> 1 / 100000000" by blast
  have "\<bar>w\<bar> \<le> 1" using u(2) w(2) by linarith
  moreover have "gradients (PyFloat (Fin 5)) (PyFloat (Fin 0)) (PyFloat (Fin 0))
      (PyFloat (Fin 0)) (Fin 1000) = Inr (PyFloat (Fin w), PyFloat (Fin 0))"
    using u(1) w(1)
    by (simp add: gradients_def bind_res_def py_sub_def py_truediv_def py_apply_def fsub_def)
      (simp add: round64_def)
  ultimately show ?thesis by blast
qed

lemma magnitude_small:
  assumes "\<bar>w\<bar> \<le> 1"
  shows "\<exists>ds. magnitude (PyFloat (Fin w)) (PyFloat (Fin 0)) = Inr ds"
proof (cases "magnitude (PyFloat (Fin w)) (PyFloat (Fin 0))")
  case (Inl e)
  have "\<bar>w\<bar> * \<bar>w\<bar> \<le> 1 * 1" using assms by (intro mult_mono) simp_all
  then have "\<bar>w * w\<bar> \<le> 1000000" by (simp add: abs_mult)
  from round64_close_small [OF this] have "fmul (Fin w) (Fin w) \<noteq> PInf" by auto
  moreover have "fmul (Fin 0) (Fin 0) \<noteq> PInf" by (simp add: round64_def)
  ultimately show ?thesis using magnitude_floats_overflow [OF Inl] by simp
next
  case (Inr ds)
  then show ?thesis by blast
qed

section \<open>Plain Python floats\<close>

text \<open>
  C8 does not hold of the code. On plain Python floats both functions always raise: the
  gradient is then a plain float, which has no attribute \<^verbatim>\<open>shape\<close>, unless the division
  by \<^verbatim>\<open>dz\<close> or a square has raised before. The call
  \<^verbatim>\<open>wind_shear(5.0, 0.0, 0.0, 0.0, 1000.0)\<close> raises AttributeError, and so does
  \<^verbatim>\<open>wind_shear_normal(5.0, 0.0, 0.0, 0.0, 1.0, 0.0, 1000.0)\<close>.
\<close>

theorem plain_floats_raise:
  "(\<exists>e. snd (wind_shear (PyFloat a) (PyFloat b) (PyFloat c) (PyFloat d) dz) = Inl e
        \<and> (e = AttributeError \<or> e = ZeroDivisionError \<or> e = OverflowError))
   \<and> (\<exists>e. snd (wind_shear_normal (PyFloat a) (PyFloat b) (PyFloat c) (PyFloat d)
               (PyFloat ca) (PyFloat sa) dz) = Inl e
        \<and> (e = AttributeError \<or> e = ZeroDivisionError \<or> e = OverflowError))
   \<and> snd (wind_shear (PyFloat (Fin 5)) (PyFloat (Fin 0)) (PyFloat (Fin 0)) (PyFloat (Fin 0))
            (Fin 1000)) = Inl AttributeError
   \<and> snd (wind_shear_normal (PyFloat (Fin 5)) (PyFloat (Fin 0)) (PyFloat (Fin 0))
            (PyFloat (Fin 0)) (PyFloat (Fin 1)) (PyFloat (Fin 0)) (Fin 1000))
        = Inl AttributeError"
proof -
  from gradients_five obtain w where w: "\<bar>w\<bar> \<le> 1"
    and g: "gradients (PyFloat (Fin 5)) (PyFloat (Fin 0)) (PyFloat (Fin 0))
      (PyFloat (Fin 0)) (Fin 1000) = Inr (PyFloat (Fin w), PyFloat (Fin 0))" by blast
  from magnitude_small [OF w] obtain ds where
    m: "magnitude (PyFloat (Fin w)) (PyFloat (Fin 0)) = Inr ds" by blast
  have 1: "snd (wind_shear (PyFloat (Fin 5)) (PyFloat (Fin 0)) (PyFloat (Fin 0))
      (PyFloat (Fin 0)) (Fin 1000)) = Inl AttributeError"
    unfolding wind_shear_floats using g m by simp
  have 2: "snd (wind_shear_normal (PyFloat (Fin 5)) (PyFloat (Fin 0)) (PyFloat (Fin 0))
      (PyFloat (Fin 0)) (PyFloat (Fin 1)) (PyFloat (Fin 0)) (Fin 1000)) = Inl AttributeError"
    unfolding wind_shear_normal_floats using g m by simp
  show ?thesis
    unfolding wind_shear_floats wind_shear_normal_floats
    using floats_outcome_errors [of a b c d dz] 1 [unfolded wind_shear_floats]
    by simp
qed

theorem plain_floats_raise_witness:
  "(\<exists>e. snd (wind_shear (PyFloat (Fin 5)) (PyFloat (Fin 0)) (PyFloat (Fin 0)) (PyFloat (Fin 0))
           (Fin 1000)) = Inl e
        \<and> (e = AttributeError \<or> e = ZeroDivisionError \<or> e = OverflowError))
   \<and> (\<exists>e. snd (wind_shear_normal (PyFloat (Fin 5)) (PyFloat (Fin 0)) (PyFloat (Fin 0))
           (PyFloat (Fin 0)) (PyFloat (Fin 1)) (PyFloat (Fin 0)) (Fin 1000)) = Inl e
        \<and> (e = AttributeError \<or> e = ZeroDivisionError \<or> e = OverflowError))
   \<and> snd (wind_shear (PyFloat (Fin 5)) (PyFloat (Fin 0)) (PyFloat (Fin 0)) (PyFloat (Fin 0))
            (Fin 1000)) = Inl AttributeError
   \<and> snd (wind_shear_normal (PyFloat (Fin 5)) (PyFloat (Fin 0)) (PyFloat (Fin 0))
            (PyFloat (Fin 0)) (PyFloat (Fin 1)) (PyFloat (Fin 0)) (Fin 1000))
        = Inl AttributeError"
  by (rule plain_floats_raise)

lemma fsub_fin_not_nan: "m \<noteq> NaN \<Longrightarrow> fabs (fsub (Fin v) m) \<noteq> NaN"
proof (cases m)
  case (Fin x)
  then show ?thesis using round64_not_nan [of "v + - x"]
    by (cases "round64 (v + - x)") (simp_all add: fsub_def)
qed (simp_all add: fsub_def)

lemma distance_row_not_nan:
  assumes "m \<noteq> NaN"
  shows "\<exists>a b c. distance_row m = [a, b, c] \<and> a \<noteq> NaN \<and> b \<noteq> NaN \<and> c \<noteq> NaN"
proof -
  from shear_option_values obtain v2 v4 v6 where
    d: "d_2e3 = Fin v2" "d_4e3 = Fin v4" "d_6e3 = Fin v6" by blast
  show ?thesis using assms
    by (simp add: distance_row_def shear_options_def d fsub_fin_not_nan)
qed

lemma np_argmin_three_general:
  assumes "a \<noteq> NaN" "b \<noteq> NaN" "c \<noteq> NaN"
  shows "np_argmin [a, b, c]
     = Inr (if \<not> fge b a then (if \<not> fge c b then 2 else 1) else if \<not> fge c a then 2 else 0)"
  using assms by (simp add: np_argmin_def is_nan_def)

lemma argmin_three_nearest:
  assumes "a \<noteq> NaN" "b \<noteq> NaN" "c \<noteq> NaN"
  shows "\<exists>i<3. np_argmin [a, b, c] = Inr i
           \<and> (\<forall>j<3. fge ([a, b, c] ! j) ([a, b, c] ! i))
           \<and> (\<forall>j<i. \<not> fge ([a, b, c] ! i) ([a, b, c] ! j))"
proof -
  have n: "\<not> is_nan a" "\<not> is_nan b" "\<not> is_nan c" using assms by (simp_all add: is_nan_def)
  note r = fge_refl [OF n(1)] fge_refl [OF n(2)] fge_refl [OF n(3)]
  note t = fge_total [OF n(1) n(2)] fge_total [OF n(2) n(1)] fge_total [OF n(1) n(3)]
    fge_total [OF n(3) n(1)] fge_total [OF n(2) n(3)] fge_total [OF n(3) n(2)]
  consider (i0) "fge b a" "fge c a" | (i1) "\<not> fge b a" "fge c b"
    | (i2) "\<not> fge b a" "\<not> fge c b" | (i3) "fge b a" "\<not> fge c a" by blast
  then show ?thesis
  proof cases
    case i0
    then have "np_argmin [a, b, c] = Inr 0" using assms by (simp add: np_argmin_three_general)
    moreover have "\<forall>j<3. fge ([a, b, c] ! j) ([a, b, c] ! 0)"
      using i0 r by (auto simp: less_Suc_eq numeral_3_eq_3)
    ultimately show ?thesis by (intro exI [of _ 0]) simp
  next
    case i1
    then have "np_argmin [a, b, c] = Inr 1" using assms by (simp add: np_argmin_three_general)
    moreover have "\<forall>j<3. fge ([a, b, c] ! j) ([a, b, c] ! 1)"
      using i1 r t by (auto simp: less_Suc_eq numeral_3_eq_3)
    moreover have "\<forall>j<1. \<not> fge ([a, b, c] ! 1) ([a, b, c] ! j)" using i1 by simp
    ultimately show ?thesis by (intro exI [of _ 1]) simp
  next
    case i2
    then have "np_argmin [a, b, c] = Inr 2" using assms by (simp add: np_argmin_three_general)
    moreover have ab: "fge a b" using i2 t by blast
    have bc: "fge b c" using i2 t by blast
    have ac: "fge a c" using ab bc fge_trans by blast
    have "\<not> fge c a" using i2 ab fge_trans by blast
    then have "\<forall>j<2. \<not> fge ([a, b, c] ! 2) ([a, b, c] ! j)"
      using i2 by (auto simp: less_Suc_eq numeral_2_eq_2)
    moreover have "\<forall>j<3. fge ([a, b, c] ! j) ([a, b, c] ! 2)"
      using ac bc r by (auto simp: less_Suc_eq numeral_3_eq_3)
    ultimately show ?thesis by (intro exI [of _ 2]) simp
  next
    case i3
    then have "np_argmin [a, b, c] = Inr 2" using assms by (simp add: np_argmin_three_general)
    moreover have ac: "fge a c" using i3 t by blast
    have bc: "fge b c" using i3 ac fge_trans by blast
    have "\<not> fge c b" using i3 fge_trans by blast
    then have "\<forall>j<2. \<not> fge ([a, b, c] ! 2) ([a, b, c] ! j)"
      using i3 by (auto simp: less_Suc_eq numeral_2_eq_2)
    moreover have "\<forall>j<3. fge ([a, b, c] ! j) ([a, b, c] ! 2)"
      using ac bc r by (auto simp: less_Suc_eq numeral_3_eq_3)
    ultimately show ?thesis by (intro exI [of _ 2]) simp
  qed
qed

lemma nearest_distance_row:
  "nearest m i \<longleftrightarrow>
     i < length shear_options
     \<and> (\<forall>j < length shear_options. fge (distance_row m ! j) (distance_row m ! i))
     \<and> (\<forall>j < i. \<not> fge (distance_row m ! i) (distance_row m ! j))"
  by (auto simp: nearest_def distance_row_def)

lemma chosen_bucket_nearest:
  assumes "m \<noteq> NaN"
  shows "\<exists>i. nearest m i \<and> chosen_bucket False m = shear_options ! i"
proof -
  from distance_row_not_nan [OF assms] obtain a b c where
    row: "distance_row m = [a, b, c]" and n: "a \<noteq> NaN" "b \<noteq> NaN" "c \<noteq> NaN" by blast
  from argmin_three_nearest [OF n] obtain i where i: "i < 3"
    "np_argmin [a, b, c] = Inr i" "\<forall>j<3. fge ([a, b, c] ! j) ([a, b, c] ! i)"
    "\<forall>j<i. \<not> fge ([a, b, c] ! i) ([a, b, c] ! j)" by blast
  have "nearest m i" using i by (simp add: nearest_distance_row row shear_options_def)
  moreover have "chosen_bucket False m = shear_options ! i"
    using i(1,2) by (simp add: chosen_bucket_def choose_shear_direct_def row bind_res_def
        getitem_def shear_options_def)
  ultimately show ?thesis by blast
qed

lemma shear_options_increasing:
  "i < j \<Longrightarrow> j < 3 \<Longrightarrow> \<not> fge (shear_options ! i) (shear_options ! j)"
proof -
  assume ij: "i < j" "j < 3"
  from shear_option_values obtain v2 v4 v6 where
    d: "d_2e3 = Fin v2" "d_4e3 = Fin v4" "d_6e3 = Fin v6"
    and v: "\<bar>v2 - 2 / 1000\<bar> \<le> 1 / 100000000" "\<bar>v4 - 4 / 1000\<bar> \<le> 1 / 100000000"
      "\<bar>v6 - 6 / 1000\<bar> \<le> 1 / 100000000" by blast
  have "v2 < v4" "v4 < v6" "v2 < v6" using v by linarith+
  then show ?thesis using ij
    by (auto simp: shear_options_def d less_Suc_eq numeral_3_eq_3)
qed

lemma overwrite_wf:
  assumes "wf_val g" and "overwrite x g = Inr (a, ms)"
  shows "\<exists>b. g = Arr b \<and> data b \<noteq> []
           \<and> a = NdArray (shape b) (replicate (length (data b)) x) \<and> ms = x"
proof -
  from overwrite_returns [OF assms(2)] obtain b where b: "g = Arr b" by blast
  have w: "wf_array b" using assms(1) b by (simp add: wf_val_def)
  have ne: "data b \<noteq> []"
  proof
    assume "data b = []"
    then have "overwrite x (Arr b) = Inl ValueError"
      using np_where_full_wf [OF w, of x] by (simp add: overwrite_def bind_res_def np_min_def)
    with assms(2) b show False by simp
  qed
  have "Inr (a, ms) = (Inr (NdArray (shape b) (replicate (length (data b)) x), x)
      :: error + double ndarray \<times> double)"
    using assms(2) unfolding b overwrite_array [OF w ne] by (rule sym)
  then have "a = NdArray (shape b) (replicate (length (data b)) x)" "ms = x" by blast+
  with b ne show ?thesis by blast
qed

section \<open>Facts about infinite gradients\<close>

lemma distance_row_inf: "distance_row PInf = [PInf, PInf, PInf]"
proof -
  from shear_option_values obtain v2 v4 v6 where
    d: "d_2e3 = Fin v2" "d_4e3 = Fin v4" "d_6e3 = Fin v6" by blast
  show ?thesis by (simp add: distance_row_def shear_options_def d fsub_def)
qed

lemma chosen_bucket_inf: "chosen_bucket n PInf = d_2e3"
  using choose_shear_inf choose_shear_bucket [of PInf] by (simp add: chosen_bucket_def)

lemma infinite_gradient_magnitude:
  assumes "wf_val du" "wf_val dv" and "magnitude du dv = Inr ds" and "elems ds \<noteq> {}"
    and "NaN \<notin> elems du \<union> elems dv"
    and "PInf \<in> elems du \<union> elems dv \<or> NInf \<in> elems du \<union> elems dv"
  shows "NaN \<notin> elems ds \<and> np_max ds = Inr PInf"
proof -
  note f = magnitude_facts [OF assms(3) assms(1,2)]
  have nn: "NaN \<notin> elems ds"
  proof
    assume "NaN \<in> elems ds"
    with f(3) obtain x y where "x \<in> elems du" "y \<in> elems dv" "hypot2 x y = NaN" by metis
    with assms(5) show False by (auto simp: hypot2_nan)
  qed
  from assms(6) obtain x where x: "x \<in> elems du \<union> elems dv" "x = PInf \<or> x = NInf" by blast
  have "PInf \<in> elems ds"
  proof (cases "x \<in> elems du")
    case True
    with f(4) [OF assms(4)] obtain y where y: "y \<in> elems dv" "hypot2 x y \<in> elems ds" by blast
    have "x \<noteq> NaN" "y \<noteq> NaN" using True y(1) assms(5) by auto
    from hypot2_inf [OF this] x(2) y(2) show ?thesis by auto
  next
    case False
    with x(1) have xv: "x \<in> elems dv" by simp
    with f(5) [OF assms(4)] obtain y where y: "y \<in> elems du" "hypot2 y x \<in> elems ds" by blast
    have "y \<noteq> NaN" "x \<noteq> NaN" using xv y(1) assms(5) by auto
    from hypot2_inf [OF this] x(2) y(2) show ?thesis by auto
  qed
  from np_max_inf [OF this nn] nn show ?thesis by simp
qed

lemma wind_shear_infinite:
  assumes "wf_val u1" "wf_val u2" "wf_val v1" "wf_val v2"
    and "gradients u1 u2 v1 v2 dz = Inr (du, dv)" and "magnitude du dv = Inr (Arr a)"
    and "data a \<noteq> []" and "NaN \<notin> elems du \<union> elems dv"
    and "PInf \<in> elems du \<union> elems dv \<or> NInf \<in> elems du \<union> elems dv"
  shows "np_max (Arr a) = Inr PInf" and "\<not> np_isnan_any (Arr a)"
    and "wind_shear u1 u2 v1 v2 dz
       = ([], Inr (Arr (NdArray (shape a) (replicate (length (data a)) d_2e3))))"
proof -
  from gradients_wf [OF assms(5) assms(1-4)] have w: "wf_val du" "wf_val dv" by simp_all
  have ne: "elems (Arr a) \<noteq> {}" using assms(7) by (simp add: elems_def)
  from infinite_gradient_magnitude [OF w assms(6) ne assms(8,9)]
  have nn: "NaN \<notin> elems (Arr a)" and mx: "np_max (Arr a) = Inr PInf" by simp_all
  show "np_max (Arr a) = Inr PInf" by (rule mx)
  show nf: "\<not> np_isnan_any (Arr a)" using nn by (simp add: np_isnan_any_elems)
  have "wf_val (Arr a)" by (rule magnitude_facts(1) [OF assms(6) w])
  then have wa: "wf_array a" by (simp add: wf_val_def)
  have cb: "chosen_bucket (np_isnan_any (Arr a)) PInf = d_2e3" by (rule chosen_bucket_inf)
  show "wind_shear u1 u2 v1 v2 dz
       = ([], Inr (Arr (NdArray (shape a) (replicate (length (data a)) d_2e3))))"
    unfolding wind_shear_run [OF assms(5,6) mx] cb
    using nf by (simp add: overwrite_array [OF wa assms(7)])
qed

lemma wind_shear_normal_infinite:
  assumes "wf_val u1" "wf_val u2" "wf_val v1" "wf_val v2" "wf_val ca" "wf_val sa"
    and "gradients u1 u2 v1 v2 dz = Inr (du, dv)" and "magnitude du dv = Inr (Arr a)"
    and "data a \<noteq> []" and "NaN \<notin> elems du \<union> elems dv"
    and "PInf \<in> elems du \<union> elems dv \<or> NInf \<in> elems du \<union> elems dv"
    and "normal_gradient du dv ca sa = Inr (Arr b)" and "data b \<noteq> []"
  shows "wind_shear_normal u1 u2 v1 v2 ca sa dz
       = (if np_isnan_any (Arr b) then [Removed_NaN, Normal_shear_line (fneg d_2e3)] else [],
          Inr (Arr (NdArray (shape b) (replicate (length (data b)) (fneg d_2e3)))))"
proof -
  from gradients_wf [OF assms(7) assms(1-4)] have w: "wf_val du" "wf_val dv" by simp_all
  have ne: "elems (Arr a) \<noteq> {}" using assms(9) by (simp add: elems_def)
  from infinite_gradient_magnitude [OF w assms(8) ne assms(10,11)]
  have mx: "np_max (Arr a) = Inr PInf" by simp
  have "wf_val (Arr b)" by (rule normal_gradient_facts(1) [OF assms(12) w assms(5,6)])
  then have wb: "wf_array b" by (simp add: wf_val_def)
  have cb: "chosen_bucket (np_isnan_any (Arr b)) PInf = d_2e3" by (rule chosen_bucket_inf)
  show ?thesis
    unfolding wind_shear_normal_run [OF assms(7,12,8) mx] cb
    by (simp add: overwrite_array [OF wb assms(13)])
qed

lemma wind_shear_finite:
  assumes "snd (wind_shear u1 u2 v1 v2 dz) = Inr r" and "x \<in> elems r"
  shows "x \<in> set shear_options \<and> (\<exists>v>0. x = Fin v)"
proof -
  from wind_shear_returns [OF assms(1)] obtain ds m a ms where
    o: "overwrite (chosen_bucket (np_isnan_any ds) m) ds = Inr (a, ms)" and r: "r = Arr a"
    by blast
  from overwrite_returns [OF o] assms(2) r have "x = chosen_bucket (np_isnan_any ds) m"
    by (auto simp: elems_def)
  then show ?thesis using chosen_bucket_options chosen_bucket_positive by simp
qed

lemma wind_shear_normal_finite:
  assumes "snd (wind_shear_normal u1 u2 v1 v2 ca sa dz) = Inr r" and "x \<in> elems r"
  shows "fneg x \<in> set shear_options \<and> (\<exists>v<0. x = Fin v)"
proof -
  from wind_shear_normal_returns [OF assms(1)] obtain dsn m a ms where
    o: "overwrite (fneg (chosen_bucket (np_isnan_any dsn) m)) dsn = Inr (a, ms)"
    and r: "r = Arr a" by blast
  from overwrite_returns [OF o] assms(2) r
  have x: "x = fneg (chosen_bucket (np_isnan_any dsn) m)" by (auto simp: elems_def)
  from chosen_bucket_positive [of "np_isnan_any dsn" m] obtain v where
    v: "0 < v" "chosen_bucket (np_isnan_any dsn) m = Fin v" by blast
  have "fneg x = chosen_bucket (np_isnan_any dsn) m" unfolding x v(2) by simp
  moreover have "x = Fin (- v)" unfolding x v(2) by simp
  ultimately show ?thesis using chosen_bucket_options [of "np_isnan_any dsn" m] v(1)
    by (metis neg_less_0_iff_less)
qed

text \<open>Two levels with different winds at no distance: \<^verbatim>\<open>dz = 0\<close>.\<close>

lemma round64_one: "\<exists>w>0. round64 1 = Fin w"
proof -
  obtain w where w: "round64 1 = Fin w" "\<bar>w - 1\<bar> \<le> 1 / 100000000"
    using round64_close_small [of 1] by auto
  then have "0 < w" by linarith
  with w(1) show ?thesis by blast
qed

lemma gradients_one2_dz0: "gradients one2 zero2 one2 zero2 (Fin 0) = Inr (inf2, inf2)"
proof -
  from round64_one obtain w where w: "0 < w" "round64 1 = Fin w" by blast
  have s: "fsub (Fin 1) (Fin 0) = Fin w" using w(2) by (simp add: fsub_def)
  have d: "fdiv (Fin w) (Fin 0) = PInf" using w(1) by simp
  have "py_sub one2 zero2 = Inr (Arr (NdArray [2] [Fin w, Fin w]))"
    by (simp add: np_binary_def broadcast_shapes_def broadcast_to_def chunks_def py_apply_def
        py_sub_def numeral_2_eq_2 s)
  moreover have "py_truediv (Arr (NdArray [2] [Fin w, Fin w])) (PyFloat (Fin 0)) = Inr inf2"
    using d by (simp add: np_binary_def broadcast_shapes_def broadcast_to_def chunks_def
        py_apply_def py_truediv_def numeral_2_eq_2)
  ultimately show ?thesis by (simp add: gradients_def bind_res_def)
qed

lemma magnitude_inf2: "magnitude inf2 inf2 = Inr inf2"
  by (simp add: array_eval)

lemma normal_gradient_inf2:
  "normal_gradient inf2 inf2 (PyFloat (Fin 1)) (PyFloat (Fin (- 1))) = Inr inf2"
  by (simp add: array_eval)

section \<open>Infinite gradients\<close>

text \<open>
  C10, amended. Let the gradients \<^verbatim>\<open>du_dz\<close>, \<^verbatim>\<open>dv_dz\<close> hold an infinity and no NaN, and let the
  magnitude array be non-empty. Then the maximum of the magnitude is \<open>+\<infinity>\<close>, the three
  distances are \<open>+\<infinity>\<close>, the arg-min is the first candidate, the magnitude holds no NaN, and
  \<^verbatim>\<open>wind_shear\<close> returns the array filled with 0.002 and prints nothing. On a non-empty
  \<^verbatim>\<open>dsn_dz\<close>, \<^verbatim>\<open>wind_shear_normal\<close> returns the array filled with -0.002; the NaN
  override is taken exactly when \<^verbatim>\<open>dsn_dz\<close> holds a NaN. Whatever the input, every element
  of a result is a candidate (negated for the normal variant), a finite number.
\<close>

theorem infinite_gradient_gives_lowest_bucket:
  "(wf_val u1 \<and> wf_val u2 \<and> wf_val v1 \<and> wf_val v2 \<and> wf_val ca \<and> wf_val sa
      \<and> gradients u1 u2 v1 v2 dz = Inr (du, dv) \<and> magnitude du dv = Inr (Arr a)
      \<and> data a \<noteq> [] \<and> NaN \<notin> elems du \<union> elems dv
      \<and> (PInf \<in> elems du \<union> elems dv \<or> NInf \<in> elems du \<union> elems dv) \<longrightarrow>
        np_max (Arr a) = Inr PInf \<and> distance_row PInf = [PInf, PInf, PInf]
      \<and> np_argmin (distance_row PInf) = Inr 0 \<and> \<not> np_isnan_any (Arr a)
      \<and> wind_shear u1 u2 v1 v2 dz
          = ([], Inr (Arr (NdArray (shape a) (replicate (length (data a)) d_2e3))))
      \<and> (normal_gradient du dv ca sa = Inr (Arr b) \<and> data b \<noteq> [] \<longrightarrow>
           wind_shear_normal u1 u2 v1 v2 ca sa dz
             = (if np_isnan_any (Arr b) then [Removed_NaN, Normal_shear_line (fneg d_2e3)]
                else [],
                Inr (Arr (NdArray (shape b) (replicate (length (data b)) (fneg d_2e3)))))))
   \<and> (snd (wind_shear x1 x2 y1 y2 z) = Inr r \<longrightarrow>
        (\<forall>x\<in>elems r. x \<in> set shear_options \<and> (\<exists>v>0. x = Fin v)))
   \<and> (snd (wind_shear_normal x1 x2 y1 y2 c s z) = Inr r' \<longrightarrow>
        (\<forall>x\<in>elems r'. fneg x \<in> set shear_options \<and> (\<exists>v<0. x = Fin v)))"
proof (intro conjI impI)
  assume h: "wf_val u1 \<and> wf_val u2 \<and> wf_val v1 \<and> wf_val v2 \<and> wf_val ca \<and> wf_val sa
      \<and> gradients u1 u2 v1 v2 dz = Inr (du, dv) \<and> magnitude du dv = Inr (Arr a)
      \<and> data a \<noteq> [] \<and> NaN \<notin> elems du \<union> elems dv
      \<and> (PInf \<in> elems du \<union> elems dv \<or> NInf \<in> elems du \<union> elems dv)"
  then have w: "wf_val u1" "wf_val u2" "wf_val v1" "wf_val v2" and wc: "wf_val ca" "wf_val sa"
    and g: "gradients u1 u2 v1 v2 dz = Inr (du, dv)" and mg: "magnitude du dv = Inr (Arr a)"
    and ne: "data a \<noteq> []" and nn: "NaN \<notin> elems du \<union> elems dv"
    and i: "PInf \<in> elems du \<union> elems dv \<or> NInf \<in> elems du \<union> elems dv" by blast+
  note f = wind_shear_infinite [OF w g mg ne nn i]
  show "np_max (Arr a) = Inr PInf" by (rule f(1))
  show "\<not> np_isnan_any (Arr a)" by (rule f(2))
  show "wind_shear u1 u2 v1 v2 dz
      = ([], Inr (Arr (NdArray (shape a) (replicate (length (data a)) d_2e3))))" by (rule f(3))
  show "distance_row PInf = [PInf, PInf, PInf]" by (rule distance_row_inf)
  show "np_argmin (distance_row PInf) = Inr 0"
    by (simp add: distance_row_inf np_argmin_def is_nan_def)
  assume "normal_gradient du dv ca sa = Inr (Arr b) \<and> data b \<noteq> []"
  then have n: "normal_gradient du dv ca sa = Inr (Arr b)" and nb: "data b \<noteq> []" by simp_all
  show "wind_shear_normal u1 u2 v1 v2 ca sa dz
      = (if np_isnan_any (Arr b) then [Removed_NaN, Normal_shear_line (fneg d_2e3)] else [],
         Inr (Arr (NdArray (shape b) (replicate (length (data b)) (fneg d_2e3)))))"
    by (rule wind_shear_normal_infinite [OF w wc g mg ne nn i n nb])
next
  assume "snd (wind_shear x1 x2 y1 y2 z) = Inr r"
  from wind_shear_finite [OF this]
  show "\<forall>x\<in>elems r. x \<in> set shear_options \<and> (\<exists>v>0. x = Fin v)" by blast
next
  assume "snd (wind_shear_normal x1 x2 y1 y2 c s z) = Inr r'"
  from wind_shear_normal_finite [OF this]
  show "\<forall>x\<in>elems r'. fneg x \<in> set shear_options \<and> (\<exists>v<0. x = Fin v)" by blast
qed

theorem infinite_gradient_gives_lowest_bucket_witness:
  "wf_val one2 \<and> wf_val zero2 \<and> wf_val (PyFloat (Fin 1)) \<and> wf_val (PyFloat (Fin (- 1)))
   \<and> gradients one2 zero2 one2 zero2 (Fin 0) = Inr (inf2, inf2)
   \<and> magnitude inf2 inf2 = Inr inf2 \<and> NaN \<notin> elems inf2 \<and> PInf \<in> elems inf2
   \<and> normal_gradient inf2 inf2 (PyFloat (Fin 1)) (PyFloat (Fin (- 1))) = Inr inf2
   \<and> np_max inf2 = Inr PInf \<and> \<not> np_isnan_any inf2
   \<and> wind_shear one2 zero2 one2 zero2 (Fin 0) = ([], Inr (Arr (NdArray [2] [d_2e3, d_2e3])))
   \<and> wind_shear_normal one2 zero2 one2 zero2 (PyFloat (Fin 1)) (PyFloat (Fin (- 1))) (Fin 0)
       = ([], Inr (Arr (NdArray [2] [fneg d_2e3, fneg d_2e3])))
   \<and> d_2e3 \<in> set shear_options \<and> (\<exists>v>0. d_2e3 = Fin v)
   \<and> fneg (fneg d_2e3) \<in> set shear_options \<and> (\<exists>v<0. fneg d_2e3 = Fin v)"
proof -
  have w: "wf_val one2" "wf_val zero2" "wf_val (PyFloat (Fin 1))" "wf_val (PyFloat (Fin (- 1)))"
    by (simp_all add: wf_val_def wf_array_def)
  have e: "NaN \<notin> elems inf2" "PInf \<in> elems inf2" "data (NdArray [2] [PInf, PInf]) \<noteq> []"
    by (simp_all add: elems_def)
  have nn: "\<not> np_isnan_any inf2" by (simp add: np_isnan_any_def is_nan_def)
  note t = infinite_gradient_gives_lowest_bucket [of one2 zero2 one2 zero2 "PyFloat (Fin 1)"
      "PyFloat (Fin (- 1))" "Fin 0" inf2 inf2 "NdArray [2] [PInf, PInf]"
      "NdArray [2] [PInf, PInf]" one2 zero2 one2 zero2 "Fin 0"
      "Arr (NdArray [2] [d_2e3, d_2e3])" "PyFloat (Fin 1)" "PyFloat (Fin (- 1))"
      "Arr (NdArray [2] [fneg d_2e3, fneg d_2e3])"]
  from t w e gradients_one2_dz0 magnitude_inf2 normal_gradient_inf2 nn
  have 1: "np_max inf2 = Inr PInf"
    and 2: "wind_shear one2 zero2 one2 zero2 (Fin 0)
        = ([], Inr (Arr (NdArray [2] [d_2e3, d_2e3])))"
    and 3: "wind_shear_normal one2 zero2 one2 zero2 (PyFloat (Fin 1)) (PyFloat (Fin (- 1)))
        (Fin 0) = ([], Inr (Arr (NdArray [2] [fneg d_2e3, fneg d_2e3])))"
    by (simp_all add: numeral_2_eq_2)
  from t 2 3 have 4: "d_2e3 \<in> set shear_options \<and> (\<exists>v>0. d_2e3 = Fin v)"
    and 5: "fneg (fneg d_2e3) \<in> set shear_options \<and> (\<exists>v<0. fneg d_2e3 = Fin v)"
    by (simp_all add: elems_def)
  from w e gradients_one2_dz0 magnitude_inf2 normal_gradient_inf2 nn 1 2 3 4 5
  show ?thesis by blast
qed

section \<open>Evaluation on arrays of two elements\<close>

lemmas two_eval = np_binary_def broadcast_shapes_def broadcast_to_def chunks_def np_unary_def
  py_apply_def py_sub_def py_add_def py_mul_def py_truediv_def bind_res_def numeral_2_eq_2

lemma gradients_two:
  "gradients (Arr (NdArray [2] [a1, a2])) (Arr (NdArray [2] [b1, b2]))
     (Arr (NdArray [2] [c1, c2])) (Arr (NdArray [2] [d1, d2])) dz
   = Inr (Arr (NdArray [2] [fdiv (fsub a1 b1) dz, fdiv (fsub a2 b2) dz]),
          Arr (NdArray [2] [fdiv (fsub c1 d1) dz, fdiv (fsub c2 d2) dz]))"
  by (simp add: gradients_def two_eval)

lemma magnitude_two:
  "magnitude (Arr (NdArray [2] [x1, x2])) (Arr (NdArray [2] [y1, y2]))
   = Inr (Arr (NdArray [2] [hypot2 x1 y1, hypot2 x2 y2]))"
  by (simp add: magnitude_def hypot2_def two_eval)

lemma normal_gradient_two:
  "normal_gradient (Arr (NdArray [2] [x1, x2])) (Arr (NdArray [2] [y1, y2]))
     (PyFloat c) (PyFloat s)
   = Inr (Arr (NdArray [2] [fsub (fmul y1 c) (fmul x1 s), fsub (fmul y2 c) (fmul x2 s)]))"
  by (simp add: normal_gradient_def two_eval)

lemma np_max_two: "np_max (Arr (NdArray [2] [x, y])) = Inr (np_maximum x y)"
  by (simp add: np_max_def)

lemma gradient_close:
  assumes "\<bar>x\<bar> \<le> 1000" "1 \<le> z"
  shows "\<exists>w. fdiv (fsub (Fin x) (Fin 0)) (Fin z) = Fin w \<and> \<bar>w - x / z\<bar> \<le> 2 / 100000000"
proof -
  have "\<bar>x\<bar> \<le> 1000000" using assms(1) by linarith
  from round64_close_small [OF this] obtain a where
    a: "round64 x = Fin a" "\<bar>a - x\<bar> \<le> 1 / 100000000" by blast
  have z: "0 < z" using assms(2) by linarith
  have sh: "\<bar>c\<bar> / z \<le> \<bar>c\<bar>" for c :: real
    using divide_left_mono [of 1 z "\<bar>c\<bar>"] assms(2) z by simp
  have "a / z - x / z = (a - x) / z" by (simp add: diff_divide_distrib)
  then have "\<bar>a / z - x / z\<bar> = \<bar>a - x\<bar> / z" using z by simp
  then have d: "\<bar>a / z - x / z\<bar> \<le> 1 / 100000000" using sh [of "a - x"] a(2) by linarith
  have "\<bar>x / z\<bar> = \<bar>x\<bar> / z" using z by simp
  then have "\<bar>x / z\<bar> \<le> 1000" using sh [of x] assms(1) by linarith
  then have "\<bar>a / z\<bar> \<le> 1000000" using d by linarith
  from round64_close_small [OF this] obtain w where
    w: "round64 (a / z) = Fin w" "\<bar>w - a / z\<bar> \<le> 1 / 100000000" by blast
  have "fdiv (fsub (Fin x) (Fin 0)) (Fin z) = Fin w"
    using a(1) w(1) z by (simp add: fsub_def)
  moreover have "\<bar>w - x / z\<bar> \<le> 2 / 100000000" using w(2) d by linarith
  ultimately show ?thesis by blast
qed

lemma gradient_zero: "z \<noteq> 0 \<Longrightarrow> fdiv (fsub (Fin 0) (Fin 0)) (Fin z) = Fin 0"
  by (simp add: fsub_def round64_def)

lemma round64_square:
  assumes "\<bar>x\<bar> \<le> 100"
  shows "\<exists>p\<ge>0. fmul (Fin x) (Fin x) = Fin p \<and> \<bar>p - x * x\<bar> \<le> 1 / 100000000
           \<and> x * x \<le> 10000"
proof -
  have "\<bar>x\<bar> * \<bar>x\<bar> \<le> 100 * 100" using assms by (intro mult_mono) simp_all
  then have b: "\<bar>x * x\<bar> \<le> 10000" by (simp add: abs_mult)
  then have "\<bar>x * x\<bar> \<le> 1000000" by linarith
  from round64_close_small [OF this] obtain p where
    p: "round64 (x * x) = Fin p" "\<bar>p - x * x\<bar> \<le> 1 / 100000000" by blast
  have "0 \<le> p" using round64_nonneg [of "x * x"] p(1) by auto
  moreover have "x * x \<le> 10000" using b by linarith
  ultimately show ?thesis using p by auto
qed

lemma hypot2_close:
  assumes "\<bar>x\<bar> \<le> 100" "\<bar>y\<bar> \<le> 100"
  shows "\<exists>t s. hypot2 (Fin x) (Fin y) = Fin s \<and> 0 \<le> t
           \<and> x * x + y * y - 3 / 100000000 \<le> t \<and> t \<le> x * x + y * y + 3 / 100000000
           \<and> sqrt t - 1 / 100000000 \<le> s \<and> s \<le> sqrt t + 1 / 100000000"
proof -
  from round64_square [OF assms(1)] obtain p where p: "0 \<le> p" "fmul (Fin x) (Fin x) = Fin p"
    "\<bar>p - x * x\<bar> \<le> 1 / 100000000" "x * x \<le> 10000" by blast
  from round64_square [OF assms(2)] obtain q where q: "0 \<le> q" "fmul (Fin y) (Fin y) = Fin q"
    "\<bar>q - y * y\<bar> \<le> 1 / 100000000" "y * y \<le> 10000" by blast
  have "\<bar>p + q\<bar> \<le> 1000000" using p q by linarith
  from round64_close_small [OF this] obtain t where
    t: "round64 (p + q) = Fin t" "\<bar>t - (p + q)\<bar> \<le> 1 / 100000000" by blast
  have t0: "0 \<le> t" using round64_nonneg [of "p + q"] t(1) p(1) q(1) by auto
  have "t \<le> 1000000" using t(2) p q by linarith
  then have "t \<le> 1000\<^sup>2" by simp
  from real_le_lsqrt [OF _ this] have "sqrt t \<le> 1000" by simp
  then have "\<bar>sqrt t\<bar> \<le> 1000000" using t0 by simp
  from round64_close_small [OF this] obtain s where
    s: "round64 (sqrt t) = Fin s" "\<bar>s - sqrt t\<bar> \<le> 1 / 100000000" by blast
  have "hypot2 (Fin x) (Fin y) = Fin s" using p(2) q(2) t(1) s(1) t0 by (simp add: hypot2_def)
  moreover have "x * x + y * y - 3 / 100000000 \<le> t" "t \<le> x * x + y * y + 3 / 100000000"
    using t(2) p(3) q(3) by linarith+
  moreover have "sqrt t - 1 / 100000000 \<le> s" "s \<le> sqrt t + 1 / 100000000"
    using s(2) by linarith+
  ultimately show ?thesis using t0 by blast
qed

lemma square_between:
  fixes x :: real
  assumes "0 \<le> lo" "lo \<le> x" "x \<le> hi"
  shows "lo * lo \<le> x * x \<and> x * x \<le> hi * hi"
proof
  have x: "0 \<le> x" using assms by linarith
  show "lo * lo \<le> x * x" by (rule mult_mono) (use assms x in simp_all)
  have "0 \<le> hi" using assms by linarith
  then show "x * x \<le> hi * hi" by (intro mult_mono) (use assms x in simp_all)
qed

lemma sqrt_between:
  fixes t :: real
  assumes "0 \<le> lo" "lo * lo \<le> t" "t \<le> hi * hi" "0 \<le> hi"
  shows "lo \<le> sqrt t \<and> sqrt t \<le> hi"
proof -
  have "lo\<^sup>2 \<le> t" using assms(2) by (simp add: power2_eq_square)
  then have "lo \<le> sqrt t" by (rule real_le_rsqrt)
  moreover have "t \<le> hi\<^sup>2" using assms(3) by (simp add: power2_eq_square)
  from real_le_lsqrt [OF assms(4) this] have "sqrt t \<le> hi" .
  ultimately show ?thesis by simp
qed

lemma fmul_overflow:
  assumes "2 \<le> b"
  shows "fmul (Fin b) (Fin (2 ^ 1023)) = PInf"
proof -
  have "2 * (2::real) ^ 1023 \<le> b * 2 ^ 1023" using assms by (intro mult_right_mono) simp_all
  moreover have "(2::real) ^ 1024 = 2 * 2 ^ 1023" by simp
  ultimately have "2 ^ 1024 \<le> b * 2 ^ 1023" by simp
  from round64_overflow [OF this] show ?thesis by simp
qed

lemma candidates_distinct: "d_6e3 \<noteq> d_2e3 \<and> d_4e3 \<noteq> d_2e3 \<and> d_6e3 \<noteq> d_4e3"
proof -
  from shear_option_values obtain v2 v4 v6 where
    d: "d_2e3 = Fin v2" "d_4e3 = Fin v4" "d_6e3 = Fin v6"
    and v: "\<bar>v2 - 2 / 1000\<bar> \<le> 1 / 100000000" "\<bar>v4 - 4 / 1000\<bar> \<le> 1 / 100000000"
      "\<bar>v6 - 6 / 1000\<bar> \<le> 1 / 100000000" by blast
  have "v2 < v4" "v4 < v6" "v2 < v6" using v by linarith+
  then show ?thesis by (simp add: d)
qed

lemma fneg_inj: "fneg a = fneg b \<longleftrightarrow> a = b"
  by (cases a; cases b) simp_all

lemma chosen_bucket_high:
  "51 / 10000 \<le> x \<Longrightarrow> x \<le> 100000 \<Longrightarrow> chosen_bucket False (Fin x) = d_6e3"
  using choose_shear_high [of x] choose_shear_bucket [of "Fin x"] by simp

text \<open>The winds \<open>(3, 4)\<close> over \<open>(0, 0)\<close> at distance 1, with \<^verbatim>\<open>cos_a = sin_a = 2.0 ** 1023\<close>,
  a finite double.\<close>

lemma three_four_gradients:
  "\<exists>a b. gradients three2 zero2 four2 zero2 (Fin 1)
             = Inr (Arr (NdArray [2] [Fin a, Fin a]), Arr (NdArray [2] [Fin b, Fin b]))
         \<and> \<bar>a - 3\<bar> \<le> 2 / 100000000 \<and> \<bar>b - 4\<bar> \<le> 2 / 100000000"
proof -
  obtain a where a: "fdiv (fsub (Fin 3) (Fin 0)) (Fin 1) = Fin a" "\<bar>a - 3 / 1\<bar> \<le> 2 / 100000000"
    using gradient_close [of 3 1] by auto
  obtain b where b: "fdiv (fsub (Fin 4) (Fin 0)) (Fin 1) = Fin b" "\<bar>b - 4 / 1\<bar> \<le> 2 / 100000000"
    using gradient_close [of 4 1] by auto
  have "gradients three2 zero2 four2 zero2 (Fin 1)
      = Inr (Arr (NdArray [2] [Fin a, Fin a]), Arr (NdArray [2] [Fin b, Fin b]))"
    unfolding gradients_two a(1) b(1) by (rule refl)
  with a(2) b(2) show ?thesis by auto
qed

lemma three_four_magnitude:
  assumes "\<bar>a - 3\<bar> \<le> 2 / 100000000" "\<bar>b - 4\<bar> \<le> 2 / 100000000"
  shows "\<exists>s. hypot2 (Fin a) (Fin b) = Fin s \<and> 47 / 10 \<le> s \<and> s \<le> 53 / 10"
proof -
  have "\<bar>a\<bar> \<le> 100" "\<bar>b\<bar> \<le> 100" using assms by linarith+
  from hypot2_close [OF this] obtain t s where s: "hypot2 (Fin a) (Fin b) = Fin s"
    and t: "a * a + b * b - 3 / 100000000 \<le> t" "t \<le> a * a + b * b + 3 / 100000000"
    and b: "sqrt t - 1 / 100000000 \<le> s" "s \<le> sqrt t + 1 / 100000000" by blast
  have "29 / 10 \<le> a" "a \<le> 31 / 10" "39 / 10 \<le> b" "b \<le> 41 / 10" using assms by linarith+
  from square_between [of "29 / 10" a "31 / 10"] square_between [of "39 / 10" b "41 / 10"] this
  have "29 / 10 * (29 / 10) \<le> a * a" "a * a \<le> 31 / 10 * (31 / 10)"
    "39 / 10 * (39 / 10) \<le> b * b" "b * b \<le> 41 / 10 * (41 / 10)" by simp_all
  then have "48 / 10 * (48 / 10) \<le> t" "t \<le> 52 / 10 * (52 / 10)" using t by simp_all
  from sqrt_between [OF _ this] have "48 / 10 \<le> sqrt t" "sqrt t \<le> 52 / 10" by simp_all
  then have "47 / 10 \<le> s" "s \<le> 53 / 10" using b by linarith+
  with s show ?thesis by blast
qed

lemma three_four_wind_shear:
  "wind_shear three2 zero2 four2 zero2 (Fin 1)
     = ([Shear_line d_6e3], Inr (Arr (NdArray [2] [d_6e3, d_6e3])))"
proof -
  from three_four_gradients obtain a b where
    g: "gradients three2 zero2 four2 zero2 (Fin 1)
          = Inr (Arr (NdArray [2] [Fin a, Fin a]), Arr (NdArray [2] [Fin b, Fin b]))"
    and ab: "\<bar>a - 3\<bar> \<le> 2 / 100000000" "\<bar>b - 4\<bar> \<le> 2 / 100000000" by blast
  from three_four_magnitude [OF ab] obtain s where
    s: "hypot2 (Fin a) (Fin b) = Fin s" "47 / 10 \<le> s" "s \<le> 53 / 10" by blast
  have mg: "magnitude (Arr (NdArray [2] [Fin a, Fin a])) (Arr (NdArray [2] [Fin b, Fin b]))
      = Inr (Arr (NdArray [2] [Fin s, Fin s]))"
    unfolding magnitude_two s(1) by (rule refl)
  have mx: "np_max (Arr (NdArray [2] [Fin s, Fin s])) = Inr (Fin s)"
    by (simp add: np_max_two np_maximum_def)
  have nn: "\<not> np_isnan_any (Arr (NdArray [2] [Fin s, Fin s]))"
    by (simp add: np_isnan_any_def is_nan_def)
  have "chosen_bucket False (Fin s) = d_6e3" using s(2,3) by (intro chosen_bucket_high) simp_all
  then have cb: "chosen_bucket (np_isnan_any (Arr (NdArray [2] [Fin s, Fin s]))) (Fin s) = d_6e3"
    using nn by simp
  show ?thesis unfolding wind_shear_run [OF g mg mx] cb
    using candidates_distinct by (simp add: overwrite_two)
qed

lemma three_four_wind_shear_normal:
  "wind_shear_normal three2 zero2 four2 zero2 (PyFloat (Fin (2 ^ 1023)))
       (PyFloat (Fin (2 ^ 1023))) (Fin 1)
     = ([Removed_NaN, Normal_shear_line (fneg d_2e3)],
        Inr (Arr (NdArray [2] [fneg d_2e3, fneg d_2e3])))"
proof -
  from three_four_gradients obtain a b where
    g: "gradients three2 zero2 four2 zero2 (Fin 1)
          = Inr (Arr (NdArray [2] [Fin a, Fin a]), Arr (NdArray [2] [Fin b, Fin b]))"
    and ab: "\<bar>a - 3\<bar> \<le> 2 / 100000000" "\<bar>b - 4\<bar> \<le> 2 / 100000000" by blast
  from three_four_magnitude [OF ab] obtain s where
    s: "hypot2 (Fin a) (Fin b) = Fin s" "47 / 10 \<le> s" "s \<le> 53 / 10" by blast
  have mg: "magnitude (Arr (NdArray [2] [Fin a, Fin a])) (Arr (NdArray [2] [Fin b, Fin b]))
      = Inr (Arr (NdArray [2] [Fin s, Fin s]))"
    unfolding magnitude_two s(1) by (rule refl)
  have mx: "np_max (Arr (NdArray [2] [Fin s, Fin s])) = Inr (Fin s)"
    by (simp add: np_max_two np_maximum_def)
  have a2: "2 \<le> a" and b2: "2 \<le> b" using ab by linarith+
  note o = fmul_overflow [OF a2] fmul_overflow [OF b2]
  have n: "normal_gradient (Arr (NdArray [2] [Fin a, Fin a])) (Arr (NdArray [2] [Fin b, Fin b]))
      (PyFloat (Fin (2 ^ 1023))) (PyFloat (Fin (2 ^ 1023))) = Inr nan2"
    unfolding normal_gradient_two o by (simp add: fsub_def)
  have nn: "np_isnan_any nan2" by (simp add: np_isnan_any_def is_nan_def)
  have cb: "chosen_bucket (np_isnan_any nan2) (Fin s) = d_2e3"
    using nn by (simp add: chosen_bucket_def)
  show ?thesis unfolding wind_shear_normal_run [OF g n mg mx] cb
    using nn by (simp add: overwrite_two)
qed

lemma bucket_relation:
  assumes "nd \<longrightarrow> nn"
  shows "chosen_bucket nn m = chosen_bucket nd m
     \<longleftrightarrow> \<not> nn \<or> nd \<or> chosen_bucket False m = d_2e3"
  using assms by (cases nn; cases nd) (auto simp: chosen_bucket_def)

section \<open>The normal shear and the negated shear\<close>

text \<open>
  C9 does not hold as stated. With the finite scalars \<^verbatim>\<open>cos_a = sin_a = 2.0 ** 1023\<close> and the
  winds \<open>(3, 4)\<close> over \<open>(0, 0)\<close> at \<^verbatim>\<open>dz = 1\<close>, both products overflow to \<open>+\<infinity>\<close>, their
  difference \<^verbatim>\<open>dsn_dz\<close> is NaN while \<^verbatim>\<open>ds_dz\<close> is about 5: \<^verbatim>\<open>wind_shear\<close> returns 0.006 and
  \<^verbatim>\<open>wind_shear_normal\<close> returns -0.002.
\<close>

theorem normal_not_negation_counterexample:
  "snd (wind_shear three2 zero2 four2 zero2 (Fin 1)) = Inr (Arr (NdArray [2] [d_6e3, d_6e3]))
   \<and> snd (wind_shear_normal three2 zero2 four2 zero2 (PyFloat (Fin (2 ^ 1023)))
           (PyFloat (Fin (2 ^ 1023))) (Fin 1))
       = Inr (Arr (NdArray [2] [fneg d_2e3, fneg d_2e3]))
   \<and> Arr (NdArray [2] [fneg d_2e3, fneg d_2e3]) \<noteq> py_neg (Arr (NdArray [2] [d_6e3, d_6e3]))"
proof -
  have "fneg d_2e3 \<noteq> fneg d_6e3" using candidates_distinct by (auto simp: fneg_inj)
  then have "Arr (NdArray [2] [fneg d_2e3, fneg d_2e3])
      \<noteq> py_neg (Arr (NdArray [2] [d_6e3, d_6e3]))"
    by (simp add: py_neg_def np_unary_def)
  then show ?thesis using three_four_wind_shear three_four_wind_shear_normal by simp
qed

text \<open>
  C9, amended. Let \<^verbatim>\<open>cos_a\<close> and \<^verbatim>\<open>sin_a\<close> be scalars and let both functions return. The
  result of \<^verbatim>\<open>wind_shear_normal\<close> is the elementwise negation of the result of
  \<^verbatim>\<open>wind_shear\<close> exactly when \<^verbatim>\<open>dsn_dz\<close> holds no NaN, or \<^verbatim>\<open>ds_dz\<close> holds one, or the
  candidate nearest to the maximum of the magnitude is 0.002.
\<close>

theorem normal_is_negation_iff:
  assumes "wf_val u1" "wf_val u2" "wf_val v1" "wf_val v2" "wf_val ca" "wf_val sa"
    and "bshape ca = []" "bshape sa = []"
    and "gradients u1 u2 v1 v2 dz = Inr (du, dv)" and "magnitude du dv = Inr ds"
    and "normal_gradient du dv ca sa = Inr dsn" and "np_max ds = Inr m"
    and "snd (wind_shear u1 u2 v1 v2 dz) = Inr r"
    and "snd (wind_shear_normal u1 u2 v1 v2 ca sa dz) = Inr r'"
  shows "r' = py_neg r
     \<longleftrightarrow> \<not> np_isnan_any dsn \<or> np_isnan_any ds \<or> chosen_bucket False m = d_2e3"
proof -
  from gradients_wf [OF assms(9) assms(1-4)] have w: "wf_val du" "wf_val dv" by simp_all
  have wds: "wf_val ds" by (rule magnitude_facts(1) [OF assms(10) w])
  have wdn: "wf_val dsn" by (rule normal_gradient_facts(1) [OF assms(11) w assms(5,6)])
  define b1 where "b1 = chosen_bucket (np_isnan_any ds) m"
  define b2 where "b2 = chosen_bucket (np_isnan_any dsn) m"
  from assms(13) obtain a ms where o1: "overwrite b1 ds = Inr (a, ms)" and r: "r = Arr a"
    unfolding wind_shear_run [OF assms(9,10,12)] b1_def
    by (cases "overwrite (chosen_bucket (np_isnan_any ds) m) ds") auto
  from assms(14) obtain a' ms' where o2: "overwrite (fneg b2) dsn = Inr (a', ms')"
    and r': "r' = Arr a'"
    unfolding wind_shear_normal_run [OF assms(9,11,10,12)] b2_def
    by (cases "overwrite (fneg (chosen_bucket (np_isnan_any dsn) m)) dsn") auto
  from overwrite_wf [OF wds o1] obtain A where A: "ds = Arr A" "data A \<noteq> []"
    "a = NdArray (shape A) (replicate (length (data A)) b1)" by blast
  from overwrite_wf [OF wdn o2] obtain B where B: "dsn = Arr B" "data B \<noteq> []"
    "a' = NdArray (shape B) (replicate (length (data B)) (fneg b2))" by blast
  from normal_gradient_shape [OF assms(11)] assms(7,8)
  have "broadcast_shapes (bshape dv) (bshape du) = Some (bshape dsn)"
    by (auto simp: broadcast_shapes_Nil2)
  with magnitude_shape [OF assms(10)] have "bshape dsn = bshape ds"
    by (simp add: broadcast_shapes_commute [of "bshape dv"])
  then have sh: "shape B = shape A" using A(1) B(1) by (simp add: bshape_def)
  have "length (data A) = prod_list (shape A)" "length (data B) = prod_list (shape B)"
    using wds wdn A(1) B(1) by (simp_all add: wf_val_def wf_array_def)
  with sh have len: "length (data B) = length (data A)" by simp
  have pos: "0 < length (data A)" using A(2) by simp
  have "r' = py_neg r \<longleftrightarrow> replicate (length (data A)) (fneg b2)
      = replicate (length (data A)) (fneg b1)"
    by (simp add: r r' A(3) B(3) sh len py_neg_def np_unary_def)
  also have "\<dots> \<longleftrightarrow> fneg b2 = fneg b1" using pos by (simp add: replicate_eq_replicate)
  also have "\<dots> \<longleftrightarrow> b2 = b1" by (rule fneg_inj)
  finally have e: "r' = py_neg r \<longleftrightarrow> b2 = b1" .
  have ne: "elems dsn \<noteq> {}" using B(1,2) by (simp add: elems_def)
  have imp: "np_isnan_any ds \<longrightarrow> np_isnan_any dsn"
    using nan_magnitude_nan_normal [OF assms(10,11) w assms(5,6) _ ne]
    by (simp add: np_isnan_any_elems)
  show ?thesis unfolding e b1_def b2_def by (rule bucket_relation [OF imp])
qed

theorem normal_is_negation_iff_witness:
  "wf_val zero2 \<and> wf_val (PyFloat (Fin 1)) \<and> wf_val (PyFloat (Fin 0))
   \<and> bshape (PyFloat (Fin 1)) = [] \<and> bshape (PyFloat (Fin 0)) = []
   \<and> gradients zero2 zero2 zero2 zero2 (Fin 1) = Inr (zero2, zero2)
   \<and> magnitude zero2 zero2 = Inr zero2
   \<and> normal_gradient zero2 zero2 (PyFloat (Fin 1)) (PyFloat (Fin 0)) = Inr zero2
   \<and> np_max zero2 = Inr (Fin 0)
   \<and> snd (wind_shear zero2 zero2 zero2 zero2 (Fin 1)) = Inr (Arr (NdArray [2] [d_2e3, d_2e3]))
   \<and> snd (wind_shear_normal zero2 zero2 zero2 zero2 (PyFloat (Fin 1)) (PyFloat (Fin 0)) (Fin 1))
       = Inr (Arr (NdArray [2] [fneg d_2e3, fneg d_2e3]))
   \<and> \<not> np_isnan_any zero2
   \<and> Arr (NdArray [2] [fneg d_2e3, fneg d_2e3]) = py_neg (Arr (NdArray [2] [d_2e3, d_2e3]))"
proof -
  have w: "wf_val zero2" "wf_val (PyFloat (Fin 1))" "wf_val (PyFloat (Fin 0))"
    by (simp_all add: wf_val_def wf_array_def)
  have b: "bshape (PyFloat (Fin 1)) = []" "bshape (PyFloat (Fin 0)) = []"
    by (simp_all add: bshape_float)
  have nn: "\<not> np_isnan_any zero2" by (simp add: np_isnan_any_def is_nan_def)
  have r: "snd (wind_shear zero2 zero2 zero2 zero2 (Fin 1))
      = Inr (Arr (NdArray [2] [d_2e3, d_2e3]))"
    by (simp add: wind_shear_zero2)
  have r': "snd (wind_shear_normal zero2 zero2 zero2 zero2 (PyFloat (Fin 1)) (PyFloat (Fin 0))
      (Fin 1)) = Inr (Arr (NdArray [2] [fneg d_2e3, fneg d_2e3]))"
    by (simp add: wind_shear_normal_zero2)
  from normal_is_negation_iff [OF w(1) w(1) w(1) w(1) w(2) w(3) b gradients_zero2
      magnitude_zero2 normal_gradient_zero2 np_max_zero2 r r'] nn
  have "Arr (NdArray [2] [fneg d_2e3, fneg d_2e3]) = py_neg (Arr (NdArray [2] [d_2e3, d_2e3]))"
    by blast
  with w b nn r r' gradients_zero2 magnitude_zero2 normal_gradient_zero2 np_max_zero2
  show ?thesis by simp
qed

section \<open>Evaluation of the worked example\<close>

text \<open>The winds \<open>u = (5, 10)\<close>, \<open>v = (0, 0)\<close> over a still level, 1000 m apart.\<close>

lemma example_gradients:
  "\<exists>a1 a2. gradients u510 zero2 zero2 zero2 (Fin 1000)
             = Inr (Arr (NdArray [2] [Fin a1, Fin a2]), zero2)
         \<and> \<bar>a1 - 5 / 1000\<bar> \<le> 2 / 100000000 \<and> \<bar>a2 - 10 / 1000\<bar> \<le> 2 / 100000000"
proof -
  obtain a1 where a1: "fdiv (fsub (Fin 5) (Fin 0)) (Fin 1000) = Fin a1"
    "\<bar>a1 - 5 / 1000\<bar> \<le> 2 / 100000000"
    using gradient_close [of 5 1000] by auto
  obtain a2 where a2: "fdiv (fsub (Fin 10) (Fin 0)) (Fin 1000) = Fin a2"
    "\<bar>a2 - 10 / 1000\<bar> \<le> 2 / 100000000"
    using gradient_close [of 10 1000] by auto
  have z: "fdiv (fsub (Fin 0) (Fin 0)) (Fin 1000) = Fin 0" by (rule gradient_zero) simp
  have "gradients u510 zero2 zero2 zero2 (Fin 1000)
      = Inr (Arr (NdArray [2] [Fin a1, Fin a2]), zero2)"
    unfolding gradients_two a1(1) a2(1) z by (rule refl)
  with a1(2) a2(2) show ?thesis by blast
qed

lemma example_magnitude_low:
  assumes "\<bar>a - 5 / 1000\<bar> \<le> 2 / 100000000"
  shows "\<exists>s. hypot2 (Fin a) (Fin 0) = Fin s \<and> \<bar>s - 5 / 1000\<bar> \<le> 1 / 100000"
proof -
  have "\<bar>a\<bar> \<le> 100" using assms by linarith
  moreover have "\<bar>0::real\<bar> \<le> 100" by simp
  ultimately obtain t s where s: "hypot2 (Fin a) (Fin 0) = Fin s"
    and t: "a * a + 0 * 0 - 3 / 100000000 \<le> t" "t \<le> a * a + 0 * 0 + 3 / 100000000"
    and b: "sqrt t - 1 / 100000000 \<le> s" "s \<le> sqrt t + 1 / 100000000"
    using hypot2_close [of a 0] by blast
  have "49999 / 10000000 \<le> a" "a \<le> 50001 / 10000000" using assms by linarith+
  from square_between [of "49999 / 10000000" a "50001 / 10000000"] this
  have "49999 / 10000000 * (49999 / 10000000) \<le> a * a"
    "a * a \<le> 50001 / 10000000 * (50001 / 10000000)" by simp_all
  then have "4991 / 1000000 * (4991 / 1000000) \<le> t" "t \<le> 5009 / 1000000 * (5009 / 1000000)"
    using t by simp_all
  from sqrt_between [OF _ this] have "4991 / 1000000 \<le> sqrt t" "sqrt t \<le> 5009 / 1000000"
    by simp_all
  then have "\<bar>s - 5 / 1000\<bar> \<le> 1 / 100000" using b by linarith
  with s show ?thesis by blast
qed

lemma example_magnitude_high:
  assumes "\<bar>a - 10 / 1000\<bar> \<le> 2 / 100000000"
  shows "\<exists>s. hypot2 (Fin a) (Fin 0) = Fin s \<and> \<bar>s - 10 / 1000\<bar> \<le> 1 / 100000"
proof -
  have "\<bar>a\<bar> \<le> 100" using assms by linarith
  moreover have "\<bar>0::real\<bar> \<le> 100" by simp
  ultimately obtain t s where s: "hypot2 (Fin a) (Fin 0) = Fin s"
    and t: "a * a + 0 * 0 - 3 / 100000000 \<le> t" "t \<le> a * a + 0 * 0 + 3 / 100000000"
    and b: "sqrt t - 1 / 100000000 \<le> s" "s \<le> sqrt t + 1 / 100000000"
    using hypot2_close [of a 0] by blast
  have "99999 / 10000000 \<le> a" "a \<le> 100001 / 10000000" using assms by linarith+
  from square_between [of "99999 / 10000000" a "100001 / 10000000"] this
  have "99999 / 10000000 * (99999 / 10000000) \<le> a * a"
    "a * a \<le> 100001 / 10000000 * (100001 / 10000000)" by simp_all
  then have "9991 / 1000000 * (9991 / 1000000) \<le> t" "t \<le> 10009 / 1000000 * (10009 / 1000000)"
    using t by simp_all
  from sqrt_between [OF _ this] have "9991 / 1000000 \<le> sqrt t" "sqrt t \<le> 10009 / 1000000"
    by simp_all
  then have "\<bar>s - 10 / 1000\<bar> \<le> 1 / 100000" using b by linarith
  with s show ?thesis by blast
qed

lemma example_stages:
  "\<exists>a1 a2 s1 s2.
       gradients u510 zero2 zero2 zero2 (Fin 1000)
         = Inr (Arr (NdArray [2] [Fin a1, Fin a2]), zero2)
     \<and> \<bar>a1 - 5 / 1000\<bar> \<le> 2 / 100000000 \<and> \<bar>a2 - 10 / 1000\<bar> \<le> 2 / 100000000
     \<and> magnitude (Arr (NdArray [2] [Fin a1, Fin a2])) zero2
         = Inr (Arr (NdArray [2] [Fin s1, Fin s2]))
     \<and> \<bar>s1 - 5 / 1000\<bar> \<le> 1 / 100000 \<and> \<bar>s2 - 10 / 1000\<bar> \<le> 1 / 100000
     \<and> np_max (Arr (NdArray [2] [Fin s1, Fin s2])) = Inr (Fin s2)
     \<and> normal_gradient (Arr (NdArray [2] [Fin a1, Fin a2])) zero2
          (PyFloat (Fin 1)) (PyFloat (Fin 0)) = Inr zero2"
proof -
  from example_gradients obtain a1 a2 where
    g: "gradients u510 zero2 zero2 zero2 (Fin 1000)
          = Inr (Arr (NdArray [2] [Fin a1, Fin a2]), zero2)"
    and a: "\<bar>a1 - 5 / 1000\<bar> \<le> 2 / 100000000" "\<bar>a2 - 10 / 1000\<bar> \<le> 2 / 100000000" by blast
  from example_magnitude_low [OF a(1)] obtain s1 where
    s1: "hypot2 (Fin a1) (Fin 0) = Fin s1" "\<bar>s1 - 5 / 1000\<bar> \<le> 1 / 100000" by blast
  from example_magnitude_high [OF a(2)] obtain s2 where
    s2: "hypot2 (Fin a2) (Fin 0) = Fin s2" "\<bar>s2 - 10 / 1000\<bar> \<le> 1 / 100000" by blast
  have mg: "magnitude (Arr (NdArray [2] [Fin a1, Fin a2])) zero2
      = Inr (Arr (NdArray [2] [Fin s1, Fin s2]))"
    unfolding magnitude_two s1(1) s2(1) by (rule refl)
  have "s1 < s2" using s1(2) s2(2) by linarith
  then have mx: "np_max (Arr (NdArray [2] [Fin s1, Fin s2])) = Inr (Fin s2)"
    by (simp add: np_max_two np_maximum_def is_nan_def)
  have n: "normal_gradient (Arr (NdArray [2] [Fin a1, Fin a2])) zero2
      (PyFloat (Fin 1)) (PyFloat (Fin 0)) = Inr zero2"
    unfolding normal_gradient_two by (simp add: fsub_def round64_def)
  from g a mg s1(2) s2(2) mx n show ?thesis by blast
qed

lemma example_distances:
  assumes "\<bar>s - 10 / 1000\<bar> \<le> 1 / 100000"
  shows "\<exists>e2 e4 e6. distance_row (Fin s) = [Fin e2, Fin e4, Fin e6]
           \<and> \<bar>e2 - 8 / 1000\<bar> \<le> 2 / 100000 \<and> \<bar>e4 - 6 / 1000\<bar> \<le> 2 / 100000
           \<and> \<bar>e6 - 4 / 1000\<bar> \<le> 2 / 100000"
proof -
  have "\<bar>s\<bar> \<le> 100000" using assms by linarith
  from distance_row_finite [OF this] obtain v2 v4 v6 a b c where
    v: "\<bar>v2 - 2 / 1000\<bar> \<le> 1 / 100000000" "\<bar>v4 - 4 / 1000\<bar> \<le> 1 / 100000000"
      "\<bar>v6 - 6 / 1000\<bar> \<le> 1 / 100000000"
    and r: "distance_row (Fin s) = [Fin a, Fin b, Fin c]"
    and e: "\<bar>v2 - s\<bar> - 1 / 100000000 \<le> a \<and> a \<le> \<bar>v2 - s\<bar> + 1 / 100000000"
      "\<bar>v4 - s\<bar> - 1 / 100000000 \<le> b \<and> b \<le> \<bar>v4 - s\<bar> + 1 / 100000000"
      "\<bar>v6 - s\<bar> - 1 / 100000000 \<le> c \<and> c \<le> \<bar>v6 - s\<bar> + 1 / 100000000" by blast
  have "\<bar>a - 8 / 1000\<bar> \<le> 2 / 100000" using assms v(1) e(1) by linarith
  moreover have "\<bar>b - 6 / 1000\<bar> \<le> 2 / 100000" using assms v(2) e(2) by linarith
  moreover have "\<bar>c - 4 / 1000\<bar> \<le> 2 / 100000" using assms v(3) e(3) by linarith
  ultimately show ?thesis using r by blast
qed

section \<open>The worked example\<close>

text \<open>
  C6. On \<^verbatim>\<open>u_wind_top = [5, 10]\<close>, the three other winds \<^verbatim>\<open>[0, 0]\<close> and \<^verbatim>\<open>dz = 1000\<close>,
  \<^verbatim>\<open>wind_shear\<close> returns \<^verbatim>\<open>[0.006, 0.006]\<close>, and with \<^verbatim>\<open>cos_a = 1\<close>, \<^verbatim>\<open>sin_a = 0\<close>
  \<^verbatim>\<open>wind_shear_normal\<close> returns \<^verbatim>\<open>[-0.006, -0.006]\<close>; each prints its diagnostic line. The
  stages are, up to rounding in doubles: \<^verbatim>\<open>du_dz = [0.005, 0.01]\<close>, \<^verbatim>\<open>dv_dz = [0, 0]\<close>,
  \<^verbatim>\<open>ds_dz = [0.005, 0.01]\<close>, the maximum 0.01 (the second element of \<^verbatim>\<open>ds_dz\<close>), the
  distances 0.008, 0.006, 0.004, and \<^verbatim>\<open>dsn_dz = [0, 0]\<close>, which holds no NaN.
\<close>

theorem worked_example:
  "wind_shear u510 zero2 zero2 zero2 (Fin 1000)
     = ([Shear_line d_6e3], Inr (Arr (NdArray [2] [d_6e3, d_6e3])))
   \<and> wind_shear_normal u510 zero2 zero2 zero2 (PyFloat (Fin 1)) (PyFloat (Fin 0)) (Fin 1000)
     = ([Normal_shear_line (fneg d_6e3)], Inr (Arr (NdArray [2] [fneg d_6e3, fneg d_6e3])))
   \<and> (\<exists>a1 a2 s1 s2 e2 e4 e6 v6.
         gradients u510 zero2 zero2 zero2 (Fin 1000)
           = Inr (Arr (NdArray [2] [Fin a1, Fin a2]), zero2)
       \<and> \<bar>a1 - 5 / 1000\<bar> \<le> 2 / 100000000 \<and> \<bar>a2 - 10 / 1000\<bar> \<le> 2 / 100000000
       \<and> magnitude (Arr (NdArray [2] [Fin a1, Fin a2])) zero2
           = Inr (Arr (NdArray [2] [Fin s1, Fin s2]))
       \<and> \<bar>s1 - 5 / 1000\<bar> \<le> 1 / 100000 \<and> \<bar>s2 - 10 / 1000\<bar> \<le> 1 / 100000
       \<and> np_max (Arr (NdArray [2] [Fin s1, Fin s2])) = Inr (Fin s2)
       \<and> distance_row (Fin s2) = [Fin e2, Fin e4, Fin e6]
       \<and> \<bar>e2 - 8 / 1000\<bar> \<le> 2 / 100000 \<and> \<bar>e4 - 6 / 1000\<bar> \<le> 2 / 100000
       \<and> \<bar>e6 - 4 / 1000\<bar> \<le> 2 / 100000
       \<and> choose_shear (Fin s2) = Inr d_6e3
       \<and> normal_gradient (Arr (NdArray [2] [Fin a1, Fin a2])) zero2
            (PyFloat (Fin 1)) (PyFloat (Fin 0)) = Inr zero2
       \<and> \<not> np_isnan_any zero2
       \<and> d_6e3 = Fin v6 \<and> \<bar>v6 - 6 / 1000\<bar> \<le> 1 / 100000000)"
proof -
  from example_stages obtain a1 a2 s1 s2 where
    g: "gradients u510 zero2 zero2 zero2 (Fin 1000)
          = Inr (Arr (NdArray [2] [Fin a1, Fin a2]), zero2)"
    and a: "\<bar>a1 - 5 / 1000\<bar> \<le> 2 / 100000000" "\<bar>a2 - 10 / 1000\<bar> \<le> 2 / 100000000"
    and mg: "magnitude (Arr (NdArray [2] [Fin a1, Fin a2])) zero2
          = Inr (Arr (NdArray [2] [Fin s1, Fin s2]))"
    and s: "\<bar>s1 - 5 / 1000\<bar> \<le> 1 / 100000" "\<bar>s2 - 10 / 1000\<bar> \<le> 1 / 100000"
    and mx: "np_max (Arr (NdArray [2] [Fin s1, Fin s2])) = Inr (Fin s2)"
    and n: "normal_gradient (Arr (NdArray [2] [Fin a1, Fin a2])) zero2
          (PyFloat (Fin 1)) (PyFloat (Fin 0)) = Inr zero2" by blast
  from example_distances [OF s(2)] obtain e2 e4 e6 where
    e: "distance_row (Fin s2) = [Fin e2, Fin e4, Fin e6]"
      "\<bar>e2 - 8 / 1000\<bar> \<le> 2 / 100000" "\<bar>e4 - 6 / 1000\<bar> \<le> 2 / 100000"
      "\<bar>e6 - 4 / 1000\<bar> \<le> 2 / 100000" by blast
  from shear_option_values obtain v6 where
    v: "d_6e3 = Fin v6" "\<bar>v6 - 6 / 1000\<bar> \<le> 1 / 100000000" by blast
  have b: "51 / 10000 \<le> s2" "s2 \<le> 100000" using s(2) by linarith+
  have cs: "choose_shear (Fin s2) = Inr d_6e3" using b by (rule choose_shear_high)
  have c: "chosen_bucket False (Fin s2) = d_6e3" using b by (rule chosen_bucket_high)
  have nn: "\<not> np_isnan_any (Arr (NdArray [2] [Fin s1, Fin s2]))"
    by (simp add: np_isnan_any_def is_nan_def)
  have nz: "\<not> np_isnan_any zero2" by (simp add: np_isnan_any_def is_nan_def)
  have cb: "chosen_bucket (np_isnan_any (Arr (NdArray [2] [Fin s1, Fin s2]))) (Fin s2) = d_6e3"
    using nn c by simp
  have cz: "chosen_bucket (np_isnan_any zero2) (Fin s2) = d_6e3" using nz c by simp
  have 1: "wind_shear u510 zero2 zero2 zero2 (Fin 1000)
      = ([Shear_line d_6e3], Inr (Arr (NdArray [2] [d_6e3, d_6e3])))"
    unfolding wind_shear_run [OF g mg mx] cb
    using candidates_distinct by (simp add: overwrite_two)
  have 2: "wind_shear_normal u510 zero2 zero2 zero2 (PyFloat (Fin 1)) (PyFloat (Fin 0))
      (Fin 1000)
      = ([Normal_shear_line (fneg d_6e3)], Inr (Arr (NdArray [2] [fneg d_6e3, fneg d_6e3])))"
    unfolding wind_shear_normal_run [OF g n mg mx] cz
    using candidates_distinct nz by (simp add: overwrite_two)
  from g a mg s mx e cs n nz v have "\<exists>a1 a2 s1 s2 e2 e4 e6 v6.
         gradients u510 zero2 zero2 zero2 (Fin 1000)
           = Inr (Arr (NdArray [2] [Fin a1, Fin a2]), zero2)
       \<and> \<bar>a1 - 5 / 1000\<bar> \<le> 2 / 100000000 \<and> \<bar>a2 - 10 / 1000\<bar> \<le> 2 / 100000000
       \<and> magnitude (Arr (NdArray [2] [Fin a1, Fin a2])) zero2
           = Inr (Arr (NdArray [2] [Fin s1, Fin s2]))
       \<and> \<bar>s1 - 5 / 1000\<bar> \<le> 1 / 100000 \<and> \<bar>s2 - 10 / 1000\<bar> \<le> 1 / 100000
       \<and> np_max (Arr (NdArray [2] [Fin s1, Fin s2])) = Inr (Fin s2)
       \<and> distance_row (Fin s2) = [Fin e2, Fin e4, Fin e6]
       \<and> \<bar>e2 - 8 / 1000\<bar> \<le> 2 / 100000 \<and> \<bar>e4 - 6 / 1000\<bar> \<le> 2 / 100000
       \<and> \<bar>e6 - 4 / 1000\<bar> \<le> 2 / 100000
       \<and> choose_shear (Fin s2) = Inr d_6e3
       \<and> normal_gradient (Arr (NdArray [2] [Fin a1, Fin a2])) zero2
            (PyFloat (Fin 1)) (PyFloat (Fin 0)) = Inr zero2
       \<and> \<not> np_isnan_any zero2
       \<and> d_6e3 = Fin v6 \<and> \<bar>v6 - 6 / 1000\<bar> \<le> 1 / 100000000" by blast
  with 1 2 show ?thesis by (intro conjI)
qed

theorem worked_example_witness:
  "snd (wind_shear u510 zero2 zero2 zero2 (Fin 1000))
     = Inr (Arr (NdArray [2] [d_6e3, d_6e3]))
   \<and> snd (wind_shear_normal u510 zero2 zero2 zero2 (PyFloat (Fin 1)) (PyFloat (Fin 0))
           (Fin 1000))
     = Inr (Arr (NdArray [2] [fneg d_6e3, fneg d_6e3]))"
  using worked_example by simp

section \<open>Facts about a large magnitude\<close>

lemma rne_of_int: "rne (of_int k) = k"
  by (simp add: rne_def)

lemma round64_pow2:
  fixes n :: nat
  assumes "n < 1024"
  shows "round64 (2 ^ n) = Fin (2 ^ n)"
proof -
  have fl: "\<lfloor>log 2 \<bar>(2::real) ^ n\<bar>\<rfloor> = int n" by simp
  have "max (int n) (- 1022) = int n" by simp
  then have q: "quantum (2 ^ n) = 2 powr (real n - 52)" by (simp add: quantum_def fl)
  have p: "(2::real) ^ n = 2 powr real n" by (simp add: powr_realpow)
  have "2 powr real n / 2 powr (real n - 52) = (2::real) powr 52" by (simp flip: powr_diff)
  also have "\<dots> = 2 ^ 52" by (simp add: powr_numeral)
  finally have c: "2 powr real n / 2 powr (real n - 52) = (2::real) ^ 52" .
  have d: "2 ^ n / quantum (2 ^ n) = (2::real) ^ 52"
    by (simp only: q, simp only: p, rule c)
  have "(2::real) ^ 52 = of_int (2 ^ 52)" by simp
  then have r: "rne (2 ^ n / quantum (2 ^ n)) = 2 ^ 52" unfolding d by (simp only: rne_of_int)
  have "2 powr (real n - 52) * (2::real) powr 52 = 2 powr (real n - 52 + 52)"
    by (rule powr_add [symmetric])
  then have m: "2 powr (real n - 52) * (2::real) powr 52 = 2 powr real n" by simp
  have v: "quantum (2 ^ n) * of_int (rne (2 ^ n / quantum (2 ^ n))) = 2 ^ n"
    apply (simp only: r)
    apply (simp only: q)
    apply (simp only: p)
    using m by (simp add: powr_numeral)
  have "(2::real) ^ n < 2 ^ 1024" using assms by (intro power_strict_increasing) simp_all
  then have "\<not> 2 ^ 1024 \<le> \<bar>(2::real) ^ n\<bar>" by simp
  then show ?thesis unfolding round64_def Let_def v by simp
qed

lemma round64_below_big:
  assumes "0 < v" "v \<le> 1"
  shows "round64 (v + - (2 ^ 60)) = Fin (- (2 ^ 60))"
proof -
  define r where "r = v + - (2 ^ 60)"
  have a: "\<bar>r\<bar> = 2 ^ 60 - v" using assms by (simp add: r_def)
  have lo: "2 powr 59 \<le> \<bar>r\<bar>" using assms unfolding a by (simp add: powr_numeral)
  have hi: "\<bar>r\<bar> < 2 powr 60" using assms unfolding a by (simp add: powr_numeral)
  have pos: "0 < \<bar>r\<bar>" using assms unfolding a by simp
  have "59 \<le> log 2 \<bar>r\<bar>" using lo pos by (simp add: le_log_iff)
  moreover have "log 2 \<bar>r\<bar> < 60" using hi pos by (simp add: log_less_iff)
  ultimately have "\<lfloor>log 2 \<bar>r\<bar>\<rfloor> = 59" by (simp add: floor_eq_iff)
  then have q: "quantum r = 128" by (simp add: quantum_def powr_numeral)
  have x: "r / 128 = v / 128 + - (2 ^ 53)" by (simp add: r_def)
  have "\<lfloor>v / 128 + - (2 ^ 53)\<rfloor> = - (2 ^ 53)" using assms by (simp add: floor_eq_iff)
  then have "rne (v / 128 + - (2 ^ 53)) = - (2 ^ 53)" using assms by (simp add: rne_def)
  then have w: "quantum r * of_int (rne (r / quantum r)) = - (2 ^ 60)" by (simp add: q x)
  have "r \<noteq> 0" using pos by auto
  then have "round64 r = Fin (- (2 ^ 60))" unfolding round64_def Let_def w by simp
  then show ?thesis by (simp add: r_def)
qed

lemma distance_row_big:
  "distance_row (Fin (2 ^ 60)) = [Fin (2 ^ 60), Fin (2 ^ 60), Fin (2 ^ 60)]"
proof -
  from shear_option_values obtain v2 v4 v6 where
    d: "d_2e3 = Fin v2" "d_4e3 = Fin v4" "d_6e3 = Fin v6"
    and v: "\<bar>v2 - 2 / 1000\<bar> \<le> 1 / 100000000" "\<bar>v4 - 4 / 1000\<bar> \<le> 1 / 100000000"
      "\<bar>v6 - 6 / 1000\<bar> \<le> 1 / 100000000" by blast
  have e: "fabs (fsub (Fin w) (Fin (2 ^ 60))) = Fin (2 ^ 60)" if "0 < w" "w \<le> 1" for w
    using round64_below_big [OF that] by (simp add: fsub_def)
  have "fabs (fsub (Fin v2) (Fin (2 ^ 60))) = Fin (2 ^ 60)"
    by (rule e) (use v in linarith)+
  moreover have "fabs (fsub (Fin v4) (Fin (2 ^ 60))) = Fin (2 ^ 60)"
    by (rule e) (use v in linarith)+
  moreover have "fabs (fsub (Fin v6) (Fin (2 ^ 60))) = Fin (2 ^ 60)"
    by (rule e) (use v in linarith)+
  ultimately show ?thesis unfolding distance_row_def shear_options_def d by simp
qed

lemma chosen_bucket_big: "chosen_bucket False (Fin (2 ^ 60)) = d_2e3"
proof -
  have "np_argmin (distance_row (Fin (2 ^ 60))) = Inr 0"
    unfolding distance_row_big by (simp add: np_argmin_three)
  then show ?thesis
    by (simp add: chosen_bucket_def choose_shear_direct_def bind_res_def getitem_def
        shear_options_def)
qed

lemma gradients_big2: "gradients big2 zero2 zero2 zero2 (Fin 1) = Inr (big2, zero2)"
proof -
  have a: "fdiv (fsub (Fin (2 ^ 60)) (Fin 0)) (Fin 1) = Fin (2 ^ 60)"
    using round64_pow2 [of 60] by (simp add: fsub_def)
  have z: "fdiv (fsub (Fin 0) (Fin 0)) (Fin 1) = Fin 0" by (rule gradient_zero) simp
  show ?thesis unfolding gradients_two a z by (rule refl)
qed

lemma hypot2_big: "hypot2 (Fin (2 ^ 60)) (Fin 0) = Fin (2 ^ 60)"
proof -
  have m1: "fmul (Fin (2 ^ 60)) (Fin (2 ^ 60)) = Fin (2 ^ 120)"
    using round64_pow2 [of 120] by simp
  have m2: "fmul (Fin 0) (Fin 0) = Fin 0" by (simp add: round64_def)
  have m3: "fadd (Fin (2 ^ 120)) (Fin 0) = Fin (2 ^ 120)" using round64_pow2 [of 120] by simp
  have "((2::real) ^ 60)\<^sup>2 = 2 ^ 120" by simp
  then have s: "sqrt (2 ^ 120) = (2::real) ^ 60" by (intro real_sqrt_unique) simp_all
  have m4: "fsqrt (Fin (2 ^ 120)) = Fin (2 ^ 60)"
    using round64_pow2 [of 60] s by simp
  show ?thesis unfolding hypot2_def m1 m2 m3 m4 by (rule refl)
qed

lemma magnitude_big2: "magnitude big2 zero2 = Inr big2"
  unfolding magnitude_two hypot2_big by (rule refl)

lemma np_max_big2: "np_max big2 = Inr (Fin (2 ^ 60))"
  by (simp add: np_max_two np_maximum_def)

lemma wind_shear_big2:
  "wind_shear big2 zero2 zero2 zero2 (Fin 1) = ([], Inr (Arr (NdArray [2] [d_2e3, d_2e3])))"
proof -
  have nn: "\<not> np_isnan_any big2" by (simp add: np_isnan_any_def is_nan_def)
  have cb: "chosen_bucket (np_isnan_any big2) (Fin (2 ^ 60)) = d_2e3"
    using nn chosen_bucket_big by simp
  show ?thesis unfolding wind_shear_run [OF gradients_big2 magnitude_big2 np_max_big2] cb
    using nn by (simp add: overwrite_two)
qed

lemma spec_bucket_big: "spec_bucket (2 ^ 60) = d_6e3"
  by (simp add: spec_bucket_def)

section \<open>Facts about the magnitude of arrays of one shape\<close>

lemma magnitude_same_shape:
  assumes "length xs = prod_list s" "length ys = prod_list s"
  shows "magnitude (Arr (NdArray s xs)) (Arr (NdArray s ys))
     = Inr (Arr (NdArray s (map2 (\<lambda>x y. fsqrt (fadd (fmul x x) (fmul y y))) xs ys)))"
proof -
  have wa: "wf_array (NdArray s (map (\<lambda>x. fmul x x) xs))"
    and wb: "wf_array (NdArray s (map (\<lambda>x. fmul x x) ys))"
    using assms by (simp_all add: wf_array_def)
  have "np_binary fadd (NdArray s (map (\<lambda>x. fmul x x) xs)) (NdArray s (map (\<lambda>x. fmul x x) ys))
      = Inr (NdArray s (map2 fadd (map (\<lambda>x. fmul x x) xs) (map (\<lambda>x. fmul x x) ys)))"
    using broadcast_to_same [OF wa] broadcast_to_same [OF wb]
    by (simp add: np_binary_def broadcast_shapes_same)
  moreover have "map fsqrt (map2 fadd (map (\<lambda>x. fmul x x) xs) (map (\<lambda>x. fmul x x) ys))
      = map2 (\<lambda>x y. fsqrt (fadd (fmul x x) (fmul y y))) xs ys"
    by (auto simp: zip_map_map)
  ultimately show ?thesis
    by (simp add: magnitude_def bind_res_def py_add_def py_apply_def np_unary_def)
qed

text \<open>The worked example, run.\<close>

lemma example_run:
  "\<exists>a1 a2 s1 s2.
       gradients u510 zero2 zero2 zero2 (Fin 1000)
         = Inr (Arr (NdArray [2] [Fin a1, Fin a2]), zero2)
     \<and> magnitude (Arr (NdArray [2] [Fin a1, Fin a2])) zero2
         = Inr (Arr (NdArray [2] [Fin s1, Fin s2]))
     \<and> np_max (Arr (NdArray [2] [Fin s1, Fin s2])) = Inr (Fin s2)
     \<and> normal_gradient (Arr (NdArray [2] [Fin a1, Fin a2])) zero2
          (PyFloat (Fin 1)) (PyFloat (Fin 0)) = Inr zero2
     \<and> wind_shear u510 zero2 zero2 zero2 (Fin 1000)
         = ([Shear_line d_6e3], Inr (Arr (NdArray [2] [d_6e3, d_6e3])))
     \<and> wind_shear_normal u510 zero2 zero2 zero2 (PyFloat (Fin 1)) (PyFloat (Fin 0)) (Fin 1000)
         = ([Normal_shear_line (fneg d_6e3)],
            Inr (Arr (NdArray [2] [fneg d_6e3, fneg d_6e3])))"
proof -
  from example_stages obtain a1 a2 s1 s2 where
    g: "gradients u510 zero2 zero2 zero2 (Fin 1000)
          = Inr (Arr (NdArray [2] [Fin a1, Fin a2]), zero2)"
    and mg: "magnitude (Arr (NdArray [2] [Fin a1, Fin a2])) zero2
          = Inr (Arr (NdArray [2] [Fin s1, Fin s2]))"
    and s: "\<bar>s2 - 10 / 1000\<bar> \<le> 1 / 100000"
    and mx: "np_max (Arr (NdArray [2] [Fin s1, Fin s2])) = Inr (Fin s2)"
    and n: "normal_gradient (Arr (NdArray [2] [Fin a1, Fin a2])) zero2
          (PyFloat (Fin 1)) (PyFloat (Fin 0)) = Inr zero2" by blast
  have b: "51 / 10000 \<le> s2" "s2 \<le> 100000" using s by linarith+
  have c: "chosen_bucket False (Fin s2) = d_6e3" using b by (rule chosen_bucket_high)
  have nn: "\<not> np_isnan_any (Arr (NdArray [2] [Fin s1, Fin s2]))"
    by (simp add: np_isnan_any_def is_nan_def)
  have nz: "\<not> np_isnan_any zero2" by (simp add: np_isnan_any_def is_nan_def)
  have cb: "chosen_bucket (np_isnan_any (Arr (NdArray [2] [Fin s1, Fin s2]))) (Fin s2) = d_6e3"
    using nn c by simp
  have cz: "chosen_bucket (np_isnan_any zero2) (Fin s2) = d_6e3" using nz c by simp
  have 1: "wind_shear u510 zero2 zero2 zero2 (Fin 1000)
      = ([Shear_line d_6e3], Inr (Arr (NdArray [2] [d_6e3, d_6e3])))"
    unfolding wind_shear_run [OF g mg mx] cb
    using candidates_distinct by (simp add: overwrite_two)
  have 2: "wind_shear_normal u510 zero2 zero2 zero2 (PyFloat (Fin 1)) (PyFloat (Fin 0))
      (Fin 1000)
      = ([Normal_shear_line (fneg d_6e3)], Inr (Arr (NdArray [2] [fneg d_6e3, fneg d_6e3])))"
    unfolding wind_shear_normal_run [OF g n mg mx] cz
    using candidates_distinct nz by (simp add: overwrite_two)
  from g mg mx n 1 2 show ?thesis by blast
qed

section \<open>The chosen bucket is the nearest candidate\<close>

text \<open>
  C3 does not hold in real arithmetic. With \<^verbatim>\<open>u_wind_top = [2.0 ** 60, 2.0 ** 60]\<close>, the
  other winds \<^verbatim>\<open>[0, 0]\<close> and \<^verbatim>\<open>dz = 1\<close>, the magnitude holds no NaN and its maximum is
  \<open>M = 2\<^sup>6\<^sup>0\<close>. The candidate nearest to \<open>M\<close> is 0.006, but the three distances, computed in
  doubles, are all \<open>2\<^sup>6\<^sup>0\<close>, and \<^verbatim>\<open>wind_shear\<close> returns 0.002.
\<close>

theorem nearest_in_reals_counterexample:
  "gradients big2 zero2 zero2 zero2 (Fin 1) = Inr (big2, zero2)
   \<and> magnitude big2 zero2 = Inr big2 \<and> \<not> np_isnan_any big2
   \<and> np_max big2 = Inr (Fin (2 ^ 60))
   \<and> distance_row (Fin (2 ^ 60)) = [Fin (2 ^ 60), Fin (2 ^ 60), Fin (2 ^ 60)]
   \<and> snd (wind_shear big2 zero2 zero2 zero2 (Fin 1)) = Inr (Arr (NdArray [2] [d_2e3, d_2e3]))
   \<and> spec_bucket (2 ^ 60) = d_6e3 \<and> d_2e3 \<noteq> d_6e3"
proof -
  have "\<not> np_isnan_any big2" by (simp add: np_isnan_any_def is_nan_def)
  moreover have "d_2e3 \<noteq> d_6e3" using candidates_distinct by auto
  moreover have "snd (wind_shear big2 zero2 zero2 zero2 (Fin 1))
      = Inr (Arr (NdArray [2] [d_2e3, d_2e3]))"
    unfolding wind_shear_big2 by simp
  moreover note gradients_big2 magnitude_big2 np_max_big2 distance_row_big spec_bucket_big
  ultimately show ?thesis by (intro conjI)
qed

text \<open>
  C3, amended. When the governing gradient array (\<^verbatim>\<open>ds_dz\<close> for \<^verbatim>\<open>wind_shear\<close>, \<^verbatim>\<open>dsn_dz\<close>
  for \<^verbatim>\<open>wind_shear_normal\<close>) holds no NaN, the result is filled with the candidate \<open>b\<close> (its
  negative for the normal variant) of the least distance \<^verbatim>\<open>np.abs(b - M)\<close>, the distance
  being the double that the code computes; among candidates of the same least computed
  distance the first is taken, and the candidates, the doubles 0.002, 0.004, 0.006, are in
  increasing order. In both functions \<open>M\<close> is the maximum of the magnitude array \<^verbatim>\<open>ds_dz\<close>:
  an element of it that is at least every element. On arrays of one dimension or more each
  element of \<^verbatim>\<open>ds_dz\<close> is \<open>sqrt (x * x + y * y)\<close>, in doubles, for elements \<open>x\<close> of \<^verbatim>\<open>du_dz\<close>
  and \<open>y\<close> of \<^verbatim>\<open>dv_dz\<close>, taken at the same index when the two arrays have one shape.
\<close>

theorem chosen_bucket_is_nearest:
  assumes "wf_val u1" "wf_val u2" "wf_val v1" "wf_val v2" "wf_val ca" "wf_val sa"
    and "gradients u1 u2 v1 v2 dz = Inr (du, dv)" and "magnitude du dv = Inr ds"
    and "np_max ds = Inr m"
  shows "(snd (wind_shear u1 u2 v1 v2 dz) = Inr r \<and> \<not> np_isnan_any ds \<longrightarrow>
           (\<exists>i a. nearest m i \<and> r = Arr a \<and> data a \<noteq> []
              \<and> (\<forall>x\<in>set (data a). x = shear_options ! i)))
       \<and> (snd (wind_shear_normal u1 u2 v1 v2 ca sa dz) = Inr r'
            \<and> normal_gradient du dv ca sa = Inr dsn \<and> \<not> np_isnan_any dsn \<longrightarrow>
           (\<exists>i a. nearest m i \<and> r' = Arr a \<and> data a \<noteq> []
              \<and> (\<forall>x\<in>set (data a). x = fneg (shear_options ! i))))
       \<and> (\<forall>i j. i < j \<and> j < length shear_options \<longrightarrow>
             \<not> fge (shear_options ! i) (shear_options ! j))
       \<and> shear_options = [round64 (2 / 1000), round64 (4 / 1000), round64 (6 / 1000)]
       \<and> (\<not> np_isnan_any ds \<longrightarrow> m \<in> elems ds \<and> (\<forall>z\<in>elems ds. fge m z))
       \<and> (bshape du \<noteq> [] \<and> bshape dv \<noteq> [] \<longrightarrow>
            (\<forall>z\<in>elems ds. \<exists>x\<in>elems du. \<exists>y\<in>elems dv.
                z = fsqrt (fadd (fmul x x) (fmul y y))))
       \<and> (\<forall>s xs ys. s \<noteq> [] \<and> du = Arr (NdArray s xs) \<and> dv = Arr (NdArray s ys) \<longrightarrow>
            ds = Arr (NdArray s (map2 (\<lambda>x y. fsqrt (fadd (fmul x x) (fmul y y))) xs ys)))"
proof (intro conjI impI allI)
  from gradients_wf [OF assms(7) assms(1-4)] have w: "wf_val du" "wf_val dv" by simp_all
  {
    assume h: "snd (wind_shear u1 u2 v1 v2 dz) = Inr r \<and> \<not> np_isnan_any ds"
    then have nn: "NaN \<notin> elems ds" by (simp add: np_isnan_any_elems)
    from np_max_max [OF assms(9) nn] have "m \<noteq> NaN" using nn by metis
    from chosen_bucket_nearest [OF this] obtain i where
      i: "nearest m i" "chosen_bucket False m = shear_options ! i" by blast
    from h obtain a ms where
      o: "overwrite (chosen_bucket (np_isnan_any ds) m) ds = Inr (a, ms)" and r: "r = Arr a"
      unfolding wind_shear_run [OF assms(7,8,9)]
      by (cases "overwrite (chosen_bucket (np_isnan_any ds) m) ds") auto
    from overwrite_returns [OF o] h i(2) have "data a \<noteq> []"
      "\<forall>x\<in>set (data a). x = shear_options ! i" by auto
    with i(1) r show "\<exists>i a. nearest m i \<and> r = Arr a \<and> data a \<noteq> []
        \<and> (\<forall>x\<in>set (data a). x = shear_options ! i)" by blast
  }
  {
    assume h: "snd (wind_shear_normal u1 u2 v1 v2 ca sa dz) = Inr r'
        \<and> normal_gradient du dv ca sa = Inr dsn \<and> \<not> np_isnan_any dsn"
    then have n: "normal_gradient du dv ca sa = Inr dsn" and nn: "NaN \<notin> elems dsn"
      by (simp_all add: np_isnan_any_elems)
    from h obtain a ms where
      o: "overwrite (fneg (chosen_bucket (np_isnan_any dsn) m)) dsn = Inr (a, ms)"
      and r: "r' = Arr a"
      unfolding wind_shear_normal_run [OF assms(7) n assms(8,9)]
      by (cases "overwrite (fneg (chosen_bucket (np_isnan_any dsn) m)) dsn") auto
    from overwrite_returns [OF o] obtain g where g: "dsn = Arr g" "shape a = shape g"
      and da: "data a \<noteq> []" "\<forall>x\<in>set (data a). x = fneg (chosen_bucket (np_isnan_any dsn) m)"
      by blast
    have wg: "wf_val dsn" by (rule normal_gradient_facts(1) [OF n w assms(5,6)])
    from overwrite_wf [OF wg o] g(1) have "data g \<noteq> []" by auto
    then have ne: "elems dsn \<noteq> {}" using da(1) g(1) by (auto simp: elems_def)
    have "NaN \<notin> elems ds"
      using nan_magnitude_nan_normal [OF assms(8) n w assms(5,6) _ ne] nn by blast
    from np_max_max [OF assms(9) this] \<open>NaN \<notin> elems ds\<close> have "m \<noteq> NaN" by metis
    from chosen_bucket_nearest [OF this] obtain i where
      i: "nearest m i" "chosen_bucket False m = shear_options ! i" by blast
    have "\<forall>x\<in>set (data a). x = fneg (shear_options ! i)" using da(2) h i(2) by simp
    with i(1) r da(1) show "\<exists>i a. nearest m i \<and> r' = Arr a \<and> data a \<noteq> []
        \<and> (\<forall>x\<in>set (data a). x = fneg (shear_options ! i))" by blast
  }
  {
    fix i j assume "i < j \<and> j < length shear_options"
    then show "\<not> fge (shear_options ! i) (shear_options ! j)"
      using shear_options_increasing [of i j] by (simp add: shear_options_def)
  }
  show "shear_options = [round64 (2 / 1000), round64 (4 / 1000), round64 (6 / 1000)]"
    unfolding shear_options_def d_2e3_def d_4e3_def d_6e3_def by (rule refl)
  {
    assume "\<not> np_isnan_any ds"
    then have nn: "NaN \<notin> elems ds" by (simp add: np_isnan_any_elems)
    from np_max_max [OF assms(9) nn] show "m \<in> elems ds" "\<forall>z\<in>elems ds. fge m z"
      by simp_all
  }
  show "\<forall>z\<in>elems ds. \<exists>x\<in>elems du. \<exists>y\<in>elems dv. z = fsqrt (fadd (fmul x x) (fmul y y))"
    using magnitude_facts(3) [OF assms(8) w] by (simp add: hypot2_def)
  fix s xs ys assume e: "s \<noteq> [] \<and> du = Arr (NdArray s xs) \<and> dv = Arr (NdArray s ys)"
  then have "length xs = prod_list s" "length ys = prod_list s"
    using w by (auto simp: wf_val_def wf_array_def)
  from magnitude_same_shape [OF this] assms(8) e
  show "ds = Arr (NdArray s (map2 (\<lambda>x y. fsqrt (fadd (fmul x x) (fmul y y))) xs ys))" by simp
qed

theorem chosen_bucket_is_nearest_witness:
  "\<exists>du ds m. wf_val u510 \<and> wf_val zero2 \<and> wf_val (PyFloat (Fin 1)) \<and> wf_val (PyFloat (Fin 0))
     \<and> gradients u510 zero2 zero2 zero2 (Fin 1000) = Inr (du, zero2)
     \<and> magnitude du zero2 = Inr ds \<and> np_max ds = Inr m
     \<and> snd (wind_shear u510 zero2 zero2 zero2 (Fin 1000))
         = Inr (Arr (NdArray [2] [d_6e3, d_6e3]))
     \<and> \<not> np_isnan_any ds
     \<and> snd (wind_shear_normal u510 zero2 zero2 zero2 (PyFloat (Fin 1)) (PyFloat (Fin 0))
             (Fin 1000)) = Inr (Arr (NdArray [2] [fneg d_6e3, fneg d_6e3]))
     \<and> normal_gradient du zero2 (PyFloat (Fin 1)) (PyFloat (Fin 0)) = Inr zero2
     \<and> \<not> np_isnan_any zero2 \<and> bshape du \<noteq> [] \<and> bshape zero2 \<noteq> []
     \<and> (\<exists>i a. nearest m i \<and> Arr (NdArray [2] [d_6e3, d_6e3]) = Arr a \<and> data a \<noteq> []
          \<and> (\<forall>x\<in>set (data a). x = shear_options ! i))
     \<and> (\<exists>i a. nearest m i \<and> Arr (NdArray [2] [fneg d_6e3, fneg d_6e3]) = Arr a
          \<and> data a \<noteq> [] \<and> (\<forall>x\<in>set (data a). x = fneg (shear_options ! i)))
     \<and> m \<in> elems ds
     \<and> (\<exists>x\<in>elems du. \<exists>y\<in>elems zero2. m = fsqrt (fadd (fmul x x) (fmul y y)))"
proof -
  from example_run obtain a1 a2 s1 s2 where
    g: "gradients u510 zero2 zero2 zero2 (Fin 1000)
          = Inr (Arr (NdArray [2] [Fin a1, Fin a2]), zero2)"
    and mg: "magnitude (Arr (NdArray [2] [Fin a1, Fin a2])) zero2
          = Inr (Arr (NdArray [2] [Fin s1, Fin s2]))"
    and mx: "np_max (Arr (NdArray [2] [Fin s1, Fin s2])) = Inr (Fin s2)"
    and n: "normal_gradient (Arr (NdArray [2] [Fin a1, Fin a2])) zero2
          (PyFloat (Fin 1)) (PyFloat (Fin 0)) = Inr zero2"
    and r1: "wind_shear u510 zero2 zero2 zero2 (Fin 1000)
         = ([Shear_line d_6e3], Inr (Arr (NdArray [2] [d_6e3, d_6e3])))"
    and r2: "wind_shear_normal u510 zero2 zero2 zero2 (PyFloat (Fin 1)) (PyFloat (Fin 0))
          (Fin 1000)
         = ([Normal_shear_line (fneg d_6e3)],
            Inr (Arr (NdArray [2] [fneg d_6e3, fneg d_6e3])))" by blast
  let ?du = "Arr (NdArray [2] [Fin a1, Fin a2])" and ?ds = "Arr (NdArray [2] [Fin s1, Fin s2])"
  have w: "wf_val u510" "wf_val zero2" "wf_val (PyFloat (Fin 1))" "wf_val (PyFloat (Fin 0))"
    by (simp_all add: wf_val_def wf_array_def)
  have nn: "\<not> np_isnan_any ?ds" "\<not> np_isnan_any zero2"
    by (simp_all add: np_isnan_any_def is_nan_def)
  have b: "bshape ?du \<noteq> []" "bshape zero2 \<noteq> []" by (simp_all add: bshape_def)
  have a: "snd (wind_shear u510 zero2 zero2 zero2 (Fin 1000))
      = Inr (Arr (NdArray [2] [d_6e3, d_6e3]))" unfolding r1 by simp
  have a': "snd (wind_shear_normal u510 zero2 zero2 zero2 (PyFloat (Fin 1)) (PyFloat (Fin 0))
      (Fin 1000)) = Inr (Arr (NdArray [2] [fneg d_6e3, fneg d_6e3]))" unfolding r2 by simp
  note t = chosen_bucket_is_nearest [OF w(1) w(2) w(2) w(2) w(3) w(4) g mg mx,
      of "Arr (NdArray [2] [d_6e3, d_6e3])" "Arr (NdArray [2] [fneg d_6e3, fneg d_6e3])" zero2]
  from t a nn have 1: "\<exists>i a. nearest (Fin s2) i \<and> Arr (NdArray [2] [d_6e3, d_6e3]) = Arr a
      \<and> data a \<noteq> [] \<and> (\<forall>x\<in>set (data a). x = shear_options ! i)" by blast
  from t a' n nn have 2: "\<exists>i a. nearest (Fin s2) i
      \<and> Arr (NdArray [2] [fneg d_6e3, fneg d_6e3]) = Arr a
      \<and> data a \<noteq> [] \<and> (\<forall>x\<in>set (data a). x = fneg (shear_options ! i))" by blast
  from t nn have 3: "Fin s2 \<in> elems ?ds" by blast
  from t b have "\<forall>z\<in>elems ?ds. \<exists>x\<in>elems ?du. \<exists>y\<in>elems zero2.
      z = fsqrt (fadd (fmul x x) (fmul y y))" by blast
  with 3 have 4: "\<exists>x\<in>elems ?du. \<exists>y\<in>elems zero2. Fin s2 = fsqrt (fadd (fmul x x) (fmul y y))"
    by blast
  from w g mg mx a nn a' n b 1 2 3 4 show ?thesis by blast
qed

section \<open>The override of the normal shear on infinite gradients\<close>

lemma normal_gradient_inf2_nan:
  "normal_gradient inf2 inf2 (PyFloat (Fin 1)) (PyFloat (Fin 0)) = Inr nan2"
  unfolding normal_gradient_two by (simp add: fsub_def)

text \<open>
  C10 does not hold as stated of \<^verbatim>\<open>wind_shear_normal\<close>. At \<^verbatim>\<open>dz = 0\<close> with winds \<open>(1, 1)\<close>
  over \<open>(0, 0)\<close> both gradients are \<open>+\<infinity>\<close> and hold no NaN; with \<^verbatim>\<open>cos_a = 1\<close> and
  \<^verbatim>\<open>sin_a = 0\<close> the product \<open>\<infinity> * 0\<close> is a NaN, so is \<^verbatim>\<open>dsn_dz\<close>, and the NaN override is
  taken: the line \<^verbatim>\<open>Removed NaN!\<close> is printed.
\<close>

theorem normal_override_counterexample:
  "gradients one2 zero2 one2 zero2 (Fin 0) = Inr (inf2, inf2)
   \<and> NaN \<notin> elems inf2 \<and> PInf \<in> elems inf2
   \<and> normal_gradient inf2 inf2 (PyFloat (Fin 1)) (PyFloat (Fin 0)) = Inr nan2
   \<and> np_isnan_any nan2
   \<and> wind_shear_normal one2 zero2 one2 zero2 (PyFloat (Fin 1)) (PyFloat (Fin 0)) (Fin 0)
       = ([Removed_NaN, Normal_shear_line (fneg d_2e3)],
          Inr (Arr (NdArray [2] [fneg d_2e3, fneg d_2e3])))"
proof -
  have w: "wf_val one2" "wf_val zero2" "wf_val (PyFloat (Fin 1))" "wf_val (PyFloat (Fin 0))"
    by (simp_all add: wf_val_def wf_array_def)
  have e: "NaN \<notin> elems inf2 \<union> elems inf2"
    "PInf \<in> elems inf2 \<union> elems inf2 \<or> NInf \<in> elems inf2 \<union> elems inf2"
    "data (NdArray [2] [PInf, PInf]) \<noteq> []" "data (NdArray [2] [NaN, NaN]) \<noteq> []"
    by (simp_all add: elems_def)
  have nn: "np_isnan_any nan2" by (simp add: np_isnan_any_def is_nan_def)
  from wind_shear_normal_infinite [OF w(1) w(2) w(1) w(2) w(3) w(4) gradients_one2_dz0
      magnitude_inf2 e(3) e(1) e(2) normal_gradient_inf2_nan e(4)] nn
  have "wind_shear_normal one2 zero2 one2 zero2 (PyFloat (Fin 1)) (PyFloat (Fin 0)) (Fin 0)
       = ([Removed_NaN, Normal_shear_line (fneg d_2e3)],
          Inr (Arr (NdArray [2] [fneg d_2e3, fneg d_2e3])))"
    by (simp add: numeral_2_eq_2)
  moreover have "NaN \<notin> elems inf2" "PInf \<in> elems inf2" by (simp_all add: elems_def)
  moreover note gradients_one2_dz0 normal_gradient_inf2_nan nn
  ultimately show ?thesis by (intro conjI)
qed

end
